(* ===== verification/Prelude.thy ===== *)
theory Prelude
  imports Complex_Main "HOL-Library.AList"
begin

text \<open>
  Shared vocabulary of the development: the Python error values the modelled code can
  raise, Python's truthiness on the optional strings and timestamps the code tests with
  \<open>if x:\<close> and \<open>x or y\<close>, the in-place list operations \<open>list.insert\<close> and
  \<open>list.pop\<close> as functions, a first-match index search, and the lemmas on them that the
  component theories share (sortedness under insertion, removal and in-place update, counts
  of matching elements).
\<close>

named_theorems list_ops_simps \<open>rewrite rules for insert_at, pop_at and first_index\<close>

type_synonym time = real
type_synonym layer_name = string
type_synonym tag_name = string

datatype py_error =
    InvalidDisplayable
  | NonExistentLayer string
  | UnknownLayer string
  | KeyError
  | IndexError
  | TypeError
  | ReentrantInteraction
  | BadTransition
  | QuitRequested
  | DisplayInitError
  | VideoModeError
  | AttributeError
  | IOError
  | ZeroDivisionError
  | ParameterError

text \<open>Python truthiness of an optional string: \<open>None\<close> and \<open>''\<close> are false.\<close>

definition truthy_str :: "string option \<Rightarrow> bool" where
  "truthy_str s = (case s of None \<Rightarrow> False | Some x \<Rightarrow> x \<noteq> [])"

text \<open>Python truthiness of an optional float: \<open>None\<close> and \<open>0.0\<close> are false.\<close>

definition truthy_time :: "time option \<Rightarrow> bool" where
  "truthy_time t = (case t of None \<Rightarrow> False | Some x \<Rightarrow> x \<noteq> 0)"

text \<open>Python's \<open>t or d\<close> for an optional float \<open>t\<close>: \<open>None\<close> and \<open>0.0\<close> give \<open>d\<close>.\<close>

definition py_or :: "time option \<Rightarrow> time \<Rightarrow> time" where
  "py_or t d = (case t of None \<Rightarrow> d | Some x \<Rightarrow> if x = 0 then d else x)"

text \<open>\<open>s.startswith(p)\<close>.\<close>

definition startswith :: "string \<Rightarrow> string \<Rightarrow> bool" where
  "startswith s p = (take (length p) s = p)"

text \<open>\<open>l.insert(i, x)\<close> (an index past the end appends) and \<open>l.pop(i)\<close>.\<close>

definition insert_at :: "nat \<Rightarrow> 'a \<Rightarrow> 'a list \<Rightarrow> 'a list" where
  "insert_at i x l = take i l @ x # drop i l"

definition pop_at :: "nat \<Rightarrow> 'a list \<Rightarrow> 'a list" where
  "pop_at i l = take i l @ drop (Suc i) l"

text \<open>The index of the first element satisfying \<open>P\<close>.\<close>

fun first_index :: "('a \<Rightarrow> bool) \<Rightarrow> 'a list \<Rightarrow> nat option" where
  "first_index P [] = None"
| "first_index P (x # xs) = (if P x then Some 0 else map_option Suc (first_index P xs))"

lemma truthy_str_simps [simp]:
  "truthy_str None = False" "truthy_str (Some x) = (x \<noteq> [])"
  by (simp_all add: truthy_str_def)

lemma truthy_time_simps [simp]:
  "truthy_time None = False" "truthy_time (Some x) = (x \<noteq> 0)"
  by (simp_all add: truthy_time_def)

lemma py_or_simps [simp]:
  "py_or None d = d" "py_or (Some x) d = (if x = 0 then d else x)"
  by (simp_all add: py_or_def)

lemma length_insert_at [list_ops_simps]:
  "i \<le> length l \<Longrightarrow> length (insert_at i x l) = Suc (length l)"
  by (simp add: insert_at_def)

lemma length_pop_at [list_ops_simps]:
  "i < length l \<Longrightarrow> length (pop_at i l) = length l - 1"
  by (simp add: pop_at_def)

lemma set_insert_at [list_ops_simps]: "set (insert_at i x l) = insert x (set l)"
proof -
  have "set l = set (take i l) \<union> set (drop i l)"
    by (metis append_take_drop_id set_append)
  then show ?thesis by (auto simp: insert_at_def)
qed

lemma set_pop_at_subset: "set (pop_at i l) \<subseteq> set l"
  by (auto simp: pop_at_def dest: in_set_takeD in_set_dropD)

lemma filter_insert_at [list_ops_simps]:
  "filter P (insert_at i x l) = (if P x then insert_at (length (filter P (take i l))) x (filter P l) else filter P l)"
proof -
  have "filter P l = filter P (take i l) @ filter P (drop i l)"
    by (metis append_take_drop_id filter_append)
  then show ?thesis
    by (auto simp: insert_at_def)
qed

lemma count_take_drop:
  "length (filter P (take i l)) + length (filter P (drop i l)) = length (filter P l)"
  by (metis append_take_drop_id filter_append length_append)

lemma count_insert_at:
  "length (filter P (insert_at i x l)) = length (filter P l) + (if P x then 1 else 0)"
  using count_take_drop [of P i l] by (simp add: insert_at_def)

lemma count_pop_at:
  "i < length l \<Longrightarrow> length (filter P (pop_at i l)) = length (filter P l) - (if P (l ! i) then 1 else 0)"
proof -
  assume i: "i < length l"
  have l: "l = take i l @ l ! i # drop (Suc i) l"
    using i by (simp add: id_take_nth_drop)
  show ?thesis
    by (subst (2) l) (simp add: pop_at_def)
qed

lemma count_list_update:
  "i < length l \<Longrightarrow> length (filter P (l[i := x])) =
     length (filter P l) - (if P (l ! i) then 1 else 0) + (if P x then 1 else 0)"
proof -
  assume i: "i < length l"
  have l: "l = take i l @ l ! i # drop (Suc i) l"
    using i by (simp add: id_take_nth_drop)
  have u: "l[i := x] = take i l @ x # drop (Suc i) l"
    using i by (simp add: upd_conv_take_nth_drop)
  show ?thesis
    by (subst u, subst (2) l) simp
qed

lemma sorted_insert_at:
  assumes "sorted (map f l)"
    and "\<forall>y \<in> set (take i l). f y \<le> f x"
    and "\<forall>y \<in> set (drop i l). f x \<le> f y"
  shows "sorted (map f (insert_at i x l))"
proof -
  from assms(1) have "sorted (map f (take i l) @ map f (drop i l))"
    by (metis append_take_drop_id map_append)
  then have "sorted (map f (take i l))" "sorted (map f (drop i l))"
    and "\<forall>a \<in> set (take i l). \<forall>b \<in> set (drop i l). f a \<le> f b"
    by (auto simp: sorted_append)
  with assms(2,3) show ?thesis
    by (auto simp: insert_at_def sorted_append)
qed

lemma sorted_pop_at: "sorted (map f l) \<Longrightarrow> sorted (map f (pop_at i l))"
proof -
  assume s: "sorted (map f l)"
  have "map f l = map f (take i l) @ map f (drop i l)"
    by (metis append_take_drop_id map_append)
  with s have "sorted (map f (take i l) @ map f (drop i l))" by simp
  moreover have "set (drop (Suc i) l) \<subseteq> set (drop i l)"
    by (simp add: set_drop_subset_set_drop)
  moreover have "sorted (map f (drop (Suc i) l))"
    using s by (metis drop_map sorted_wrt_drop)
  ultimately show ?thesis
    by (auto simp: pop_at_def sorted_append)
qed

lemma sorted_list_update_same:
  "sorted (map f l) \<Longrightarrow> i < length l \<Longrightarrow> f x = f (l ! i) \<Longrightarrow> sorted (map f (l[i := x]))"
  by (metis list_update_id map_update nth_map)

lemma first_index_Some_iff:
  "first_index P l = Some i \<longleftrightarrow> i < length l \<and> P (l ! i) \<and> (\<forall>j < i. \<not> P (l ! j))"
proof (induction l arbitrary: i)
  case Nil
  then show ?case by simp
next
  case (Cons x xs)
  show ?case
  proof (cases i)
    case 0
    then show ?thesis by auto
  next
    case (Suc k)
    then show ?thesis
      using Cons.IH [of k] by (auto simp: less_Suc_eq_0_disj)
  qed
qed

lemma first_index_None_iff: "first_index P l = None \<longleftrightarrow> (\<forall>x \<in> set l. \<not> P x)"
  by (induction l) auto

end
