(* ===== verification/Displayable.thy ===== *)
theory Displayable
  imports Prelude
begin

text \<open>
  The Displayable capability of \<open>src/renpy/display/core.py\<close> (class \<open>Displayable\<close>,
  class \<open>absolute\<close>, class \<open>SceneListEntry\<close>). Displayables are dynamically
  dispatched Python objects; the model keeps them abstract as a type variable \<open>'d\<close>
  and collects the methods the scene lists call on them in the record
  \<open>disp_ops\<close>, so the scene-list theorems hold for every implementation of the
  capability. What the base class itself computes is modelled concretely: the placement
  algorithm \<open>place\<close> (position scaled by the parent box, anchor by the rendered
  surface, fractions told apart from absolute pixels by their Python class) and the entry
  operation \<open>update_time\<close>.
\<close>

subsection \<open>Placement\<close>

text \<open>
  A placement field is a Python \<open>int\<close>, an \<open>absolute\<close> (a float subclass meaning
  pixels) or a plain \<open>float\<close> (a fraction); \<open>place\<close> tests \<open>__class__ is float\<close>,
  so only the last one is scaled.
\<close>

datatype position = PInt int | PAbsolute real | PFloat real

record placement =
  xpos :: "position option"
  ypos :: "position option"
  xanchor :: "position option"
  yanchor :: "position option"
  xoffset :: "real option"
  yoffset :: "real option"
  subpixel :: bool

definition pos_value :: "position option \<Rightarrow> real \<Rightarrow> real" where
  "pos_value p base =
     (case p of None \<Rightarrow> 0
      | Some (PInt n) \<Rightarrow> of_int n
      | Some (PAbsolute r) \<Rightarrow> r
      | Some (PFloat r) \<Rightarrow> r * base)"

definition offset_value :: "real option \<Rightarrow> real" where
  "offset_value v = (case v of None \<Rightarrow> 0 | Some r \<Rightarrow> r)"

text \<open>
  \<open>Displayable.place(dest, x, y, width, height, surf)\<close>: the coordinates at which the
  surface is blitted (the blit itself belongs to the rendering backend).
\<close>

definition place :: "placement \<Rightarrow> real \<Rightarrow> real \<Rightarrow> real \<Rightarrow> real \<Rightarrow> real \<times> real \<Rightarrow> real \<times> real" where
  "place p x y width height surf =
     (pos_value (xpos p) width + (x + offset_value (xoffset p) - pos_value (xanchor p) (fst surf)),
      pos_value (ypos p) height + (y + offset_value (yoffset p) - pos_value (yanchor p) (snd surf)))"

subsection \<open>The capability interface\<close>

text \<open>
  \<open>_hide(st, at, kind)\<close> receives the prefix its caller passes; the code passes the
  strings \<open>"hide"\<close> and \<open>"replaced"\<close>, and \<open>SceneLists.clear\<close> passes the boolean
  \<open>True\<close>, so the kind is a Python string or bool.
\<close>

datatype prefix = Prefix string | BoolPrefix bool

text \<open>
  The methods the scene lists call, one field each:
  \<open>is_displayable\<close> is \<open>isinstance(d, Displayable)\<close>; \<open>is_transform\<close> and
  \<open>is_screen\<close> the tests against \<open>motion.Transform\<close> and \<open>ScreenDisplayable\<close>;
  \<open>get_parameterized\<close> is \<open>_get_parameterized()\<close>; \<open>wrap_transform d\<close> is
  \<open>Transform(child=d)\<close>; \<open>take_state old new\<close> is \<open>new\<close> after its parameterized
  transform ran \<open>take_state(old)\<close>; \<open>change_transform_child old d\<close> is
  \<open>old._change_transform_child(d)\<close>; \<open>atl_transform a d\<close> is
  \<open>ATLTransform(a, child=d)\<close>; \<open>set_transform_event e d\<close> and \<open>show_op d\<close> are the
  displayable after \<open>set_transform_event(e)\<close> and \<open>_show()\<close>; \<open>hide_op\<close> is
  \<open>_hide\<close>, \<open>None\<close> when the displayable is ready to go and a replacement
  displayable otherwise.
\<close>

record ('d, 'atl) disp_ops =
  is_displayable :: "'d \<Rightarrow> bool"
  is_transform :: "'d \<Rightarrow> bool"
  is_screen :: "'d \<Rightarrow> bool"
  get_parameterized :: "'d \<Rightarrow> 'd"
  wrap_transform :: "'d \<Rightarrow> 'd"
  take_state :: "'d \<Rightarrow> 'd \<Rightarrow> 'd"
  change_transform_child :: "'d \<Rightarrow> 'd \<Rightarrow> 'd"
  atl_transform :: "'atl \<Rightarrow> 'd \<Rightarrow> 'd"
  set_transform_event :: "string \<Rightarrow> 'd \<Rightarrow> 'd"
  show_op :: "'d \<Rightarrow> 'd"
  hide_op :: "'d \<Rightarrow> time \<Rightarrow> time \<Rightarrow> prefix \<Rightarrow> 'd option"

subsection \<open>Scene list entries\<close>

record 'd scene_list_entry =
  tag :: "string option"
  zorder :: int
  show_time :: "time option"
  animation_time :: "time option"
  displayable :: 'd
  name :: "string list option"

text \<open>\<open>SceneListEntry.update_time\<close>: a copy with unset times latched to \<open>time\<close>.\<close>

definition update_time :: "'d scene_list_entry \<Rightarrow> time \<Rightarrow> 'd scene_list_entry" where
  "update_time e t =
     (if show_time e = None \<or> animation_time e = None
      then e\<lparr>show_time := Some (py_or (show_time e) t),
             animation_time := Some (py_or (animation_time e) t)\<rparr>
      else e)"

subsection \<open>Example displayables\<close>

text \<open>
  A concrete implementation of the capability used by the witnesses: a plain image, which
  leaves at once when hidden, and an image with an exit animation, whose \<open>_hide\<close>
  returns the plain image (the animation is still running) so that it lingers under a
  lifecycle tag until the next sweep. Neither is a transform or a screen.
\<close>

datatype demo_disp = Plain string | WithExit string | NotADisplayable

definition demo_ops :: "(demo_disp, unit) disp_ops" where
  "demo_ops =
     \<lparr>is_displayable = (\<lambda>d. d \<noteq> NotADisplayable),
      is_transform = (\<lambda>_. False),
      is_screen = (\<lambda>_. False),
      get_parameterized = id,
      wrap_transform = id,
      take_state = (\<lambda>_ d. d),
      change_transform_child = (\<lambda>_ d. d),
      atl_transform = (\<lambda>_ d. d),
      set_transform_event = (\<lambda>_ d. d),
      show_op = id,
      hide_op = (\<lambda>d _ _ _. case d of WithExit s \<Rightarrow> Some (Plain s) | _ \<Rightarrow> None)\<rparr>"

lemma demo_ops_simps [simp]:
  "is_displayable demo_ops d = (d \<noteq> NotADisplayable)"
  "is_transform demo_ops d = False"
  "is_screen demo_ops d = False"
  "get_parameterized demo_ops d = d"
  "wrap_transform demo_ops d = d"
  "take_state demo_ops od d = d"
  "change_transform_child demo_ops od d = d"
  "atl_transform demo_ops a d = d"
  "set_transform_event demo_ops e d = d"
  "show_op demo_ops d = d"
  "hide_op demo_ops (Plain s) t1 t2 k = None"
  "hide_op demo_ops (WithExit s) t1 t2 k = Some (Plain s)"
  by (simp_all add: demo_ops_def)

lemma update_time_times:
  "show_time (update_time e t) \<noteq> None"
  "animation_time (update_time e t) \<noteq> None"
  by (auto simp: update_time_def)

lemma update_time_keeps [simp]:
  "tag (update_time e t) = tag e"
  "zorder (update_time e t) = zorder e"
  "displayable (update_time e t) = displayable e"
  "name (update_time e t) = name e"
  by (simp_all add: update_time_def)

end
