(* ===== verification/SceneLists.thy ===== *)
theory SceneLists
  imports Displayable
begin

text \<open>
  The scene lists of \<open>src/renpy/display/core.py\<close> (class \<open>SceneLists\<close>): per layer an
  ordered list of tagged entries, a tag to at-list map and a layer-wide at-list, plus the
  pairs registered as transient for one interaction. The Python object is mutated in
  place; the model passes it explicitly and returns the new value, or the exception the
  method raises (\<open>Inl\<close>). The \<open>layers\<close> dictionary is an association list in the
  dictionary's insertion order (the order \<open>__init__\<close> fills it: configured layers,
  then top layers), so that the methods that iterate over it keep their order. Each method
  that the Python code runs on \<open>self.layers[layer]\<close> alone is a function on that list.
\<close>

subsection \<open>Configuration and state\<close>

text \<open>The fields of \<open>renpy.config\<close> that the scene lists and the interface read.\<close>

record config =
  config_layers :: "layer_name list"
  top_layers :: "layer_name list"
  transient_layers :: "layer_name list"
  overlay_layers :: "layer_name list"
  keep_running_transform :: bool

record ('d, 't) scene_lists =
  layers :: "(layer_name \<times> 'd scene_list_entry list) list"
  at_list :: "layer_name \<Rightarrow> (tag_name \<Rightarrow> 't list option) option"
  layer_at_list :: "layer_name \<Rightarrow> (time option \<times> 't list) option"
  additional_transient :: "(layer_name \<times> string option) list"
  shown_window :: bool

text \<open>
  What \<open>find_index\<close>, \<open>remove\<close> and \<open>remove_above\<close> look for: a tag, a displayable,
  or \<open>None\<close> (the key of an untagged \<open>add\<close>).
\<close>

datatype 'd target = NoTarget | TagTarget string | DispTarget 'd

definition key_target :: "string option \<Rightarrow> 'd target" where
  "key_target k = (case k of None \<Rightarrow> NoTarget | Some s \<Rightarrow> TagTarget s)"

definition set_layer :: "layer_name \<Rightarrow> 'd scene_list_entry list \<Rightarrow> ('d, 't) scene_lists \<Rightarrow> ('d, 't) scene_lists" where
  "set_layer layer l sl = sl\<lparr>layers := AList.update layer l (layers sl)\<rparr>"

subsection \<open>find_index\<close>

text \<open>
  The insertion test: an entry with a greater zorder, or one at the same zorder whose
  (truthy) tag is the key or is listed in \<open>behind\<close>.
\<close>

definition add_here :: "'d target \<Rightarrow> int \<Rightarrow> string list \<Rightarrow> 'd scene_list_entry \<Rightarrow> bool" where
  "add_here tg z behind sle =
     (if zorder sle = z
      then (case tag sle of None \<Rightarrow> False
            | Some t \<Rightarrow> t \<noteq> [] \<and> (tg = TagTarget t \<or> t \<in> set behind))
      else z < zorder sle)"

text \<open>The removal test: the (truthy) tag is the key, or the displayable is the thing.\<close>

definition remove_here :: "'d target \<Rightarrow> 'd scene_list_entry \<Rightarrow> bool" where
  "remove_here tg sle =
     ((case tag sle of None \<Rightarrow> False | Some t \<Rightarrow> t \<noteq> [] \<and> tg = TagTarget t)
      \<or> tg = DispTarget (displayable sle))"

text \<open>The single pass of \<open>find_index\<close>, with the two indices still unset as \<open>None\<close>.\<close>

fun find_index_loop :: "'d target \<Rightarrow> int \<Rightarrow> string list \<Rightarrow> nat \<Rightarrow> 'd scene_list_entry list \<Rightarrow>
    nat option \<Rightarrow> nat option \<Rightarrow> nat \<times> nat option" where
  "find_index_loop tg z behind i [] add_index remove_index =
     ((case add_index of None \<Rightarrow> i | Some a \<Rightarrow> a), remove_index)"
| "find_index_loop tg z behind i (sle # rest) add_index remove_index =
     find_index_loop tg z behind (Suc i) rest
       (if add_index = None \<and> add_here tg z behind sle then Some i else add_index)
       (if remove_index = None \<and> remove_here tg sle then Some i else remove_index)"

definition find_index :: "'d scene_list_entry list \<Rightarrow> 'd target \<Rightarrow> int \<Rightarrow> string list \<Rightarrow> nat \<times> nat option" where
  "find_index l tg z behind = find_index_loop tg z behind 0 l None None"

subsection \<open>transform_state\<close>

definition transform_state :: "('d, 'atl) disp_ops \<Rightarrow> 'd option \<Rightarrow> 'd \<Rightarrow> 'd" where
  "transform_state ops old_thing new_thing =
     (case old_thing of None \<Rightarrow> new_thing
      | Some old \<Rightarrow>
          if is_screen ops new_thing then new_thing
          else if \<not> is_transform ops (get_parameterized ops old) then new_thing
          else take_state ops (get_parameterized ops old)
                 (if is_transform ops (get_parameterized ops new_thing) then new_thing
                  else wrap_transform ops new_thing))"

subsection \<open>hide_or_replace\<close>

text \<open>
  The entry at \<open>index\<close> is asked to hide; a replacement keeps the slot under the tag
  \<open>prefix + "$" + tag\<close>, otherwise the entry is popped. Concatenating a bool prefix with
  a string raises \<open>TypeError\<close>; an index out of range raises \<open>IndexError\<close>.
\<close>

definition hide_or_replace :: "('d, 'atl) disp_ops \<Rightarrow> time \<Rightarrow> 'd scene_list_entry list \<Rightarrow> nat \<Rightarrow> prefix \<Rightarrow>
    py_error + 'd scene_list_entry list" where
  "hide_or_replace ops now l index pfx =
     (if length l \<le> index then Inl IndexError
      else
        let oldsle = l ! index;
            st = py_or (show_time oldsle) now;
            a_t = py_or (animation_time oldsle) now
        in if truthy_str (tag oldsle)
           then (case hide_op ops (displayable oldsle) (now - st) (now - a_t) pfx of
                   None \<Rightarrow> Inr (pop_at index l)
                 | Some d \<Rightarrow>
                     (case pfx of
                        BoolPrefix _ \<Rightarrow> Inl TypeError
                      | Prefix p \<Rightarrow>
                          Inr (l[index := \<lparr>tag = Some (p @ ''$'' @ the (tag oldsle)),
                                           zorder = zorder oldsle, show_time = Some st,
                                           animation_time = Some a_t, displayable = d,
                                           name = None\<rparr>])))
           else Inr (pop_at index l))"

subsection \<open>remove_hide_replaced\<close>

definition remove_hide_replaced :: "string \<Rightarrow> 'd scene_list_entry list \<Rightarrow> 'd scene_list_entry list" where
  "remove_hide_replaced t l =
     filter (\<lambda>i. tag i \<noteq> Some (''hide$'' @ t) \<and> tag i \<noteq> Some (''replaced$'' @ t)) l"

subsection \<open>add\<close>

text \<open>
  The displayable \<open>add\<close> stores: wrapped in the ATL transform if one is given; when it
  supersedes \<open>old\<close>, either the old transform re-parented onto it (transform
  continuity) or its state taken from \<open>old\<close>, marked \<open>"replace"\<close>; otherwise given the
  default transform unless it is a transform itself, marked \<open>"show"\<close>; then \<open>_show()\<close>.
\<close>

definition new_displayable :: "('d, 'atl) disp_ops \<Rightarrow> config \<Rightarrow> 'd \<Rightarrow> 't list \<Rightarrow> 'atl option \<Rightarrow> 'd option \<Rightarrow>
    'd option \<Rightarrow> 'd" where
  "new_displayable ops cfg thing al atl default_transform old =
     (let thing1 = (case atl of None \<Rightarrow> thing | Some a \<Rightarrow> atl_transform ops a thing)
      in case old of
           Some od \<Rightarrow>
             show_op ops (set_transform_event ops ''replace''
               (if atl = None \<and> al = [] \<and> keep_running_transform cfg \<and> is_transform ops od
                then change_transform_child ops od thing1
                else transform_state ops (Some od) thing1))
         | None \<Rightarrow>
             show_op ops (set_transform_event ops ''show''
               (if \<not> is_transform ops thing1 then transform_state ops default_transform thing1
                else thing1)))"

text \<open>
  The list part of \<open>add\<close>, from \<open>find_index\<close> on: insert the new entry and hand the
  superseded one (its index shifted when the insertion was before it) to
  \<open>hide_or_replace\<close> with prefix \<open>"replaced"\<close>.
\<close>

definition add_to_list :: "('d, 'atl) disp_ops \<Rightarrow> config \<Rightarrow> time \<Rightarrow> 'd \<Rightarrow> string option \<Rightarrow> int \<Rightarrow>
    string list \<Rightarrow> 't list \<Rightarrow> string list option \<Rightarrow> 'atl option \<Rightarrow> 'd option \<Rightarrow>
    'd scene_list_entry list \<Rightarrow> py_error + 'd scene_list_entry list" where
  "add_to_list ops cfg now thing key z behind al nm atl default_transform l =
     (case find_index l (key_target key) z behind of
        (add_index, None) \<Rightarrow>
          Inr (insert_at add_index
                 \<lparr>tag = key, zorder = z, show_time = None, animation_time = None,
                  displayable = new_displayable ops cfg thing al atl default_transform None,
                  name = nm\<rparr> l)
      | (add_index, Some r) \<Rightarrow>
          hide_or_replace ops now
            (insert_at add_index
               \<lparr>tag = key, zorder = z, show_time = None, animation_time = animation_time (l ! r),
                displayable = new_displayable ops cfg thing al atl default_transform (Some (displayable (l ! r))),
                name = nm\<rparr> l)
            (if add_index \<le> r then Suc r else r) (Prefix ''replaced''))"

text \<open>
  \<open>SceneLists.add\<close>. The prediction index \<open>self.shown\<close> (\<open>predict_show\<close>) belongs to
  the image-prediction subsystem and is not part of this state.
\<close>

definition add :: "('d, 'atl) disp_ops \<Rightarrow> config \<Rightarrow> time \<Rightarrow> layer_name \<Rightarrow> 'd \<Rightarrow> string option \<Rightarrow> int \<Rightarrow>
    string list \<Rightarrow> 't list \<Rightarrow> string list option \<Rightarrow> 'atl option \<Rightarrow> 'd option \<Rightarrow> bool \<Rightarrow>
    ('d, 't) scene_lists \<Rightarrow> py_error + ('d, 't) scene_lists" where
  "add ops cfg now layer thing key z behind al nm atl default_transform transient sl =
     (if \<not> is_displayable ops thing then Inl InvalidDisplayable
      else case map_of (layers sl) layer of
        None \<Rightarrow> Inl (NonExistentLayer layer)
      | Some l0 \<Rightarrow>
          (case (if truthy_str key
                 then (case at_list sl layer of
                         None \<Rightarrow> Inl KeyError
                       | Some m \<Rightarrow> Inr (remove_hide_replaced (the key) l0,
                                       sl\<lparr>at_list := (at_list sl)(layer \<mapsto> m(the key \<mapsto> al))\<rparr>))
                 else Inr (l0, sl)) of
             Inl e \<Rightarrow> Inl e
           | Inr (l, sl1) \<Rightarrow>
               (let sl2 = (if transient
                           then sl1\<lparr>additional_transient := additional_transient sl1 @ [(layer, key)]\<rparr>
                           else sl1)
                in case add_to_list ops cfg now thing key z behind al nm atl default_transform l of
                     Inl e \<Rightarrow> Inl e
                   | Inr l' \<Rightarrow> Inr (set_layer layer l' sl2))))"

subsection \<open>remove\<close>

definition remove :: "('d, 'atl) disp_ops \<Rightarrow> time \<Rightarrow> layer_name \<Rightarrow> 'd target \<Rightarrow>
    ('d, 't) scene_lists \<Rightarrow> py_error + ('d, 't) scene_lists" where
  "remove ops now layer thing sl =
     (case map_of (layers sl) layer of
        None \<Rightarrow> Inl (NonExistentLayer layer)
      | Some l \<Rightarrow>
          (case snd (find_index l thing 0 []) of
             None \<Rightarrow> Inr sl
           | Some r \<Rightarrow>
               (case (if truthy_str (tag (l ! r))
                      then (case at_list sl layer of
                              None \<Rightarrow> Inl KeyError
                            | Some m \<Rightarrow> Inr (sl\<lparr>at_list := (at_list sl)(layer \<mapsto> m(the (tag (l ! r)) := None))\<rparr>))
                      else Inr sl) of
                  Inl e \<Rightarrow> Inl e
                | Inr sl1 \<Rightarrow>
                    (case hide_or_replace ops now l r (Prefix ''hide'') of
                       Inl e \<Rightarrow> Inl e
                     | Inr l' \<Rightarrow> Inr (set_layer layer l' sl1)))))"

subsection \<open>remove_above\<close>

text \<open>
  From the top of the layer down to the entry that is \<open>thing\<close> (by tag or by
  displayable): everything that is not already exiting (a tag containing \<open>"$"\<close>) is
  hidden. A falsy \<open>thing\<close> stops nowhere.
\<close>

definition target_truthy :: "'d target \<Rightarrow> bool" where
  "target_truthy tg = (case tg of NoTarget \<Rightarrow> False | TagTarget s \<Rightarrow> s \<noteq> [] | DispTarget _ \<Rightarrow> True)"

fun remove_above_loop :: "('d, 'atl) disp_ops \<Rightarrow> time \<Rightarrow> 'd target \<Rightarrow> nat \<Rightarrow> 'd scene_list_entry list \<Rightarrow>
    py_error + 'd scene_list_entry list" where
  "remove_above_loop ops now thing 0 l = Inr l"
| "remove_above_loop ops now thing (Suc i) l =
     (let sle = l ! i
      in if target_truthy thing \<and> (thing = TagTarget (the (tag sle)) \<and> tag sle \<noteq> None
                                   \<or> thing = DispTarget (displayable sle))
         then Inr l
         else if truthy_str (tag sle) \<and> CHR ''$'' \<in> set (the (tag sle))
         then remove_above_loop ops now thing i l
         else (case hide_or_replace ops now l i (Prefix ''hide'') of
                 Inl e \<Rightarrow> Inl e
               | Inr l' \<Rightarrow> remove_above_loop ops now thing i l'))"

definition remove_above :: "('d, 'atl) disp_ops \<Rightarrow> time \<Rightarrow> layer_name \<Rightarrow> 'd target \<Rightarrow>
    ('d, 't) scene_lists \<Rightarrow> py_error + ('d, 't) scene_lists" where
  "remove_above ops now layer thing sl =
     (case map_of (layers sl) layer of
        None \<Rightarrow> Inl KeyError
      | Some l \<Rightarrow>
          (case remove_above_loop ops now thing (length l) l of
             Inl e \<Rightarrow> Inl e
           | Inr l' \<Rightarrow> Inr (set_layer layer l' sl)))"

subsection \<open>clear\<close>

text \<open>
  \<open>for i in reversed(xrange(len(l))): self.hide_or_replace(layer, i, hide)\<close>: the
  indices from the top down, each call on the list the previous one left. The prefix
  passed is the boolean \<open>hide\<close> itself.
\<close>

fun hide_rev :: "('d, 'atl) disp_ops \<Rightarrow> time \<Rightarrow> nat \<Rightarrow> 'd scene_list_entry list \<Rightarrow> prefix \<Rightarrow>
    py_error + 'd scene_list_entry list" where
  "hide_rev ops now 0 l pfx = Inr l"
| "hide_rev ops now (Suc i) l pfx =
     (case hide_or_replace ops now l i pfx of
        Inl e \<Rightarrow> Inl e
      | Inr l' \<Rightarrow> hide_rev ops now i l' pfx)"

text \<open>\<open>self.shown.predict_scene(layer)\<close> belongs to the prediction subsystem.\<close>

definition clear :: "('d, 'atl) disp_ops \<Rightarrow> time \<Rightarrow> layer_name \<Rightarrow> bool \<Rightarrow>
    ('d, 't) scene_lists \<Rightarrow> py_error + ('d, 't) scene_lists" where
  "clear ops now layer hide sl =
     (case (if \<not> hide then Inr (set_layer layer [] sl)
            else (case map_of (layers sl) layer of
                    None \<Rightarrow> Inl KeyError
                  | Some l \<Rightarrow>
                      (case hide_rev ops now (length l) l (BoolPrefix hide) of
                         Inl e \<Rightarrow> Inl e
                       | Inr l' \<Rightarrow> Inr (set_layer layer l' sl)))) of
        Inl e \<Rightarrow> Inl e
      | Inr sl1 \<Rightarrow>
          (case at_list sl1 layer of
             None \<Rightarrow> Inl KeyError
           | Some _ \<Rightarrow>
               Inr (sl1\<lparr>at_list := (at_list sl1)(layer \<mapsto> Map.empty),
                        layer_at_list := (layer_at_list sl1)(layer \<mapsto> (None, []))\<rparr>)))"

subsection \<open>remove_hidden\<close>

text \<open>
  Lifecycle entries (tags \<open>"hide$..."\<close> and \<open>"replaced$..."\<close>) are asked again
  whether they are done; those whose \<open>_hide\<close> returns nothing are dropped.
  \<open>now - sle.show_time\<close> raises \<open>TypeError\<close> on an unset time.
\<close>

definition rehide :: "('d, 'atl) disp_ops \<Rightarrow> time \<Rightarrow> 'd scene_list_entry \<Rightarrow> string \<Rightarrow> py_error + bool" where
  "rehide ops now sle kind =
     (case (show_time sle, animation_time sle) of
        (Some st, Some a_t) \<Rightarrow> Inr (hide_op ops (displayable sle) (now - st) (now - a_t) (Prefix kind) \<noteq> None)
      | _ \<Rightarrow> Inl TypeError)"

fun sweep_hidden :: "('d, 'atl) disp_ops \<Rightarrow> time \<Rightarrow> 'd scene_list_entry list \<Rightarrow>
    py_error + 'd scene_list_entry list" where
  "sweep_hidden ops now [] = Inr []"
| "sweep_hidden ops now (sle # rest) =
     (case (case tag sle of
              Some t \<Rightarrow>
                if t \<noteq> [] \<and> startswith t ''hide$'' then rehide ops now sle ''hide''
                else if t \<noteq> [] \<and> startswith t ''replaced$'' then rehide ops now sle ''replaced''
                else Inr True
            | None \<Rightarrow> Inr True) of
        Inl e \<Rightarrow> Inl e
      | Inr keep \<Rightarrow>
          (case sweep_hidden ops now rest of
             Inl e \<Rightarrow> Inl e
           | Inr rest' \<Rightarrow> Inr (if keep then sle # rest' else rest')))"

fun remove_hidden_layers :: "('d, 'atl) disp_ops \<Rightarrow> time \<Rightarrow> (layer_name \<times> 'd scene_list_entry list) list \<Rightarrow>
    py_error + (layer_name \<times> 'd scene_list_entry list) list" where
  "remove_hidden_layers ops now [] = Inr []"
| "remove_hidden_layers ops now ((k, l) # ls) =
     (case sweep_hidden ops now l of
        Inl e \<Rightarrow> Inl e
      | Inr l' \<Rightarrow>
          (case remove_hidden_layers ops now ls of
             Inl e \<Rightarrow> Inl e
           | Inr ls' \<Rightarrow> Inr ((k, l') # ls')))"

definition remove_hidden :: "('d, 'atl) disp_ops \<Rightarrow> time \<Rightarrow> ('d, 't) scene_lists \<Rightarrow>
    py_error + ('d, 't) scene_lists" where
  "remove_hidden ops now sl =
     (case remove_hidden_layers ops now (layers sl) of
        Inl e \<Rightarrow> Inl e
      | Inr ls \<Rightarrow> Inr (sl\<lparr>layers := ls\<rparr>))"

subsection \<open>replace_transient and transient_is_empty\<close>

text \<open>\<open>for i in names: self.clear(i, hide)\<close>.\<close>

fun clear_layers :: "('d, 'atl) disp_ops \<Rightarrow> time \<Rightarrow> bool \<Rightarrow> layer_name list \<Rightarrow> ('d, 't) scene_lists \<Rightarrow>
    py_error + ('d, 't) scene_lists" where
  "clear_layers ops now hide [] sl = Inr sl"
| "clear_layers ops now hide (i # is) sl =
     (case clear ops now i hide sl of Inl e \<Rightarrow> Inl e | Inr sl' \<Rightarrow> clear_layers ops now hide is sl')"

fun remove_pairs :: "('d, 'atl) disp_ops \<Rightarrow> time \<Rightarrow> (layer_name \<times> string option) list \<Rightarrow>
    ('d, 't) scene_lists \<Rightarrow> py_error + ('d, 't) scene_lists" where
  "remove_pairs ops now [] sl = Inr sl"
| "remove_pairs ops now ((layer, t) # ps) sl =
     (case remove ops now layer (key_target t) sl of
        Inl e \<Rightarrow> Inl e
      | Inr sl' \<Rightarrow> remove_pairs ops now ps sl')"

definition replace_transient :: "('d, 'atl) disp_ops \<Rightarrow> config \<Rightarrow> time \<Rightarrow> ('d, 't) scene_lists \<Rightarrow>
    py_error + ('d, 't) scene_lists" where
  "replace_transient ops cfg now sl =
     (case clear_layers ops now True (transient_layers cfg) sl of
        Inl e \<Rightarrow> Inl e
      | Inr sl1 \<Rightarrow>
          (case remove_pairs ops now (additional_transient sl1) sl1 of
             Inl e \<Rightarrow> Inl e
           | Inr sl2 \<Rightarrow> Inr (sl2\<lparr>additional_transient := []\<rparr>)))"

fun transient_is_empty_loop :: "layer_name list \<Rightarrow> ('d, 't) scene_lists \<Rightarrow> py_error + bool" where
  "transient_is_empty_loop [] sl = Inr True"
| "transient_is_empty_loop (i # is) sl =
     (case map_of (layers sl) i of
        None \<Rightarrow> Inl KeyError
      | Some l \<Rightarrow> if l \<noteq> [] then Inr False else transient_is_empty_loop is sl)"

definition transient_is_empty :: "config \<Rightarrow> ('d, 't) scene_lists \<Rightarrow> py_error + bool" where
  "transient_is_empty cfg sl = transient_is_empty_loop (transient_layers cfg) sl"

subsection \<open>Times, layer at-lists and lookups\<close>

definition set_layer_at_list :: "layer_name \<Rightarrow> 't list \<Rightarrow> ('d, 't) scene_lists \<Rightarrow> ('d, 't) scene_lists" where
  "set_layer_at_list layer al sl = sl\<lparr>layer_at_list := (layer_at_list sl)(layer \<mapsto> (None, al))\<rparr>"

definition set_times :: "time \<Rightarrow> ('d, 't) scene_lists \<Rightarrow> ('d, 't) scene_lists" where
  "set_times t sl =
     sl\<lparr>layer_at_list := (\<lambda>l. map_option (\<lambda>(t0, xs). (Some (py_or t0 t), xs)) (layer_at_list sl l)),
        layers := map (\<lambda>(k, ll). (k, map (\<lambda>i. update_time i t) ll)) (layers sl)\<rparr>"

definition get_displayable_by_tag :: "layer_name \<Rightarrow> string \<Rightarrow> ('d, 't) scene_lists \<Rightarrow> py_error + 'd option" where
  "get_displayable_by_tag layer t sl =
     (case map_of (layers sl) layer of
        None \<Rightarrow> Inl (UnknownLayer layer)
      | Some l \<Rightarrow> Inr (map_option displayable (find (\<lambda>sle. tag sle = Some t) l)))"

definition get_displayable_by_name :: "layer_name \<Rightarrow> string list option \<Rightarrow> ('d, 't) scene_lists \<Rightarrow> py_error + 'd option" where
  "get_displayable_by_name layer nm sl =
     (case map_of (layers sl) layer of
        None \<Rightarrow> Inl (UnknownLayer layer)
      | Some l \<Rightarrow> Inr (map_option displayable (find (\<lambda>sle. name sle = nm) l)))"

definition get_all_displayables :: "('d, 't) scene_lists \<Rightarrow> 'd list" where
  "get_all_displayables sl = concat (map (\<lambda>(k, l). map displayable l) (layers sl))"

subsection \<open>Construction\<close>

text \<open>
  \<open>SceneLists.__init__(oldsl, shown)\<close>: every configured layer and top layer, empty or
  copied from \<open>oldsl\<close>; then, for a copy, the overlay layers are cut and the transient
  ones replaced.
\<close>

definition fresh_scene_lists :: "config \<Rightarrow> ('d, 't) scene_lists" where
  "fresh_scene_lists cfg =
     \<lparr>layers = fold (\<lambda>i ls. AList.update i [] ls) (config_layers cfg @ top_layers cfg) [],
      at_list = (\<lambda>l. if l \<in> set (config_layers cfg @ top_layers cfg) then Some Map.empty else None),
      layer_at_list = (\<lambda>l. if l \<in> set (config_layers cfg @ top_layers cfg) then Some (None, []) else None),
      additional_transient = [],
      shown_window = False\<rparr>"

fun copy_layers :: "('d, 't) scene_lists \<Rightarrow> layer_name list \<Rightarrow> ('d, 't) scene_lists \<Rightarrow>
    py_error + ('d, 't) scene_lists" where
  "copy_layers oldsl [] sl = Inr sl"
| "copy_layers oldsl (i # is) sl =
     (let sl1 = set_layer i (case map_of (layers oldsl) i of None \<Rightarrow> [] | Some l \<Rightarrow> l) sl
      in case at_list oldsl i of
           Some m \<Rightarrow>
             (case layer_at_list oldsl i of
                None \<Rightarrow> Inl KeyError
              | Some la \<Rightarrow> copy_layers oldsl is
                  (sl1\<lparr>at_list := (at_list sl1)(i \<mapsto> m), layer_at_list := (layer_at_list sl1)(i \<mapsto> la)\<rparr>))
         | None \<Rightarrow> copy_layers oldsl is
                  (sl1\<lparr>at_list := (at_list sl1)(i \<mapsto> Map.empty),
                       layer_at_list := (layer_at_list sl1)(i \<mapsto> (None, []))\<rparr>))"

definition init_scene_lists :: "('d, 'atl) disp_ops \<Rightarrow> config \<Rightarrow> time \<Rightarrow> ('d, 't) scene_lists option \<Rightarrow>
    py_error + ('d, 't) scene_lists" where
  "init_scene_lists ops cfg now oldsl =
     (case oldsl of
        None \<Rightarrow> Inr (fresh_scene_lists cfg)
      | Some old \<Rightarrow>
          (case copy_layers old (config_layers cfg @ top_layers cfg)
                  \<lparr>layers = [], at_list = Map.empty, layer_at_list = Map.empty,
                   additional_transient = [], shown_window = False\<rparr> of
             Inl e \<Rightarrow> Inl e
           | Inr sl0 \<Rightarrow>
               (case clear_layers ops now False (overlay_layers cfg) sl0 of
                  Inl e \<Rightarrow> Inl e
                | Inr sl1 \<Rightarrow> replace_transient ops cfg now sl1)))"

subsection \<open>Invariant and abstraction\<close>

text \<open>
  A tag is visible when it is not empty and has no \<open>"$"\<close>: the lifecycle tags
  \<open>"hide$t"\<close> and \<open>"replaced$t"\<close> never are. The invariant of a layer is that its
  entries are sorted by zorder and that each visible tag is carried by at most one entry;
  the abstraction of a layer is the map from visible tags to the displayable shown under
  them, which is what \<open>get_displayable_by_tag\<close> reads.
\<close>

definition visible_tag :: "string \<Rightarrow> bool" where
  "visible_tag t = (t \<noteq> [] \<and> CHR ''$'' \<notin> set t)"

definition tag_count :: "string \<Rightarrow> 'd scene_list_entry list \<Rightarrow> nat" where
  "tag_count t l = length (filter (\<lambda>e. tag e = Some t) l)"

definition unique_visible :: "'d scene_list_entry list \<Rightarrow> bool" where
  "unique_visible l = (\<forall>e \<in> set l. case tag e of None \<Rightarrow> True
                         | Some t \<Rightarrow> visible_tag t \<longrightarrow> tag_count t l = 1)"

definition layer_ok :: "'d scene_list_entry list \<Rightarrow> bool" where
  "layer_ok l = (sorted (map zorder l) \<and> unique_visible l)"

definition sl_inv :: "('d, 't) scene_lists \<Rightarrow> bool" where
  "sl_inv sl = (\<forall>p \<in> set (layers sl). layer_ok (snd p))"

definition visible_map :: "'d scene_list_entry list \<Rightarrow> string \<Rightarrow> 'd option" where
  "visible_map l t = (if visible_tag t then map_option displayable (find (\<lambda>e. tag e = Some t) l) else None)"

definition hide_result :: "('d, 'atl) disp_ops \<Rightarrow> time \<Rightarrow> 'd scene_list_entry \<Rightarrow> prefix \<Rightarrow> 'd option" where
  "hide_result ops now e pfx =
     hide_op ops (displayable e) (now - py_or (show_time e) now) (now - py_or (animation_time e) now) pfx"

text \<open>The lifecycle kind a tag carries, as \<open>remove_hidden\<close> reads it (\<open>"hide$"\<close> or \<open>"replaced$"\<close>).\<close>

definition lifecycle_kind :: "string option \<Rightarrow> string option" where
  "lifecycle_kind t =
     (case t of None \<Rightarrow> None
      | Some s \<Rightarrow> if s \<noteq> [] \<and> startswith s ''hide$'' then Some ''hide''
                else if s \<noteq> [] \<and> startswith s ''replaced$'' then Some ''replaced'' else None)"

subsection \<open>An example scene\<close>

text \<open>
  A configuration with a master, a transient and an overlay layer, and a scene where the
  master layer shows a background \<open>bg\<close> and a character \<open>eileen\<close> whose
  displayable has an exit animation (\<open>WithExit\<close>). The witnesses run the operations on it.
\<close>

definition demo_cfg :: config where
  "demo_cfg = \<lparr>config_layers = [''master'', ''transient''], top_layers = [''overlay''],
     transient_layers = [''transient''], overlay_layers = [''overlay''], keep_running_transform = True\<rparr>"

definition demo_entry :: "string \<Rightarrow> int \<Rightarrow> demo_disp \<Rightarrow> demo_disp scene_list_entry" where
  "demo_entry t z d = \<lparr>tag = Some t, zorder = z, show_time = Some 1, animation_time = Some 1,
     displayable = d, name = None\<rparr>"

definition demo_sl :: "(demo_disp, unit) scene_lists" where
  "demo_sl = \<lparr>layers = [(''master'', [demo_entry ''bg'' 0 (Plain ''room''), demo_entry ''eileen'' 0 (WithExit ''happy'')]),
                        (''transient'', []), (''overlay'', [])],
     at_list = (\<lambda>l. if l \<in> {''master'', ''transient'', ''overlay''} then Some Map.empty else None),
     layer_at_list = (\<lambda>l. if l \<in> {''master'', ''transient'', ''overlay''} then Some (None, []) else None),
     additional_transient = [], shown_window = False\<rparr>"

section \<open>Properties of the scene lists\<close>

subsection \<open>find_index, hide_or_replace and insertion\<close>

lemma find_index_loop_eq:
  "find_index_loop tg z bh i l a r =
     ((case a of Some x \<Rightarrow> x
       | None \<Rightarrow> (case first_index (add_here tg z bh) l of None \<Rightarrow> i + length l | Some j \<Rightarrow> i + j)),
      (case r of Some x \<Rightarrow> Some x | None \<Rightarrow> map_option ((+) i) (first_index (remove_here tg) l)))"
proof (induction l arbitrary: i a r)
  case Nil
  then show ?case by (simp split: option.split)
next
  case (Cons e l)
  have s: "(+) (Suc i) = (\<lambda>x. Suc (i + x))" by auto
  show ?case
    by (simp add: Cons.IH option.map_comp comp_def s split: option.split)
qed

lemma find_index_spec:
  "find_index l tg z bh =
     ((case first_index (add_here tg z bh) l of None \<Rightarrow> length l | Some j \<Rightarrow> j),
      first_index (remove_here tg) l)"
proof -
  have "(+) (0::nat) = id" by auto
  then show ?thesis
    by (simp add: find_index_def find_index_loop_eq option.map_id split: option.split)
qed

lemma tag_count_pos: "e \<in> set l \<Longrightarrow> tag e = Some t \<Longrightarrow> 0 < tag_count t l"
proof -
  assume "e \<in> set l" "tag e = Some t"
  then have "e \<in> set (filter (\<lambda>e. tag e = Some t) l)" by simp
  then show ?thesis unfolding tag_count_def by (metis length_pos_if_in_set)
qed

lemma unique_visible_iff:
  "unique_visible l \<longleftrightarrow> (\<forall>t. visible_tag t \<longrightarrow> tag_count t l \<le> 1)"
proof
  assume u: "unique_visible l"
  show "\<forall>t. visible_tag t \<longrightarrow> tag_count t l \<le> 1"
  proof (intro allI impI)
    fix t assume v: "visible_tag t"
    show "tag_count t l \<le> 1"
    proof (cases "\<exists>e \<in> set l. tag e = Some t")
      case True
      with u v show ?thesis by (auto simp: unique_visible_def)
    next
      case False
      then show ?thesis by (auto simp: tag_count_def filter_empty_conv)
    qed
  qed
next
  assume c: "\<forall>t. visible_tag t \<longrightarrow> tag_count t l \<le> 1"
  show "unique_visible l"
    unfolding unique_visible_def
  proof (intro ballI)
    fix e assume e: "e \<in> set l"
    show "case tag e of None \<Rightarrow> True | Some t \<Rightarrow> visible_tag t \<longrightarrow> tag_count t l = 1"
    proof (cases "tag e")
      case (Some t)
      with e c tag_count_pos [OF e Some] show ?thesis by fastforce
    qed simp
  qed
qed

lemma unique_visible_mono:
  "unique_visible l \<Longrightarrow> (\<And>t. visible_tag t \<Longrightarrow> tag_count t l' \<le> tag_count t l) \<Longrightarrow> unique_visible l'"
  by (meson le_trans unique_visible_iff)

lemma tag_count_pop_at_le: "tag_count t (pop_at i l) \<le> tag_count t l"
proof (cases "i < length l")
  case True
  then show ?thesis by (simp add: tag_count_def count_pop_at)
next
  case False
  then show ?thesis by (simp add: tag_count_def pop_at_def)
qed

lemma visible_tag_no_dollar: "visible_tag t \<Longrightarrow> t \<noteq> p @ CHR ''$'' # s"
  by (auto simp: visible_tag_def)

lemma hide_or_replace_Inr:
  assumes "hide_or_replace ops now l i pfx = Inr l'"
  shows "i < length l \<and> (l' = pop_at i l \<or>
       (\<exists>p e'. l' = l[i := e'] \<and> zorder e' = zorder (l ! i) \<and> (\<exists>s. tag e' = Some (p @ CHR ''$'' # s))))"
proof -
  have i: "i < length l"
    using assms by (auto simp: hide_or_replace_def split: if_splits)
  show ?thesis
  proof (cases "l' = pop_at i l")
    case False
    with assms i obtain p d where
      "l' = l[i := \<lparr>tag = Some (p @ CHR ''$'' # the (tag (l ! i))), zorder = zorder (l ! i),
               show_time = Some (py_or (show_time (l ! i)) now),
               animation_time = Some (py_or (animation_time (l ! i)) now), displayable = d, name = None\<rparr>]"
      by (auto simp: hide_or_replace_def Let_def split: if_splits option.splits prefix.splits)
    with i show ?thesis by fastforce
  qed (simp add: i)
qed

lemma hide_or_replace_sorted:
  "hide_or_replace ops now l i pfx = Inr l' \<Longrightarrow> sorted (map zorder l) \<Longrightarrow> sorted (map zorder l')"
  by (auto dest!: hide_or_replace_Inr intro: sorted_pop_at sorted_list_update_same)

lemma tag_count_hide_or_replace:
  assumes "hide_or_replace ops now l i pfx = Inr l'" and "visible_tag t"
  shows "tag_count t l' = tag_count t l - (if tag (l ! i) = Some t then 1 else 0)"
proof -
  from hide_or_replace_Inr [OF assms(1)] have i: "i < length l" by simp
  from hide_or_replace_Inr [OF assms(1)] consider "l' = pop_at i l"
    | p e' s where "l' = l[i := e']" "tag e' = Some (p @ CHR ''$'' # s)"
    by blast
  then show ?thesis
  proof cases
    case 1
    with i show ?thesis by (simp add: tag_count_def count_pop_at)
  next
    case (2 p e' s)
    then have "tag e' \<noteq> Some t" using visible_tag_no_dollar [OF assms(2), of p s] by auto
    with 2 i show ?thesis by (simp add: tag_count_def count_list_update)
  qed
qed

lemma hide_or_replace_layer_ok:
  "hide_or_replace ops now l i pfx = Inr l' \<Longrightarrow> layer_ok l \<Longrightarrow> layer_ok l'"
proof -
  assume h: "hide_or_replace ops now l i pfx = Inr l'" and ok: "layer_ok l"
  have "tag_count t l' \<le> tag_count t l" if "visible_tag t" for t
    using tag_count_hide_or_replace [OF h that] by simp
  with ok h show ?thesis
    unfolding layer_ok_def by (blast intro: hide_or_replace_sorted unique_visible_mono)
qed

lemma not_add_here_le: "\<not> add_here tg z bh e \<Longrightarrow> zorder e \<le> z"
  by (auto simp: add_here_def split: if_splits)

lemma add_here_ge: "add_here tg z bh e \<Longrightarrow> z \<le> zorder e"
  by (auto simp: add_here_def split: if_splits)

lemma find_index_add_index:
  assumes "find_index l tg z bh = (ai, r)"
  shows "ai \<le> length l" and "\<forall>y \<in> set (take ai l). zorder y \<le> z"
    and "sorted (map zorder l) \<Longrightarrow> \<forall>y \<in> set (drop ai l). z \<le> zorder y"
proof -
  have "ai \<le> length l \<and> (\<forall>y \<in> set (take ai l). zorder y \<le> z) \<and>
      (sorted (map zorder l) \<longrightarrow> (\<forall>y \<in> set (drop ai l). z \<le> zorder y))"
  proof (cases "first_index (add_here tg z bh) l")
    case None
    with assms show ?thesis
      by (auto simp: find_index_spec first_index_None_iff intro: not_add_here_le)
  next
    case (Some j)
    with assms have ai: "ai = j" by (simp add: find_index_spec)
    from Some have j: "j < length l" "add_here tg z bh (l ! j)" "\<forall>k < j. \<not> add_here tg z bh (l ! k)"
      by (simp_all add: first_index_Some_iff)
    have "\<forall>y \<in> set (take j l). zorder y \<le> z"
      using j(3) by (auto simp: in_set_conv_nth) (meson not_add_here_le)
    moreover have "\<forall>y \<in> set (drop j l). z \<le> zorder y" if s: "sorted (map zorder l)"
    proof
      fix y assume "y \<in> set (drop j l)"
      then obtain k where k: "j + k < length l" "y = l ! (j + k)"
        by (auto simp: in_set_conv_nth) (metis add.commute less_diff_conv)
      have "zorder (l ! j) \<le> zorder (l ! (j + k))"
        using sorted_nth_mono [OF s, of j "j + k"] k by simp
      with add_here_ge [OF j(2)] k show "z \<le> zorder y" by simp
    qed
    ultimately show ?thesis using ai j(1) by simp
  qed
  then show "ai \<le> length l" "\<forall>y \<in> set (take ai l). zorder y \<le> z"
    "sorted (map zorder l) \<Longrightarrow> \<forall>y \<in> set (drop ai l). z \<le> zorder y" by simp_all
qed

lemma find_index_remove_Some:
  "find_index l tg z bh = (ai, Some r) \<Longrightarrow> r < length l \<and> remove_here tg (l ! r)"
  by (simp add: find_index_spec first_index_Some_iff)

lemma find_index_remove_None:
  "find_index l tg z bh = (ai, None) \<Longrightarrow> e \<in> set l \<Longrightarrow> \<not> remove_here tg e"
  by (simp add: find_index_spec first_index_None_iff)

lemma nth_insert_at_shift:
  "ai \<le> length l \<Longrightarrow> r < length l \<Longrightarrow> insert_at ai x l ! (if ai \<le> r then Suc r else r) = l ! r"
  by (auto simp: insert_at_def nth_append min_def)

lemma remove_here_key_target:
  "remove_here (key_target key) e \<longleftrightarrow> truthy_str key \<and> tag e = key"
  by (auto simp: remove_here_def key_target_def split: option.splits)

lemma visible_tag_nonempty: "visible_tag t \<Longrightarrow> t \<noteq> []"
  by (simp add: visible_tag_def)

lemma tag_count_insert_at: "tag_count t (insert_at i e l) = tag_count t l + (if tag e = Some t then 1 else 0)"
  by (simp add: tag_count_def count_insert_at)

lemma tag_count_zero: "tag_count t l = 0 \<longleftrightarrow> (\<forall>e \<in> set l. tag e \<noteq> Some t)"
  by (simp add: tag_count_def filter_empty_conv)

lemma add_to_list_sorted:
  assumes "add_to_list ops cfg now thing key z behind al nm atl dt l = Inr l'"
    and "sorted (map zorder l)"
  shows "sorted (map zorder l')"
proof (cases "find_index l (key_target key) z behind")
  case (Pair ai r)
  note fi = find_index_add_index [OF Pair]
  have ins: "sorted (map zorder (insert_at ai e l))" if "zorder e = z" for e :: "'a scene_list_entry"
    using sorted_insert_at [OF assms(2)] fi assms(2) that by simp
  show ?thesis
  proof (cases r)
    case None
    with assms(1) Pair ins show ?thesis by (auto simp: add_to_list_def)
  next
    case (Some r)
    with assms(1) Pair ins show ?thesis
      by (auto simp: add_to_list_def intro: hide_or_replace_sorted)
  qed
qed

lemma add_to_list_tag_count:
  assumes "add_to_list ops cfg now thing key z behind al nm atl dt l = Inr l'" and v: "visible_tag t"
  shows "tag_count t l' = (if key = Some t \<and> tag_count t l = 0 then 1 else tag_count t l)"
proof (cases "find_index l (key_target key) z behind")
  case (Pair ai r)
  have ai: "ai \<le> length l" using find_index_add_index(1) [OF Pair] .
  show ?thesis
  proof (cases r)
    case None
    then obtain e where l': "l' = insert_at ai e l" and te: "tag e = key"
      using assms(1) Pair by (auto simp: add_to_list_def)
    have "tag_count t l = 0" if "key = Some t"
      using find_index_remove_None [OF Pair [unfolded None]] that visible_tag_nonempty [OF v]
      by (auto simp: tag_count_zero remove_here_key_target)
    then show ?thesis by (auto simp: l' te tag_count_insert_at)
  next
    case (Some r)
    from find_index_remove_Some [OF Pair [unfolded Some]]
    have r: "r < length l" and tr: "tag (l ! r) = key" and tk: "truthy_str key"
      by (simp_all add: remove_here_key_target)
    obtain e where h: "hide_or_replace ops now (insert_at ai e l) (if ai \<le> r then Suc r else r)
        (Prefix ''replaced'') = Inr l'" and te: "tag e = key"
      using assms(1) Pair Some by (auto simp: add_to_list_def)
    have "tag_count t l' = tag_count t (insert_at ai e l) - (if tag (l ! r) = Some t then 1 else 0)"
      using tag_count_hide_or_replace [OF h v] nth_insert_at_shift [OF ai r] by simp
    also have "\<dots> = tag_count t l" using te tr by (simp add: tag_count_insert_at)
    finally have c: "tag_count t l' = tag_count t l" .
    have "0 < tag_count t l" if "key = Some t"
      using tag_count_pos [of "l ! r" l t] r tr that by simp
    with c show ?thesis by auto
  qed
qed

lemma add_to_list_layer_ok:
  "add_to_list ops cfg now thing key z behind al nm atl dt l = Inr l' \<Longrightarrow> layer_ok l \<Longrightarrow> layer_ok l'"
  unfolding layer_ok_def unique_visible_iff
  by (auto intro: add_to_list_sorted dest: add_to_list_tag_count split: if_splits)

subsection \<open>Layers of the scene lists\<close>

lemma set_update_subset: "set (AList.update k v al) \<subseteq> insert (k, v) (set al)"
  by (induction al) auto

lemma sl_inv_set_layer: "sl_inv sl \<Longrightarrow> layer_ok l \<Longrightarrow> sl_inv (set_layer k l sl)"
  using set_update_subset [of k l "layers sl"] by (auto simp: sl_inv_def set_layer_def)

lemma sl_inv_layer: "sl_inv sl \<Longrightarrow> map_of (layers sl) k = Some l \<Longrightarrow> layer_ok l"
  unfolding sl_inv_def by (metis map_of_SomeD snd_conv)

lemma map_of_set_layer [simp]: "map_of (layers (set_layer k l sl)) k' = (if k' = k then Some l else map_of (layers sl) k')"
  by (simp add: set_layer_def update_conv')

lemma tag_count_filter_le: "tag_count t (filter P l) \<le> tag_count t l"
  by (induction l) (auto simp: tag_count_def)

lemma layer_ok_filter: "layer_ok l \<Longrightarrow> layer_ok (filter P l)"
  unfolding layer_ok_def
  by (auto intro: sorted_filter unique_visible_mono tag_count_filter_le)

lemma layer_ok_remove_hide_replaced: "layer_ok l \<Longrightarrow> layer_ok (remove_hide_replaced t l)"
  by (simp add: remove_hide_replaced_def layer_ok_filter)

lemma add_Inr:
  assumes "add ops cfg now layer thing key z behind al nm atl dt tr sl = Inr sl'"
  obtains l0 l' where "map_of (layers sl) layer = Some l0"
    and "add_to_list ops cfg now thing key z behind al nm atl dt
           (if truthy_str key then remove_hide_replaced (the key) l0 else l0) = Inr l'"
    and "layers sl' = AList.update layer l' (layers sl)"
  using assms
  by (auto simp: add_def set_layer_def split: if_splits option.splits sum.splits)

lemma tag_count_le1_unique:
  assumes "tag_count t l \<le> 1" "x \<in> set l" "y \<in> set l" "tag x = Some t" "tag y = Some t"
  shows "x = y"
proof (rule ccontr)
  assume "x \<noteq> y"
  with assms(2-5) have "{x, y} \<subseteq> set (filter (\<lambda>e. tag e = Some t) l)" by auto
  then have "card {x, y} \<le> card (set (filter (\<lambda>e. tag e = Some t) l))" by (simp add: card_mono)
  also have "\<dots> \<le> tag_count t l" unfolding tag_count_def by (rule card_length)
  finally show False using \<open>x \<noteq> y\<close> assms(1) by simp
qed

lemma hide_or_replace_Prefix:
  "i < length l \<Longrightarrow> truthy_str (tag (l ! i)) \<Longrightarrow>
   hide_or_replace ops now l i (Prefix p) =
     Inr (case hide_op ops (displayable (l ! i)) (now - py_or (show_time (l ! i)) now)
                 (now - py_or (animation_time (l ! i)) now) (Prefix p) of
            None \<Rightarrow> pop_at i l
          | Some d \<Rightarrow> l[i := \<lparr>tag = Some (p @ ''$'' @ the (tag (l ! i))), zorder = zorder (l ! i),
                               show_time = Some (py_or (show_time (l ! i)) now),
                               animation_time = Some (py_or (animation_time (l ! i)) now),
                               displayable = d, name = None\<rparr>])"
  by (simp add: hide_or_replace_def Let_def split: option.split)

lemma remove_hide_replaced_count:
  "tag_count (''replaced$'' @ t) (remove_hide_replaced t l) = 0"
  "tag_count (''hide$'' @ t) (remove_hide_replaced t l) = 0"
  by (auto simp: tag_count_def remove_hide_replaced_def filter_empty_conv)

lemma demo_sl_inv: "sl_inv demo_sl"
  by (simp add: sl_inv_def demo_sl_def demo_entry_def layer_ok_def unique_visible_def tag_count_def visible_tag_def)

lemmas demo_eval = add_def demo_sl_def demo_entry_def add_to_list_def find_index_def add_here_def remove_here_def
     key_target_def new_displayable_def transform_state_def hide_or_replace_def remove_hide_replaced_def insert_at_def set_layer_def
     sl_inv_def layer_ok_def unique_visible_def tag_count_def visible_tag_def pop_at_def demo_cfg_def

subsection \<open>add\<close>

text \<open>
  C1. Every layer stays sorted by zorder, and every visible tag stays on at most one entry,
  through any \<open>add\<close> that returns: the insertion index is before the first entry of a
  greater zorder (or a same-zorder entry of the same tag or one in \<open>behind\<close>), and the
  superseded entry is popped or renamed to a lifecycle tag in place.
\<close>

theorem add_preserves_sl_inv:
  assumes "sl_inv sl"
    and "add ops cfg now layer thing key z behind al nm atl dt tr sl = Inr sl'"
  shows "sl_inv sl'"
proof -
  obtain l0 l' where l0: "map_of (layers sl) layer = Some l0"
    and a: "add_to_list ops cfg now thing key z behind al nm atl dt
              (if truthy_str key then remove_hide_replaced (the key) l0 else l0) = Inr l'"
    and ls: "layers sl' = AList.update layer l' (layers sl)"
    using add_Inr [OF assms(2)] by blast
  have "layer_ok (if truthy_str key then remove_hide_replaced (the key) l0 else l0)"
    using sl_inv_layer [OF assms(1) l0] by (simp add: layer_ok_remove_hide_replaced)
  then have "layer_ok l'" by (rule add_to_list_layer_ok [OF a])
  with assms(1) have "sl_inv (set_layer layer l' sl)" by (rule sl_inv_set_layer)
  then show ?thesis using ls by (simp add: sl_inv_def set_layer_def)
qed

theorem add_preserves_sl_inv_witness:
  "sl_inv demo_sl \<and>
   (case add demo_ops demo_cfg 2 ''master'' (Plain ''sad'') (Some ''eileen'') 0 [] [] None None None False demo_sl of
      Inr sl' \<Rightarrow> sl_inv sl' | Inl _ \<Rightarrow> False)"
proof -
  have "\<exists>sl'. add demo_ops demo_cfg 2 ''master'' (Plain ''sad'') (Some ''eileen'') 0 [] [] None None None False demo_sl
      = Inr sl'"
    by (simp add: demo_eval)
  then obtain sl' where a: "add demo_ops demo_cfg 2 ''master'' (Plain ''sad'') (Some ''eileen'') 0 [] [] None None None
      False demo_sl = Inr sl'" by blast
  show ?thesis using add_preserves_sl_inv [OF demo_sl_inv a] demo_sl_inv a by simp
qed

text \<open>
  C2. Showing a tag that a layer already shows leaves exactly one entry with that tag (the
  new one), and exactly one \<open>"replaced$" + tag\<close> entry when the old displayable's
  \<open>_hide(..., "replaced")\<close> returns a successor, none when it returns \<open>None\<close>.
\<close>

theorem add_replaces_tag:
  assumes inv: "sl_inv sl" and v: "visible_tag k"
    and l0: "map_of (layers sl) layer = Some l0" and e: "e \<in> set l0" "tag e = Some k"
    and a: "add ops cfg now layer thing (Some k) z behind al nm atl dt tr sl = Inr sl'"
  shows "\<exists>l'. map_of (layers sl') layer = Some l' \<and> tag_count k l' = 1 \<and>
     tag_count (''replaced$'' @ k) l' =
       (if hide_op ops (displayable e) (now - py_or (show_time e) now) (now - py_or (animation_time e) now)
             (Prefix ''replaced'') = None then 0 else 1)"
proof -
  have tk: "truthy_str (Some k)" using visible_tag_nonempty [OF v] by simp
  obtain l' where a': "add_to_list ops cfg now thing (Some k) z behind al nm atl dt (remove_hide_replaced k l0) = Inr l'"
    and ls: "layers sl' = AList.update layer l' (layers sl)"
    using add_Inr [OF a] l0 tk by (metis option.inject option.sel)
  define l where "l = remove_hide_replaced k l0"
  have ok: "layer_ok l" unfolding l_def by (rule layer_ok_remove_hide_replaced [OF sl_inv_layer [OF inv l0]])
  have el: "e \<in> set l" using e by (simp add: l_def remove_hide_replaced_def)
  have c1: "tag_count k l \<le> 1" using ok v by (simp add: layer_ok_def unique_visible_iff)
  obtain ai r where fi: "find_index l (key_target (Some k)) z behind = (ai, r)" by fastforce
  have "r \<noteq> None"
  proof
    assume "r = None"
    with fi el have "\<not> remove_here (key_target (Some k)) e" using find_index_remove_None by metis
    with e(2) tk show False by (simp add: remove_here_key_target)
  qed
  then obtain r0 where r0: "r = Some r0" by blast
  from find_index_remove_Some [OF fi [unfolded r0]] tk
  have r0l: "r0 < length l" and tr: "tag (l ! r0) = Some k" by (simp_all add: remove_here_key_target)
  have er: "l ! r0 = e" using tag_count_le1_unique [OF c1 _ el tr e(2)] r0l by simp
  have ai: "ai \<le> length l" using find_index_add_index(1) [OF fi] .
  define new where "new = \<lparr>tag = Some k, zorder = z, show_time = None, animation_time = animation_time e,
      displayable = new_displayable ops cfg thing al atl dt (Some (displayable e)), name = nm\<rparr>"
  define r' where "r' = (if ai \<le> r0 then Suc r0 else r0)"
  have nth: "insert_at ai new l ! r' = e" using nth_insert_at_shift [OF ai r0l] er by (simp add: r'_def)
  have len: "r' < length (insert_at ai new l)" using ai r0l by (simp add: r'_def length_insert_at)
  have h: "hide_or_replace ops now (insert_at ai new l) r' (Prefix ''replaced'') = Inr l'"
    using a' fi r0 er by (simp add: add_to_list_def l_def new_def r'_def)
  have "tag_count k l' = 1"
    using add_to_list_tag_count [OF a' [folded l_def] v] c1 tag_count_pos [OF el e(2)] by simp
  moreover have "tag_count (''replaced$'' @ k) l' =
       (if hide_op ops (displayable e) (now - py_or (show_time e) now) (now - py_or (animation_time e) now)
             (Prefix ''replaced'') = None then 0 else 1)"
  proof -
    have "tag_count (''replaced$'' @ k) l = 0"
      unfolding l_def by (rule remove_hide_replaced_count(1))
    then have z: "tag_count (''replaced$'' @ k) (insert_at ai new l) = 0"
      by (simp add: tag_count_insert_at new_def)
    have tn: "truthy_str (tag (insert_at ai new l ! r'))" using nth e(2) tk by simp
    have h2: "Inr l' = (Inr (case hide_op ops (displayable e) (now - py_or (show_time e) now)
                 (now - py_or (animation_time e) now) (Prefix ''replaced'') of
            None \<Rightarrow> pop_at r' (insert_at ai new l)
          | Some d \<Rightarrow> (insert_at ai new l)[r' := \<lparr>tag = Some (''replaced'' @ ''$'' @ the (tag e)), zorder = zorder e,
                               show_time = Some (py_or (show_time e) now),
                               animation_time = Some (py_or (animation_time e) now),
                               displayable = d, name = None\<rparr>]) :: py_error + _)"
      using hide_or_replace_Prefix [OF len tn, of ops now "''replaced''", unfolded nth] h by simp
    show ?thesis
    proof (cases "hide_op ops (displayable e) (now - py_or (show_time e) now)
                 (now - py_or (animation_time e) now) (Prefix ''replaced'')")
      case None
      with h2 have "l' = pop_at r' (insert_at ai new l)" by simp
      with None z tag_count_pop_at_le [of "''replaced$'' @ k" r' "insert_at ai new l"] show ?thesis by simp
    next
      case (Some d)
      with h2 e(2) have "l' = (insert_at ai new l)[r' := \<lparr>tag = Some (''replaced$'' @ k), zorder = zorder e,
                               show_time = Some (py_or (show_time e) now),
                               animation_time = Some (py_or (animation_time e) now),
                               displayable = d, name = None\<rparr>]" by simp
      with Some z len nth e(2) show ?thesis by (simp add: tag_count_def count_list_update)
    qed
  qed
  ultimately show ?thesis using ls by (simp add: update_conv')
qed

theorem add_replaces_tag_witness:
  "\<exists>sl' l'. add demo_ops demo_cfg 2 ''master'' (Plain ''sad'') (Some ''eileen'') 0 [] [] None None None False demo_sl
       = Inr sl' \<and> map_of (layers sl') ''master'' = Some l' \<and>
     tag_count ''eileen'' l' = 1 \<and> tag_count ''replaced$eileen'' l' = 1"
proof -
  have "\<exists>sl'. add demo_ops demo_cfg 2 ''master'' (Plain ''sad'') (Some ''eileen'') 0 [] [] None None None False demo_sl
      = Inr sl'"
    by (simp add: demo_eval)
  then obtain sl' where a: "add demo_ops demo_cfg 2 ''master'' (Plain ''sad'') (Some ''eileen'') 0 [] [] None None None
      False demo_sl = Inr sl'" by blast
  have v: "visible_tag ''eileen''" by (simp add: visible_tag_def)
  have l0: "map_of (layers demo_sl) ''master'' = Some [demo_entry ''bg'' 0 (Plain ''room''), demo_entry ''eileen'' 0 (WithExit ''happy'')]"
    by (simp add: demo_sl_def)
  have e: "demo_entry ''eileen'' 0 (WithExit ''happy'') \<in> set [demo_entry ''bg'' 0 (Plain ''room''), demo_entry ''eileen'' 0 (WithExit ''happy'')]"
    "tag (demo_entry ''eileen'' 0 (WithExit ''happy'')) = Some ''eileen''"
    by (simp_all add: demo_entry_def)
  from add_replaces_tag [OF demo_sl_inv v l0 e a] a show ?thesis
    by (simp add: demo_entry_def)
qed

subsection \<open>clear and remove\<close>

lemma nth_pop_at_before: "j < i \<Longrightarrow> i < length l \<Longrightarrow> pop_at i l ! j = l ! j"
  by (simp add: pop_at_def nth_append)

lemma hide_or_replace_gone:
  "i < length l \<Longrightarrow> \<not> (truthy_str (tag (l ! i)) \<and> hide_result ops now (l ! i) pfx \<noteq> None) \<Longrightarrow>
   hide_or_replace ops now l i pfx = Inr (pop_at i l)"
  by (auto simp: hide_or_replace_def hide_result_def Let_def split: option.split)

lemma hide_or_replace_bool:
  "i < length l \<Longrightarrow> truthy_str (tag (l ! i)) \<Longrightarrow> hide_result ops now (l ! i) (BoolPrefix b) \<noteq> None \<Longrightarrow>
   hide_or_replace ops now l i (BoolPrefix b) = Inl TypeError"
  by (auto simp: hide_or_replace_def hide_result_def Let_def split: option.split)

lemma hide_rev_all_gone:
  "i \<le> length l \<Longrightarrow> (\<forall>j < i. \<not> (truthy_str (tag (l ! j)) \<and> hide_result ops now (l ! j) pfx \<noteq> None)) \<Longrightarrow>
   hide_rev ops now i l pfx = Inr (drop i l)"
proof (induction i arbitrary: l)
  case 0
  then show ?case by simp
next
  case (Suc i)
  have i: "i < length l" using Suc.prems(1) by simp
  have h: "hide_or_replace ops now l i pfx = Inr (pop_at i l)"
    using hide_or_replace_gone [OF i, where ops=ops and now=now and pfx=pfx] Suc.prems(2) by simp
  have "hide_rev ops now i (pop_at i l) pfx = Inr (drop i (pop_at i l))"
    using Suc.IH [of "pop_at i l"] i Suc.prems(2) by (simp add: length_pop_at nth_pop_at_before)
  then show ?case using h i by (simp add: pop_at_def)
qed

lemma hide_rev_type_error:
  "i \<le> length l \<Longrightarrow> j < i \<Longrightarrow> truthy_str (tag (l ! j)) \<Longrightarrow> hide_result ops now (l ! j) (BoolPrefix b) \<noteq> None \<Longrightarrow>
   hide_rev ops now i l (BoolPrefix b) = Inl TypeError"
proof (induction i arbitrary: l)
  case 0
  then show ?case by simp
next
  case (Suc i)
  have i: "i < length l" using Suc.prems(1) by simp
  show ?case
  proof (cases "truthy_str (tag (l ! i)) \<and> hide_result ops now (l ! i) (BoolPrefix b) \<noteq> None")
    case True
    then show ?thesis using hide_or_replace_bool [OF i, where ops=ops and now=now and b=b] by simp
  next
    case False
    then have h: "hide_or_replace ops now l i (BoolPrefix b) = Inr (pop_at i l)"
      using hide_or_replace_gone [OF i, where ops=ops and now=now and pfx="BoolPrefix b"] by blast
    have "j \<noteq> i" using False Suc.prems(3,4) by auto
    then have "j < i" using Suc.prems(2) by simp
    then have "hide_rev ops now i (pop_at i l) (BoolPrefix b) = Inl TypeError"
      using Suc.IH [of "pop_at i l"] i Suc.prems(3,4) by (simp add: length_pop_at nth_pop_at_before)
    then show ?thesis using h by simp
  qed
qed

text \<open>
  C3. \<open>remove\<close> of a tag the layer does not carry is not an error and changes nothing.
\<close>

theorem remove_absent_noop:
  assumes "map_of (layers sl) layer = Some l" and "\<forall>e \<in> set l. tag e \<noteq> Some t"
  shows "remove ops now layer (TagTarget t) sl = Inr sl"
proof -
  have "first_index (remove_here (TagTarget t)) l = None"
    using assms(2) by (auto simp: first_index_None_iff remove_here_def split: option.splits)
  then show ?thesis using assms(1) by (simp add: remove_def find_index_spec)
qed

text \<open>
  C4. \<open>clear(layer, hide=True)\<close> passes the boolean \<open>hide\<close> as the prefix of
  \<open>hide_or_replace\<close>: as soon as one tagged entry's \<open>_hide\<close> returns a successor, the
  code evaluates \<open>True + "$" + tag\<close> and raises \<open>TypeError\<close>, instead of keeping a
  \<open>"hide$"\<close> entry.
\<close>

theorem clear_hide_type_error:
  assumes "map_of (layers sl) layer = Some l" and "e \<in> set l" and "truthy_str (tag e)"
    and "hide_result ops now e (BoolPrefix True) \<noteq> None"
  shows "clear ops now layer True sl = Inl TypeError"
proof -
  obtain j where j: "j < length l" "l ! j = e" using assms(2) by (auto simp: in_set_conv_nth)
  have "hide_rev ops now (length l) l (BoolPrefix True) = Inl TypeError"
    using hide_rev_type_error [of "length l" l j] j assms(3,4) by simp
  then show ?thesis using assms(1) by (simp add: clear_def)
qed

text \<open>
  C5. \<open>clear(layer, hide=True)\<close> where no tagged entry's \<open>_hide\<close> returns a successor
  empties the layer, its tag at-lists and its layer at-list.
\<close>

theorem clear_hide_empties:
  assumes "map_of (layers sl) layer = Some l" and "at_list sl layer \<noteq> None"
    and "\<forall>e \<in> set l. \<not> (truthy_str (tag e) \<and> hide_result ops now e (BoolPrefix True) \<noteq> None)"
  shows "\<exists>sl'. clear ops now layer True sl = Inr sl' \<and> map_of (layers sl') layer = Some [] \<and>
     at_list sl' layer = Some Map.empty \<and> layer_at_list sl' layer = Some (None, [])"
proof -
  have "hide_rev ops now (length l) l (BoolPrefix True) = Inr []"
    using hide_rev_all_gone [of "length l" l] assms(3) by (simp add: all_set_conv_all_nth)
  then show ?thesis using assms(1,2)
    by (auto simp: clear_def set_layer_def update_conv')
qed

text \<open>
  \<open>clear(layer, hide=False)\<close> on a known layer always succeeds and leaves the layer,
  its tag at-lists and its layer at-list empty.
\<close>

theorem clear_cut_empties:
  assumes "at_list sl layer \<noteq> None"
  shows "\<exists>sl'. clear ops now layer False sl = Inr sl' \<and> map_of (layers sl') layer = Some [] \<and>
     at_list sl' layer = Some Map.empty \<and> layer_at_list sl' layer = Some (None, [])"
  using assms by (auto simp: clear_def set_layer_def update_conv')

theorem remove_absent_noop_witness:
  "remove demo_ops 2 ''master'' (TagTarget ''lucy'') demo_sl = Inr demo_sl"
proof -
  have l: "map_of (layers demo_sl) ''master'' = Some [demo_entry ''bg'' 0 (Plain ''room''), demo_entry ''eileen'' 0 (WithExit ''happy'')]"
    by (simp add: demo_sl_def)
  have "\<forall>e \<in> set [demo_entry ''bg'' 0 (Plain ''room''), demo_entry ''eileen'' 0 (WithExit ''happy'')]. tag e \<noteq> Some ''lucy''"
    by (simp add: demo_entry_def)
  with remove_absent_noop [OF l] show ?thesis by blast
qed

theorem clear_hide_type_error_witness:
  "clear demo_ops 2 ''master'' True demo_sl = Inl TypeError"
proof -
  have l: "map_of (layers demo_sl) ''master'' = Some [demo_entry ''bg'' 0 (Plain ''room''), demo_entry ''eileen'' 0 (WithExit ''happy'')]"
    by (simp add: demo_sl_def)
  have e: "demo_entry ''eileen'' 0 (WithExit ''happy'') \<in> set [demo_entry ''bg'' 0 (Plain ''room''), demo_entry ''eileen'' 0 (WithExit ''happy'')]"
    by simp
  have t: "truthy_str (tag (demo_entry ''eileen'' 0 (WithExit ''happy'')))" by (simp add: demo_entry_def)
  have h: "hide_result demo_ops 2 (demo_entry ''eileen'' 0 (WithExit ''happy'')) (BoolPrefix True) \<noteq> None"
    by (simp add: hide_result_def demo_entry_def)
  show ?thesis by (rule clear_hide_type_error [OF l e t h])
qed

theorem clear_hide_empties_witness:
  "\<exists>sl'. clear demo_ops 2 ''master'' True (set_layer ''master'' [demo_entry ''bg'' 0 (Plain ''room'')] demo_sl) = Inr sl' \<and>
     map_of (layers sl') ''master'' = Some [] \<and> at_list sl' ''master'' = Some Map.empty \<and>
     layer_at_list sl' ''master'' = Some (None, [])"
proof -
  have l: "map_of (layers (set_layer ''master'' [demo_entry ''bg'' 0 (Plain ''room'')] demo_sl)) ''master'' =
      Some [demo_entry ''bg'' 0 (Plain ''room'')]"
    by (simp add: set_layer_def update_conv')
  have a: "at_list (set_layer ''master'' [demo_entry ''bg'' 0 (Plain ''room'')] demo_sl) ''master'' \<noteq> None"
    by (simp add: set_layer_def demo_sl_def)
  have h: "\<forall>e \<in> set [demo_entry ''bg'' 0 (Plain ''room'')].
      \<not> (truthy_str (tag e) \<and> hide_result demo_ops 2 e (BoolPrefix True) \<noteq> None)"
    by (simp add: hide_result_def demo_entry_def)
  show ?thesis by (rule clear_hide_empties [OF l a h])
qed

theorem clear_cut_empties_witness:
  "\<exists>sl'. clear demo_ops 2 ''master'' False demo_sl = Inr sl' \<and> map_of (layers sl') ''master'' = Some [] \<and>
     at_list sl' ''master'' = Some Map.empty \<and> layer_at_list sl' ''master'' = Some (None, [])"
proof -
  have "at_list demo_sl ''master'' \<noteq> None" by (simp add: demo_sl_def)
  then show ?thesis by (rule clear_cut_empties)
qed

subsection \<open>Characterisation of find_index, tie order, refinement\<close>


lemma first_index_not_takeWhile:
  "first_index (\<lambda>x. \<not> Q x) l = (if \<forall>x \<in> set l. Q x then None else Some (length (takeWhile Q l)))"
  by (induction l) auto

lemma insert_at_takeWhile:
  "insert_at (length (takeWhile Q l)) x l = takeWhile Q l @ x # dropWhile Q l"
  unfolding insert_at_def by (metis takeWhile_eq_take dropWhile_eq_drop)

text \<open>
  C6. The single pass of \<open>find_index\<close> computes the least index whose entry passes the
  insertion test (the length of the layer when none does) and the least index whose entry
  passes the removal test (\<open>None\<close> when none does).
\<close>

theorem find_index_least:
  "find_index l tg z behind = (ai, r) \<longleftrightarrow>
     ai \<le> length l \<and> (ai < length l \<longrightarrow> add_here tg z behind (l ! ai)) \<and>
     (\<forall>j < ai. \<not> add_here tg z behind (l ! j)) \<and>
     (case r of None \<Rightarrow> \<forall>e \<in> set l. \<not> remove_here tg e
      | Some i \<Rightarrow> i < length l \<and> remove_here tg (l ! i) \<and> (\<forall>j < i. \<not> remove_here tg (l ! j)))"
proof -
  have a: "(case first_index (add_here tg z behind) l of None \<Rightarrow> length l | Some j \<Rightarrow> j) = ai \<longleftrightarrow>
      ai \<le> length l \<and> (ai < length l \<longrightarrow> add_here tg z behind (l ! ai)) \<and> (\<forall>j < ai. \<not> add_here tg z behind (l ! j))"
  proof (cases "first_index (add_here tg z behind) l")
    case None
    then have "\<forall>j < length l. \<not> add_here tg z behind (l ! j)"
      by (auto simp: first_index_None_iff)
    with None show ?thesis by (auto simp: not_less_iff_gr_or_eq)
  next
    case (Some j)
    then have j: "j < length l" "add_here tg z behind (l ! j)" "\<forall>k < j. \<not> add_here tg z behind (l ! k)"
      by (simp_all add: first_index_Some_iff)
    show ?thesis
    proof
      assume "(case first_index (add_here tg z behind) l of None \<Rightarrow> length l | Some j \<Rightarrow> j) = ai"
      with Some j show "ai \<le> length l \<and> (ai < length l \<longrightarrow> add_here tg z behind (l ! ai)) \<and> (\<forall>j < ai. \<not> add_here tg z behind (l ! j))"
        by auto
    next
      assume r: "ai \<le> length l \<and> (ai < length l \<longrightarrow> add_here tg z behind (l ! ai)) \<and> (\<forall>j < ai. \<not> add_here tg z behind (l ! j))"
      have "ai = j"
      proof (rule ccontr)
        assume "ai \<noteq> j"
        then consider "ai < j" | "j < ai" by linarith
        then show False
          using j r by cases (auto dest: order.strict_trans)
      qed
      with Some show "(case first_index (add_here tg z behind) l of None \<Rightarrow> length l | Some j \<Rightarrow> j) = ai" by simp
    qed
  qed
  have b: "first_index (remove_here tg) l = r \<longleftrightarrow>
      (case r of None \<Rightarrow> \<forall>e \<in> set l. \<not> remove_here tg e
       | Some i \<Rightarrow> i < length l \<and> remove_here tg (l ! i) \<and> (\<forall>j < i. \<not> remove_here tg (l ! j)))"
    by (cases r) (simp_all add: first_index_None_iff first_index_Some_iff)
  show ?thesis using a b by (simp add: find_index_spec)
qed

text \<open>
  Ties keep insertion order: when no entry carries the new key and \<open>behind\<close> is
  empty, the new entry goes right after every entry whose zorder is at most its own.
\<close>

theorem add_to_list_after_ties:
  assumes "\<forall>e \<in> set l. \<not> remove_here (key_target key) e"
  shows "add_to_list ops cfg now thing key z [] al nm atl dt l =
     Inr (takeWhile (\<lambda>e. zorder e \<le> z) l @
          \<lparr>tag = key, zorder = z, show_time = None, animation_time = None,
           displayable = new_displayable ops cfg thing al atl dt None, name = nm\<rparr> #
          dropWhile (\<lambda>e. zorder e \<le> z) l)"
proof -
  have ah: "add_here (key_target key) z [] e = (\<not> zorder e \<le> z)" if "e \<in> set l" for e
    using assms that by (auto simp: add_here_def remove_here_def split: option.splits)
  have "first_index (add_here (key_target key) z []) l = first_index (\<lambda>e. \<not> zorder e \<le> z) l"
    using ah by (induction l) auto
  then have "find_index l (key_target key) z [] = (length (takeWhile (\<lambda>e. zorder e \<le> z) l), None)"
    using assms by (auto simp: find_index_spec first_index_not_takeWhile takeWhile_eq_all_conv[THEN iffD2]
        first_index_None_iff)
  then show ?thesis
    by (simp add: add_to_list_def insert_at_takeWhile)
qed

lemma find_filter: "find P l = (case filter P l of [] \<Rightarrow> None | x # _ \<Rightarrow> Some x)"
  by (induction l) auto

lemma filter_pop_at_other: "\<not> P (l ! i) \<Longrightarrow> i < length l \<Longrightarrow> filter P (pop_at i l) = filter P l"
  by (subst (2) id_take_nth_drop [of i l]) (simp_all add: pop_at_def)

lemma filter_update_other:
  "\<not> P (l ! i) \<Longrightarrow> \<not> P x \<Longrightarrow> i < length l \<Longrightarrow> filter P (l[i := x]) = filter P l"
  by (simp add: upd_conv_take_nth_drop, subst (3) id_take_nth_drop [of i l]) simp_all

lemma find_hide_or_replace_other:
  assumes "hide_or_replace ops now l i pfx = Inr l'" "visible_tag t" "tag (l ! i) \<noteq> Some t"
  shows "find (\<lambda>e. tag e = Some t) l' = find (\<lambda>e. tag e = Some t) l"
proof -
  from hide_or_replace_Inr [OF assms(1)] have i: "i < length l" by simp
  from hide_or_replace_Inr [OF assms(1)] consider "l' = pop_at i l"
    | p e' s where "l' = l[i := e']" "tag e' = Some (p @ CHR ''$'' # s)"
    by blast
  then show ?thesis
  proof cases
    case 1
    then show ?thesis using assms(3) i by (simp add: find_filter filter_pop_at_other)
  next
    case (2 p e' s)
    then have "tag e' \<noteq> Some t" using visible_tag_no_dollar [OF assms(2), of p s] by auto
    with 2 assms(3) i show ?thesis by (simp add: find_filter filter_update_other)
  qed
qed

lemma hide_or_replace_keeps_other:
  assumes "hide_or_replace ops now l j pfx = Inr l'" "i < length l" "i \<noteq> j"
  shows "l ! i \<in> set l'"
proof -
  from hide_or_replace_Inr [OF assms(1)] have j: "j < length l" by simp
  from hide_or_replace_Inr [OF assms(1)] consider "l' = pop_at j l" | e' where "l' = l[j := e']"
    by blast
  then show ?thesis
  proof cases
    case 1
    show ?thesis
    proof (cases "i < j")
      case True
      then have "pop_at j l ! i = l ! i" using j by (simp add: pop_at_def nth_append)
      moreover have "i < length (pop_at j l)" using True j by (simp add: length_pop_at)
      ultimately show ?thesis using 1 by (metis nth_mem)
    next
      case False
      with assms(3) have ji: "j < i" by simp
      then have "pop_at j l ! (i - 1) = l ! i" using assms(2) by (simp add: pop_at_def nth_append)
      moreover have "i - 1 < length (pop_at j l)" using ji assms(2) by (simp add: length_pop_at)
      ultimately show ?thesis using 1 by (metis nth_mem)
    qed
  next
    case (2 e')
    then have "l' ! i = l ! i" using assms(3) by simp
    then show ?thesis using 2 assms(2) by (metis length_list_update nth_mem)
  qed
qed

lemma find_unique: "tag_count t l = 1 \<Longrightarrow> x \<in> set l \<Longrightarrow> tag x = Some t \<Longrightarrow> find (\<lambda>e. tag e = Some t) l = Some x"
proof -
  assume c: "tag_count t l = 1" and x: "x \<in> set l" "tag x = Some t"
  then obtain y where "filter (\<lambda>e. tag e = Some t) l = [y]"
    by (auto simp: tag_count_def length_Suc_conv)
  moreover have "x \<in> set (filter (\<lambda>e. tag e = Some t) l)" using x by simp
  ultimately show ?thesis by (simp add: find_filter)
qed

theorem add_to_list_refines:
  assumes ok: "layer_ok l" and v: "visible_tag k"
    and a: "add_to_list ops cfg now thing (Some k) z behind al nm atl dt l = Inr l'"
  shows "visible_map l' = (visible_map l)(k \<mapsto> new_displayable ops cfg thing al atl dt (visible_map l k))"
proof
  fix t
  have tk: "truthy_str (Some k)" using visible_tag_nonempty [OF v] by simp
  obtain ai r where fi: "find_index l (key_target (Some k)) z behind = (ai, r)" by fastforce
  have ai: "ai \<le> length l" using find_index_add_index(1) [OF fi] .
  define old where "old = (case r of None \<Rightarrow> None | Some r \<Rightarrow> Some (l ! r))"
  define new where "new = \<lparr>tag = Some k, zorder = z, show_time = None,
      animation_time = (case old of None \<Rightarrow> None | Some e \<Rightarrow> animation_time e),
      displayable = new_displayable ops cfg thing al atl dt (map_option displayable old), name = nm\<rparr>"
  have c1: "tag_count k l \<le> 1" using ok v by (simp add: layer_ok_def unique_visible_iff)
  have oldk: "map_option displayable old = visible_map l k"
  proof (cases r)
    case None
    then have "\<forall>e \<in> set l. tag e \<noteq> Some k"
      using find_index_remove_None [OF fi [unfolded None]] tk by (auto simp: remove_here_key_target)
    then show ?thesis using None v by (simp add: old_def visible_map_def find_None_iff)
  next
    case (Some r0)
    from find_index_remove_Some [OF fi [unfolded Some]] tk
    have "r0 < length l" "tag (l ! r0) = Some k" by (simp_all add: remove_here_key_target)
    moreover from this have "tag_count k l = 1" using c1 tag_count_pos [of "l ! r0" l k] by simp
    ultimately show ?thesis using Some v find_unique [of k l "l ! r0"] by (simp add: old_def visible_map_def)
  qed
  have step: "new \<in> set l' \<and>
      (\<forall>t. visible_tag t \<longrightarrow> t \<noteq> k \<longrightarrow> find (\<lambda>e. tag e = Some t) l' = find (\<lambda>e. tag e = Some t) l)"
  proof (cases r)
    case None
    with a fi have l': "l' = insert_at ai new l" by (simp add: add_to_list_def new_def old_def)
    have "find (\<lambda>e. tag e = Some t) (insert_at ai new l) = find (\<lambda>e. tag e = Some t) l" if "t \<noteq> k" for t
      using that by (simp add: find_filter filter_insert_at new_def)
    then show ?thesis using l' by (auto simp: set_insert_at)
  next
    case (Some r0)
    from find_index_remove_Some [OF fi [unfolded Some]] tk
    have r0: "r0 < length l" and tr: "tag (l ! r0) = Some k" by (simp_all add: remove_here_key_target)
    define r' where "r' = (if ai \<le> r0 then Suc r0 else r0)"
    have h: "hide_or_replace ops now (insert_at ai new l) r' (Prefix ''replaced'') = Inr l'"
      using a fi Some by (simp add: add_to_list_def new_def old_def r'_def)
    have nth: "insert_at ai new l ! r' = l ! r0" using nth_insert_at_shift [OF ai r0] by (simp add: r'_def)
    have newat: "insert_at ai new l ! ai = new" using ai by (simp add: insert_at_def nth_append)
    have "r' \<noteq> ai" by (simp add: r'_def)
    then have "new \<in> set l'"
      using hide_or_replace_keeps_other [OF h, of ai] ai newat by (simp add: length_insert_at)
    moreover have "find (\<lambda>e. tag e = Some t) l' = find (\<lambda>e. tag e = Some t) l"
      if "visible_tag t" "t \<noteq> k" for t
      using find_hide_or_replace_other [OF h that(1)] nth tr that(2)
      by (simp add: find_filter filter_insert_at new_def)
    ultimately show ?thesis by blast
  qed
  show "visible_map l' t = ((visible_map l)(k \<mapsto> new_displayable ops cfg thing al atl dt (visible_map l k))) t"
  proof (cases "t = k")
    case True
    have "tag_count k l' = 1"
      using add_to_list_tag_count [OF a v] c1 by auto
    then have "find (\<lambda>e. tag e = Some k) l' = Some new"
      using step find_unique [of k l' new] by (simp add: new_def)
    then show ?thesis using True v oldk by (simp add: visible_map_def new_def)
  next
    case False
    then show ?thesis using step by (simp add: visible_map_def)
  qed
qed

lemma find_filter_weaker: "(\<forall>x \<in> set l. P x \<longrightarrow> Q x) \<Longrightarrow> find P (filter Q l) = find P l"
  by (induction l) auto

lemma visible_map_remove_hide_replaced: "visible_map (remove_hide_replaced k l) = visible_map l"
proof
  fix t
  show "visible_map (remove_hide_replaced k l) t = visible_map l t"
  proof (cases "visible_tag t")
    case True
    have "find (\<lambda>e. tag e = Some t) (remove_hide_replaced k l) = find (\<lambda>e. tag e = Some t) l"
      unfolding remove_hide_replaced_def
      by (rule find_filter_weaker) (use True in \<open>auto simp: visible_tag_def\<close>)
    then show ?thesis by (simp add: visible_map_def)
  qed (simp add: visible_map_def)
qed

text \<open>
  C7. Refinement of \<open>add\<close>: on the map from visible tags to displayables, adding under a
  visible tag \<open>k\<close> is the map update at \<open>k\<close> with the displayable \<open>add\<close> builds
  from the one previously shown under \<open>k\<close>; every other visible tag is unchanged.
\<close>

theorem add_refines_visible_map:
  assumes inv: "sl_inv sl" and v: "visible_tag k" and l0: "map_of (layers sl) layer = Some l0"
    and a: "add ops cfg now layer thing (Some k) z behind al nm atl dt tr sl = Inr sl'"
  shows "\<exists>l'. map_of (layers sl') layer = Some l' \<and>
     visible_map l' = (visible_map l0)(k \<mapsto> new_displayable ops cfg thing al atl dt (visible_map l0 k))"
proof -
  have tk: "truthy_str (Some k)" using visible_tag_nonempty [OF v] by simp
  obtain l' where a': "add_to_list ops cfg now thing (Some k) z behind al nm atl dt (remove_hide_replaced k l0) = Inr l'"
    and ls: "layers sl' = AList.update layer l' (layers sl)"
    using add_Inr [OF a] l0 tk by (metis option.inject option.sel)
  have ok: "layer_ok (remove_hide_replaced k l0)"
    by (rule layer_ok_remove_hide_replaced [OF sl_inv_layer [OF inv l0]])
  show ?thesis
    using add_to_list_refines [OF ok v a'] ls by (simp add: update_conv' visible_map_remove_hide_replaced)
qed

text \<open>
  C8. Refinement of \<open>remove\<close>: removing a visible tag deletes it from the map from
  visible tags to displayables and leaves every other visible tag unchanged.
\<close>

theorem remove_refines_visible_map:
  assumes inv: "sl_inv sl" and v: "visible_tag k" and l: "map_of (layers sl) layer = Some l"
    and r: "remove ops now layer (TagTarget k) sl = Inr sl'"
  shows "\<exists>l'. map_of (layers sl') layer = Some l' \<and> visible_map l' = (visible_map l)(k := None)"
proof (cases "first_index (remove_here (TagTarget k)) l")
  case None
  then have sl': "sl' = sl" using r l by (simp add: remove_def find_index_spec)
  have "\<forall>e \<in> set l. tag e \<noteq> Some k"
    using None visible_tag_nonempty [OF v] by (auto simp: first_index_None_iff remove_here_def)
  then have "visible_map l k = None" by (simp add: visible_map_def find_None_iff)
  then show ?thesis using sl' l by (auto simp: fun_upd_idem)
next
  case (Some i)
  then have i: "i < length l" "remove_here (TagTarget k) (l ! i)" by (simp_all add: first_index_Some_iff)
  then have ti: "tag (l ! i) = Some k" by (auto simp: remove_here_def split: option.splits)
  obtain l' where h: "hide_or_replace ops now l i (Prefix ''hide'') = Inr l'"
    and ls: "map_of (layers sl') layer = Some l'"
    using r l Some ti visible_tag_nonempty [OF v]
    by (auto simp: remove_def find_index_spec set_layer_def update_conv' split: if_splits option.splits sum.splits)
  have c1: "tag_count k l \<le> 1" using sl_inv_layer [OF inv l] v by (simp add: layer_ok_def unique_visible_iff)
  have "tag_count k l' = 0"
    using tag_count_hide_or_replace [OF h v] ti c1 by simp
  then have "find (\<lambda>e. tag e = Some k) l' = None" by (simp add: find_None_iff tag_count_zero)
  moreover have "find (\<lambda>e. tag e = Some t) l' = find (\<lambda>e. tag e = Some t) l" if "visible_tag t" "t \<noteq> k" for t
    using find_hide_or_replace_other [OF h that(1)] ti that(2) by simp
  ultimately have "visible_map l' = (visible_map l)(k := None)"
    by (auto simp: visible_map_def)
  then show ?thesis using ls by blast
qed


theorem find_index_least_witness:
  "find_index [demo_entry ''bg'' 0 (Plain ''room''), demo_entry ''eileen'' 0 (WithExit ''happy'')]
     (TagTarget ''eileen'') 0 [] = (1, Some 1)"
  by (rule find_index_least [THEN iffD2]) (simp add: demo_entry_def add_here_def remove_here_def)

theorem add_to_list_after_ties_witness:
  "add_to_list demo_ops demo_cfg 2 (Plain ''lucy'') (Some ''lucy'') 0 [] [] None None None
     [demo_entry ''bg'' 0 (Plain ''room''), demo_entry ''eileen'' 0 (WithExit ''happy''), demo_entry ''fg'' 1 (Plain ''rain'')] =
   Inr [demo_entry ''bg'' 0 (Plain ''room''), demo_entry ''eileen'' 0 (WithExit ''happy''),
        \<lparr>tag = Some ''lucy'', zorder = 0, show_time = None, animation_time = None, displayable = Plain ''lucy'', name = None\<rparr>,
        demo_entry ''fg'' 1 (Plain ''rain'')]"
proof -
  have "\<forall>e \<in> set [demo_entry ''bg'' 0 (Plain ''room''), demo_entry ''eileen'' 0 (WithExit ''happy''), demo_entry ''fg'' 1 (Plain ''rain'')].
      \<not> remove_here (key_target (Some ''lucy'')) e"
    by (simp add: demo_entry_def remove_here_def key_target_def)
  from add_to_list_after_ties [OF this, of demo_ops demo_cfg 2 "Plain ''lucy''" 0 "[]" None None None]
  show ?thesis by (simp add: demo_entry_def new_displayable_def transform_state_def)
qed

theorem add_refines_visible_map_witness:
  "\<exists>sl' l'. add demo_ops demo_cfg 2 ''master'' (Plain ''sad'') (Some ''eileen'') 0 [] [] None None None False demo_sl
       = Inr sl' \<and> map_of (layers sl') ''master'' = Some l' \<and>
     visible_map l' ''eileen'' = Some (Plain ''sad'') \<and> visible_map l' ''bg'' = Some (Plain ''room'')"
proof -
  have "\<exists>sl'. add demo_ops demo_cfg 2 ''master'' (Plain ''sad'') (Some ''eileen'') 0 [] [] None None None False demo_sl
      = Inr sl'"
    by (simp add: demo_eval)
  then obtain sl' where a: "add demo_ops demo_cfg 2 ''master'' (Plain ''sad'') (Some ''eileen'') 0 [] [] None None None
      False demo_sl = Inr sl'" by blast
  have v: "visible_tag ''eileen''" by (simp add: visible_tag_def)
  have l0: "map_of (layers demo_sl) ''master'' = Some [demo_entry ''bg'' 0 (Plain ''room''), demo_entry ''eileen'' 0 (WithExit ''happy'')]"
    by (simp add: demo_sl_def)
  from add_refines_visible_map [OF demo_sl_inv v l0 a] obtain l' where
    l': "map_of (layers sl') ''master'' = Some l'"
    and m: "visible_map l' = (visible_map [demo_entry ''bg'' 0 (Plain ''room''), demo_entry ''eileen'' 0 (WithExit ''happy'')])
       (''eileen'' \<mapsto> new_displayable demo_ops demo_cfg (Plain ''sad'') ([] :: unit list) None None
          (visible_map [demo_entry ''bg'' 0 (Plain ''room''), demo_entry ''eileen'' 0 (WithExit ''happy'')] ''eileen''))"
    by blast
  have "visible_map l' ''eileen'' = Some (Plain ''sad'')"
    by (simp add: m new_displayable_def transform_state_def visible_map_def visible_tag_def demo_entry_def)
  moreover have "visible_map l' ''bg'' = Some (Plain ''room'')"
    by (simp add: m visible_map_def visible_tag_def demo_entry_def)
  ultimately show ?thesis using a l' by blast
qed

theorem remove_refines_visible_map_witness:
  "\<exists>sl' l'. remove demo_ops 2 ''master'' (TagTarget ''eileen'') demo_sl = Inr sl' \<and>
     map_of (layers sl') ''master'' = Some l' \<and>
     visible_map l' ''eileen'' = None \<and> visible_map l' ''bg'' = Some (Plain ''room'')"
proof -
  have "\<exists>sl'. remove demo_ops 2 ''master'' (TagTarget ''eileen'') demo_sl = Inr sl'"
    by (simp add: remove_def demo_sl_def demo_entry_def find_index_def remove_here_def add_here_def
        hide_or_replace_def)
  then obtain sl' where r: "remove demo_ops 2 ''master'' (TagTarget ''eileen'') demo_sl = Inr sl'" by blast
  have v: "visible_tag ''eileen''" by (simp add: visible_tag_def)
  have l0: "map_of (layers demo_sl) ''master'' = Some [demo_entry ''bg'' 0 (Plain ''room''), demo_entry ''eileen'' 0 (WithExit ''happy'')]"
    by (simp add: demo_sl_def)
  from remove_refines_visible_map [OF demo_sl_inv v l0 r] obtain l' where
    l': "map_of (layers sl') ''master'' = Some l'"
    and m: "visible_map l' = (visible_map [demo_entry ''bg'' 0 (Plain ''room''), demo_entry ''eileen'' 0 (WithExit ''happy'')])(''eileen'' := None)"
    by blast
  have "visible_map l' ''eileen'' = None" by (simp add: m)
  moreover have "visible_map l' ''bg'' = Some (Plain ''room'')"
    by (simp add: m visible_map_def visible_tag_def demo_entry_def)
  ultimately show ?thesis using r l' by blast
qed

lemma sweep_decision:
  "(case tag e of
      Some t \<Rightarrow>
        if t \<noteq> [] \<and> startswith t ''hide$'' then rehide ops now e ''hide''
        else if t \<noteq> [] \<and> startswith t ''replaced$'' then rehide ops now e ''replaced''
        else Inr True
    | None \<Rightarrow> Inr True) =
   (case lifecycle_kind (tag e) of None \<Rightarrow> Inr True | Some k \<Rightarrow> rehide ops now e k)"
  by (simp add: lifecycle_kind_def split: option.split)

lemma lifecycle_kind_not_visible: "lifecycle_kind (Some t) \<noteq> None \<Longrightarrow> \<not> visible_tag t"
  by (auto simp: lifecycle_kind_def visible_tag_def startswith_def split: if_splits
      dest!: arg_cong [where f = set] intro: set_take_subset [THEN subsetD])

lemma sweep_hidden_Inr:
  "sweep_hidden ops now l = Inr l' \<Longrightarrow>
     l' = filter (\<lambda>e. \<forall>k. lifecycle_kind (tag e) = Some k \<longrightarrow> rehide ops now e k = Inr True) l \<and>
     (\<forall>e \<in> set l. \<forall>k. lifecycle_kind (tag e) = Some k \<longrightarrow> rehide ops now e k \<noteq> Inl TypeError)"
proof (induction l arbitrary: l')
  case Nil
  then show ?case by simp
next
  case (Cons e l)
  define D where "D = (case lifecycle_kind (tag e) of None \<Rightarrow> Inr True | Some k \<Rightarrow> rehide ops now e k)"
  have eq: "sweep_hidden ops now (e # l) =
      (case D of Inl x \<Rightarrow> Inl x
       | Inr keep \<Rightarrow> (case sweep_hidden ops now l of Inl x \<Rightarrow> Inl x
                     | Inr rest' \<Rightarrow> Inr (if keep then e # rest' else rest')))"
    unfolding D_def by (simp only: sweep_hidden.simps sweep_decision)
  obtain b r where db: "D = Inr b" and r: "sweep_hidden ops now l = Inr r" and l': "l' = (if b then e # r else r)"
    using Cons.prems unfolding eq by (auto split: sum.splits)
  have ke: "(\<forall>k. lifecycle_kind (tag e) = Some k \<longrightarrow> rehide ops now e k = Inr True) = b"
    and ne: "\<forall>k. lifecycle_kind (tag e) = Some k \<longrightarrow> rehide ops now e k \<noteq> Inl TypeError"
    using db by (auto simp: D_def split: option.splits)
  show ?case using Cons.IH [OF r] l' ke ne by auto
qed

lemma remove_hidden_layers_Inr:
  "remove_hidden_layers ops now ls = Inr ls' \<Longrightarrow>
     list_all2 (\<lambda>p p'. fst p' = fst p \<and> sweep_hidden ops now (snd p) = Inr (snd p')) ls ls'"
proof (induction ls arbitrary: ls')
  case Nil
  then show ?case by simp
next
  case (Cons p ls)
  then show ?case by (cases p) (auto split: sum.splits)
qed

lemma map_of_list_all2:
  "list_all2 (\<lambda>p p'. fst p' = fst p \<and> sweep_hidden ops now (snd p) = Inr (snd p')) ls ls' \<Longrightarrow>
     map_of ls k = Some l \<Longrightarrow> \<exists>l'. map_of ls' k = Some l' \<and> sweep_hidden ops now l = Inr l'"
  by (induction ls ls' rule: list_all2_induct) (auto split: if_splits)

lemma map_fst_list_all2:
  "list_all2 (\<lambda>p p'. fst p' = fst p \<and> sweep_hidden ops now (snd p) = Inr (snd p')) ls ls' \<Longrightarrow> map fst ls' = map fst ls"
  by (induction ls ls' rule: list_all2_induct) auto

lemma set_list_all2:
  "list_all2 (\<lambda>p p'. fst p' = fst p \<and> sweep_hidden ops now (snd p) = Inr (snd p')) ls ls' \<Longrightarrow> p' \<in> set ls' \<Longrightarrow>
     \<exists>p \<in> set ls. sweep_hidden ops now (snd p) = Inr (snd p')"
  by (induction ls ls' rule: list_all2_induct) auto

text \<open>
  \<open>remove_hidden\<close> drops from each layer exactly the \<open>"hide$"\<close> and
  \<open>"replaced$"\<close> entries whose displayable, asked to hide again, returns no successor
  (its exit animation has finished), and keeps every other entry in its order.
\<close>

theorem remove_hidden_drops_finished:
  assumes rh: "remove_hidden ops now sl = Inr sl'" and m0: "map_of (layers sl) k = Some l"
  shows "map_of (layers sl') k =
     Some (filter (\<lambda>e. \<forall>kind. lifecycle_kind (tag e) = Some kind \<longrightarrow> rehide ops now e kind = Inr True) l)"
proof -
  obtain ls' where r: "remove_hidden_layers ops now (layers sl) = Inr ls'" and ls: "layers sl' = ls'"
    using rh by (auto simp: remove_hidden_def split: sum.splits)
  obtain l' where m: "map_of ls' k = Some l'" and sw: "sweep_hidden ops now l = Inr l'"
    using map_of_list_all2 [OF remove_hidden_layers_Inr [OF r] m0] by blast
  show ?thesis using sweep_hidden_Inr [OF sw] m ls by simp
qed

text \<open>
  C9. \<open>remove_hidden\<close> keeps the scene-list invariant and the layer names, and never
  changes what a layer shows under a visible tag: on every layer the visible map is unchanged.
\<close>

theorem remove_hidden_keeps_visible:
  assumes inv: "sl_inv sl" and r: "remove_hidden ops now sl = Inr sl'"
  shows "sl_inv sl' \<and> map fst (layers sl') = map fst (layers sl) \<and>
     (\<forall>k l. map_of (layers sl) k = Some l \<longrightarrow>
        (\<exists>l'. map_of (layers sl') k = Some l' \<and> visible_map l' = visible_map l))"
proof -
  obtain ls' where r': "remove_hidden_layers ops now (layers sl) = Inr ls'" and ls: "layers sl' = ls'"
    using r by (auto simp: remove_hidden_def split: sum.splits)
  note a2 = remove_hidden_layers_Inr [OF r']
  have filt: "\<exists>P. l' = filter P l \<and> (\<forall>e. (\<exists>t. tag e = Some t \<and> visible_tag t) \<longrightarrow> P e)"
    if "sweep_hidden ops now l = Inr l'" for l l'
    using sweep_hidden_Inr [OF that] lifecycle_kind_not_visible by fastforce
  have vm: "visible_map (filter P l) = visible_map l" if "\<forall>e. (\<exists>t. tag e = Some t \<and> visible_tag t) \<longrightarrow> P e" for P l
  proof
    fix t
    show "visible_map (filter P l) t = visible_map l t"
      using that find_filter_weaker [of l "\<lambda>e. tag e = Some t" P] by (simp add: visible_map_def)
  qed
  have "sl_inv sl'"
    unfolding sl_inv_def ls
  proof
    fix p' assume "p' \<in> set ls'"
    then obtain p where p: "p \<in> set (layers sl)" "sweep_hidden ops now (snd p) = Inr (snd p')"
      using set_list_all2 [OF a2] by blast
    have "layer_ok (snd p)" using inv p(1) by (simp add: sl_inv_def)
    moreover obtain P where "snd p' = filter P (snd p)" using filt [OF p(2)] by blast
    ultimately show "layer_ok (snd p')" by (simp add: layer_ok_filter)
  qed
  moreover have "map fst (layers sl') = map fst (layers sl)" using map_fst_list_all2 [OF a2] ls by simp
  moreover have "\<exists>l'. map_of (layers sl') k = Some l' \<and> visible_map l' = visible_map l"
    if m0: "map_of (layers sl) k = Some l" for k l
  proof -
    obtain l' where m: "map_of ls' k = Some l'" and sw: "sweep_hidden ops now l = Inr l'"
      using map_of_list_all2 [OF a2 m0] by blast
    obtain P where "l' = filter P l" "\<forall>e. (\<exists>t. tag e = Some t \<and> visible_tag t) \<longrightarrow> P e"
      using filt [OF sw] by blast
    then show ?thesis using m vm ls by simp
  qed
  ultimately show ?thesis by blast
qed

lemma demo_hidden_eval:
  "remove_hidden demo_ops 2 (set_layer ''master''
      [demo_entry ''bg'' 0 (Plain ''room''), demo_entry ''replaced$eileen'' 0 (Plain ''happy''),
       demo_entry ''hide$ghost'' 0 (WithExit ''ghost'')] demo_sl) =
   Inr (set_layer ''master'' [demo_entry ''bg'' 0 (Plain ''room''), demo_entry ''hide$ghost'' 0 (WithExit ''ghost'')]
      demo_sl)"
  by (simp add: remove_hidden_def set_layer_def demo_sl_def demo_entry_def rehide_def startswith_def)

theorem remove_hidden_drops_finished_witness:
  "\<exists>sl'. remove_hidden demo_ops 2 (set_layer ''master''
      [demo_entry ''bg'' 0 (Plain ''room''), demo_entry ''replaced$eileen'' 0 (Plain ''happy''),
       demo_entry ''hide$ghost'' 0 (WithExit ''ghost'')] demo_sl) = Inr sl' \<and>
     map_of (layers sl') ''master'' =
       Some [demo_entry ''bg'' 0 (Plain ''room''), demo_entry ''hide$ghost'' 0 (WithExit ''ghost'')]"
proof -
  let ?l = "[demo_entry ''bg'' 0 (Plain ''room''), demo_entry ''replaced$eileen'' 0 (Plain ''happy''),
       demo_entry ''hide$ghost'' 0 (WithExit ''ghost'')]"
  obtain sl' where a: "remove_hidden demo_ops 2 (set_layer ''master'' ?l demo_sl) = Inr sl'"
    using demo_hidden_eval by blast
  have m: "map_of (layers (set_layer ''master'' ?l demo_sl)) ''master'' = Some ?l"
    by simp
  show ?thesis using remove_hidden_drops_finished [OF a m] a
    by (simp add: lifecycle_kind_def rehide_def demo_entry_def startswith_def)
qed

theorem remove_hidden_keeps_visible_witness:
  "\<exists>sl'. remove_hidden demo_ops 2 (set_layer ''master''
      [demo_entry ''bg'' 0 (Plain ''room''), demo_entry ''replaced$eileen'' 0 (Plain ''happy''),
       demo_entry ''hide$ghost'' 0 (WithExit ''ghost'')] demo_sl) = Inr sl' \<and> sl_inv sl' \<and>
     map fst (layers sl') = [''master'', ''transient'', ''overlay'']"
proof -
  let ?s = "set_layer ''master'' [demo_entry ''bg'' 0 (Plain ''room''), demo_entry ''replaced$eileen'' 0 (Plain ''happy''),
       demo_entry ''hide$ghost'' 0 (WithExit ''ghost'')] demo_sl"
  have i: "sl_inv ?s"
    by (simp add: demo_eval)
  obtain sl' where a: "remove_hidden demo_ops 2 ?s = Inr sl'"
    using demo_hidden_eval by blast
  show ?thesis using remove_hidden_keeps_visible [OF i a] a by (simp add: set_layer_def demo_sl_def)
qed

end
