(* ===== verification/Interface.thy ===== *)
theory Interface
  imports SceneLists
begin

text \<open>
  The state of class \<open>Interface\<close> (\<open>src/renpy/display/core.py\<close>) that the interaction
  engine reads and writes, and its small operations: \<open>timeout\<close>, \<open>set_transition\<close>,
  the transition snapshot and the \<open>trans_pause\<close> safety check at the start of
  \<open>interact_core\<close>, the event-queue accessors \<open>event_peek\<close>, \<open>event_poll\<close>,
  \<open>event_wait\<close> (with the main-thread side of the background screenshot handoff),
  the background side of \<open>take_screenshot\<close>, and \<open>quit_event\<close>. Python dictionaries
  keyed by a layer name or \<open>None\<close> (the root) are association lists with distinct keys,
  in insertion order; pygame's event queue is the list \<open>pg_queue\<close>.
\<close>

section \<open>State\<close>

type_synonym layer_key = "layer_name option"

text \<open>pygame events, by the types the event loop distinguishes; \<open>'p\<close> is the payload.\<close>

datatype 'p event =
    NoEvent
  | TimeEvent
  | RedrawEvent
  | PeriodicEvent
  | QuitEvent
  | VideoResize "nat \<times> nat"
  | MouseMotion 'p
  | MouseButtonDown 'p
  | MouseButtonUp 'p
  | ActiveEvent nat bool
  | InputEvent 'p

record ('tr, 'w, 'p, 's) interface =
  old_scene :: "(layer_key \<times> 'w) list"
  transition :: "(layer_key \<times> 'tr) list"
  ongoing_transition :: "(layer_key \<times> 'tr) list"
  transition_time :: "(layer_key \<times> time option) list"
  transition_from :: "(layer_key \<times> 'w) list"
  suppress_transition :: bool
  force_redraw :: bool
  restart_interaction :: bool
  pushed_event :: "'p event option"
  ticks :: nat
  timeout_time :: "time option"
  last_event :: "'p event option"
  frame_time :: time
  interact_time :: "time option"
  quit_time :: time
  event_time :: time
  mouse_event_time :: time
  last_resize :: "(nat \<times> nat) option"
  focused :: bool
  bgscreenshot_needed :: bool
  bgscreenshot_event :: bool
  bgscreenshot_surface :: "'s option"
  pg_queue :: "'p event list"

text \<open>\<open>Interface.__init__\<close>, for the fields above; \<open>now\<close> is \<open>get_time()\<close>.\<close>

definition init_interface :: "time \<Rightarrow> ('tr, 'w, 'p, 's) interface" where
  "init_interface now =
     \<lparr>old_scene = [], transition = [], ongoing_transition = [], transition_time = [], transition_from = [],
      suppress_transition = False, force_redraw = False, restart_interaction = False, pushed_event = None,
      ticks = 0, timeout_time = None, last_event = None, frame_time = 0, interact_time = None,
      quit_time = 0, event_time = 0, mouse_event_time = now, last_resize = None, focused = True,
      bgscreenshot_needed = False, bgscreenshot_event = False, bgscreenshot_surface = None, pg_queue = []\<rparr>"

section \<open>timeout\<close>

text \<open>\<open>Interface.timeout\<close>: a negative offset is ignored; a set (truthy) deadline is only
  tightened; an unset one, \<open>None\<close> or \<open>0.0\<close>, is replaced.\<close>

definition timeout :: "time \<Rightarrow> ('tr, 'w, 'p, 's) interface \<Rightarrow> ('tr, 'w, 'p, 's) interface" where
  "timeout offset st =
     (if offset < 0 then st
      else if truthy_time (timeout_time st)
        then st\<lparr>timeout_time := Some (min (event_time st + offset) (case timeout_time st of Some t \<Rightarrow> t | None \<Rightarrow> 0))\<rparr>
      else st\<lparr>timeout_time := Some (event_time st + offset)\<rparr>)"

section \<open>Transitions\<close>

text \<open>\<open>Interface.set_transition\<close>: \<open>None\<close> pops the layer's pending transition.\<close>

definition set_transition :: "'tr option \<Rightarrow> layer_key \<Rightarrow> bool \<Rightarrow>
    ('tr, 'w, 'p, 's) interface \<Rightarrow> ('tr, 'w, 'p, 's) interface" where
  "set_transition tr layer force st =
     (if suppress_transition st \<and> \<not> force then st
      else case tr of
        None \<Rightarrow> st\<lparr>transition := AList.delete layer (transition st)\<rparr>
      | Some t \<Rightarrow> st\<lparr>transition := AList.update layer t (transition st)\<rparr>)"

text \<open>The \<open>for k in self.transition\<close> loop of \<open>interact_core\<close>: a pending transition
  of a layer that the old scene has becomes ongoing, from the old scene's widget, with an
  unset start time; one of a layer the old scene lacks is skipped.\<close>

fun snapshot_loop :: "(layer_key \<times> 'tr) list \<Rightarrow> ('tr, 'w, 'p, 's) interface \<Rightarrow> ('tr, 'w, 'p, 's) interface" where
  "snapshot_loop [] st = st"
| "snapshot_loop ((k, t) # ks) st =
     snapshot_loop ks
       (case map_of (old_scene st) k of
          None \<Rightarrow> st
        | Some w \<Rightarrow> st\<lparr>ongoing_transition := AList.update k t (ongoing_transition st),
                       transition_from := AList.update k w (transition_from st),
                       transition_time := AList.update k None (transition_time st)\<rparr>)"

text \<open>The head of \<open>interact_core\<close> up to the safety check: \<open>suppress_transition\<close> is
  cleared, pending transitions are snapshot and cleared, and when transitions are skipped
  (\<open>config.skipping\<close> or \<open>less_updates\<close>, the argument \<open>skip\<close>) the ongoing ones are
  discarded.\<close>

definition snapshot_transitions :: "bool \<Rightarrow> ('tr, 'w, 'p, 's) interface \<Rightarrow> ('tr, 'w, 'p, 's) interface" where
  "snapshot_transitions skip st =
     (let st1 = snapshot_loop (transition st) (st\<lparr>suppress_transition := False\<rparr>)\<lparr>transition := []\<rparr>
      in if skip then st1\<lparr>ongoing_transition := [], transition_from := [], transition_time := []\<rparr> else st1)"

text \<open>The \<open>trans_pause\<close> safety condition: \<open>interact_core\<close> returns \<open>(False, None)\<close>.\<close>

definition trans_pause_abort :: "bool \<Rightarrow> bool \<Rightarrow> ('tr, 'w, 'p, 's) interface \<Rightarrow> bool" where
  "trans_pause_abort trans_pause skip st =
     (trans_pause \<and> (ongoing_transition st = [] \<or> map_of (ongoing_transition st) None = None \<or> skip \<or>
                     old_scene st = []))"

section \<open>Event queue\<close>

text \<open>\<open>pygame.event.poll()\<close>: the head of the queue, \<open>NOEVENT\<close> when it is empty.\<close>

definition pg_poll :: "('tr, 'w, 'p, 's) interface \<Rightarrow> 'p event \<times> ('tr, 'w, 'p, 's) interface" where
  "pg_poll st = (case pg_queue st of [] \<Rightarrow> (NoEvent, st) | e # q \<Rightarrow> (e, st\<lparr>pg_queue := q\<rparr>))"

definition event_peek :: "('tr, 'w, 'p, 's) interface \<Rightarrow> 'p event option \<times> ('tr, 'w, 'p, 's) interface" where
  "event_peek st =
     (case pushed_event st of
        Some e \<Rightarrow> (Some e, st)
      | None \<Rightarrow> (let (ev, st') = pg_poll st in
                 if ev = NoEvent then (None, st') else (Some ev, st'\<lparr>pushed_event := Some ev\<rparr>)))"

definition event_poll :: "('tr, 'w, 'p, 's) interface \<Rightarrow> 'p event \<times> ('tr, 'w, 'p, 's) interface" where
  "event_poll st =
     (case pushed_event st of
        Some e \<Rightarrow> (e, st\<lparr>pushed_event := None, last_event := Some e\<rparr>)
      | None \<Rightarrow> (let (ev, st') = pg_poll st in (ev, st'\<lparr>last_event := Some ev\<rparr>)))"

text \<open>\<open>event_wait\<close>: before blocking it serves a pending background screenshot request
  with the frame \<open>shot\<close>; \<open>pygame.event.wait()\<close> on an empty queue never returns
  (\<open>None\<close>).\<close>

definition serve_bg_screenshot :: "'s \<Rightarrow> ('tr, 'w, 'p, 's) interface \<Rightarrow> ('tr, 'w, 'p, 's) interface" where
  "serve_bg_screenshot shot st =
     (if bgscreenshot_needed st
      then st\<lparr>bgscreenshot_needed := False, bgscreenshot_surface := Some shot, bgscreenshot_event := True\<rparr>
      else st)"

definition pg_wait :: "('tr, 'w, 'p, 's) interface \<Rightarrow> ('p event \<times> ('tr, 'w, 'p, 's) interface) option" where
  "pg_wait st = (case pg_queue st of [] \<Rightarrow> None | e # q \<Rightarrow> Some (e, st\<lparr>pg_queue := q\<rparr>))"

definition event_wait :: "'s \<Rightarrow> ('tr, 'w, 'p, 's) interface \<Rightarrow> ('p event \<times> ('tr, 'w, 'p, 's) interface) option" where
  "event_wait shot st =
     (case pushed_event st of
        Some e \<Rightarrow> Some (e, st\<lparr>pushed_event := None, last_event := Some e\<rparr>)
      | None \<Rightarrow> map_option (\<lambda>(e, st'). (e, st'\<lparr>last_event := Some e\<rparr>)) (pg_wait (serve_bg_screenshot shot st)))"

text \<open>The background thread's side of \<open>take_screenshot(background=True)\<close>: the request
  (clear the event, raise the flag), and the collection after \<open>event.wait()\<close> returns,
  which is only possible once the event is set.\<close>

definition bg_request :: "('tr, 'w, 'p, 's) interface \<Rightarrow> ('tr, 'w, 'p, 's) interface" where
  "bg_request st = st\<lparr>bgscreenshot_event := False, bgscreenshot_needed := True\<rparr>"

definition bg_collect :: "('tr, 'w, 'p, 's) interface \<Rightarrow> ('s option \<times> ('tr, 'w, 'p, 's) interface) option" where
  "bg_collect st =
     (if bgscreenshot_event st then Some (bgscreenshot_surface st, st\<lparr>bgscreenshot_surface := None\<rparr>) else None)"

section \<open>quit_event\<close>

text \<open>\<open>Interface.quit_event\<close> at wall-clock time \<open>wall\<close>; \<open>has_action\<close> is
  \<open>config.quit_action is not None\<close>. \<open>QuitException\<close> is \<open>QuitRequested\<close>.\<close>

definition quit_event :: "bool \<Rightarrow> time \<Rightarrow> ('tr, 'w, 'p, 's) interface \<Rightarrow> py_error + ('tr, 'w, 'p, 's) interface" where
  "quit_event has_action wall st =
     (if quit_time st > wall - 0.75 then Inl QuitRequested
      else if has_action then Inr (st\<lparr>quit_time := wall\<rparr>)
      else Inl QuitRequested)"

text \<open>The dictionaries of the state have distinct keys.\<close>

definition dicts_ok :: "('tr, 'w, 'p, 's) interface \<Rightarrow> bool" where
  "dicts_ok st =
     (distinct (map fst (old_scene st)) \<and> distinct (map fst (transition st)) \<and>
      distinct (map fst (ongoing_transition st)) \<and> distinct (map fst (transition_time st)) \<and>
      distinct (map fst (transition_from st)))"


section \<open>Properties of the interface operations\<close>

subsection \<open>timeout\<close>

lemma timeout_keeps_event_time [simp]: "event_time (timeout offset st) = event_time st"
  by (simp add: timeout_def)

lemma timeout_set:
  "0 \<le> offset \<Longrightarrow> timeout_time st = Some t \<Longrightarrow> t \<noteq> 0 \<Longrightarrow>
     timeout_time (timeout offset st) = Some (min (event_time st + offset) t)"
  by (simp add: timeout_def)

lemma timeout_unset:
  "0 \<le> offset \<Longrightarrow> \<not> truthy_time (timeout_time st) \<Longrightarrow>
     timeout_time (timeout offset st) = Some (event_time st + offset)"
  by (simp add: timeout_def)

lemma fold_timeout_set:
  assumes "\<forall>o' \<in> set offs. 0 \<le> o' \<and> event_time st + o' \<noteq> 0"
    and "timeout_time st = Some t" and "t \<noteq> 0"
  shows "timeout_time (fold timeout offs st) = Some (fold (\<lambda>o' m. min (event_time st + o') m) offs t)"
  using assms
proof (induction offs arbitrary: st t)
  case Nil
  then show ?case by simp
next
  case (Cons a offs)
  let ?m = "min (event_time st + a) t"
  have s: "timeout_time (timeout a st) = Some ?m"
    using Cons.prems by (simp add: timeout_set)
  have "?m \<noteq> 0" using Cons.prems by (simp add: min_def)
  then show ?case
    using Cons.IH [of "timeout a st" ?m] Cons.prems s by simp
qed

lemma fold_min_Min:
  "fold (\<lambda>o' m. min (c + o') m) offs t = Min (insert t ((\<lambda>o'. c + o') ` set offs))"
proof (induction offs arbitrary: t)
  case Nil
  then show ?case by simp
next
  case (Cons a offs)
  have "fold (\<lambda>o' m. min (c + o') m) (a # offs) t = Min (insert (min (c + a) t) ((\<lambda>o'. c + o') ` set offs))"
    using Cons.IH [of "min (c + a) t"] by simp
  then show ?case
    by (cases "set offs = {}") (simp_all add: min.assoc min.left_commute min.commute)
qed

text \<open>
  C12. Timeout convergence: successive \<open>timeout\<close> calls during one dispatch, from no
  deadline, leave the deadline at the soonest requested wake-up, provided no intermediate
  deadline is \<open>0.0\<close>.
\<close>

theorem timeouts_converge:
  assumes "timeout_time st = None" and "offs \<noteq> []"
    and "\<forall>o' \<in> set offs. 0 \<le> o' \<and> event_time st + o' \<noteq> 0"
  shows "timeout_time (fold timeout offs st) = Some (event_time st + Min (set offs))"
proof -
  obtain a rest where o: "offs = a # rest" using assms(2) by (cases offs) auto
  have s: "timeout_time (timeout a st) = Some (event_time st + a)"
    using assms o by (simp add: timeout_unset)
  have r: "\<forall>o' \<in> set rest. 0 \<le> o' \<and> event_time (timeout a st) + o' \<noteq> 0"
    using assms(3) o by simp
  have "timeout_time (fold timeout offs st) =
      Some (Min (insert (event_time st + a) ((\<lambda>o'. event_time st + o') ` set rest)))"
    using fold_timeout_set [OF r s] assms(3) o by (simp add: fold_min_Min)
  also have "Min (insert (event_time st + a) ((\<lambda>o'. event_time st + o') ` set rest)) =
      event_time st + Min (set offs)"
  proof -
    have "mono ((+) (event_time st))" by (rule monoI) simp
    from mono_Min_commute [OF this, of "set offs"] o show ?thesis by simp
  qed
  finally show ?thesis .
qed

text \<open>
  C13. A deadline of \<open>0.0\<close> counts as no deadline: when the first \<open>timeout\<close> of a
  dispatch lands on time \<open>0.0\<close> (an event time of \<open>0\<close>, the value before the first
  dispatch, and offset \<open>0\<close>), a later, larger timeout replaces it instead of being
  ignored, so the deadline moves later.
\<close>

theorem timeout_zero_deadline_lost:
  assumes "timeout_time st = None" and "0 \<le> a" and "0 \<le> b" and "event_time st + a = 0"
  shows "timeout_time (timeout b (timeout a st)) = Some (event_time st + b)"
  using assms by (simp add: timeout_def)

theorem timeout_zero_deadline_lost_witness:
  "timeout_time (timeout 5 (timeout 0 (init_interface 0 :: (unit, unit, unit, unit) interface))) = Some 5"
proof -
  have "timeout_time (init_interface 0 :: (unit, unit, unit, unit) interface) = None"
    "event_time (init_interface 0 :: (unit, unit, unit, unit) interface) + 0 = 0"
    by (simp_all add: init_interface_def)
  from timeout_zero_deadline_lost [OF this(1) _ _ this(2), of 5] show ?thesis
    by (simp add: init_interface_def)
qed

theorem timeouts_converge_witness:
  "timeout_time (fold timeout [5, 2] (init_interface 0 :: (unit, unit, unit, unit) interface)) = Some 2"
proof -
  have "timeout_time (init_interface 0 :: (unit, unit, unit, unit) interface) = None"
    "[5, 2::real] \<noteq> []"
    "\<forall>o' \<in> set [5, 2]. 0 \<le> o' \<and> event_time (init_interface 0 :: (unit, unit, unit, unit) interface) + o' \<noteq> 0"
    by (simp_all add: init_interface_def)
  from timeouts_converge [OF this] show ?thesis by (simp add: init_interface_def)
qed

subsection \<open>Transitions\<close>

lemma snapshot_loop_keeps [simp]:
  "old_scene (snapshot_loop ks st) = old_scene st \<and> transition (snapshot_loop ks st) = transition st \<and>
   suppress_transition (snapshot_loop ks st) = suppress_transition st \<and> pg_queue (snapshot_loop ks st) = pg_queue st \<and>
   pushed_event (snapshot_loop ks st) = pushed_event st \<and> timeout_time (snapshot_loop ks st) = timeout_time st"
proof (induction ks arbitrary: st)
  case Nil
  then show ?case by simp
next
  case (Cons p ks)
  then show ?case by (cases p) (simp split: option.split)
qed

lemma snapshot_loop_ongoing:
  "distinct (map fst ks) \<Longrightarrow>
     map_of (ongoing_transition (snapshot_loop ks st)) k =
       (case (map_of (old_scene st) k, map_of ks k) of (Some _, Some t) \<Rightarrow> Some t
        | _ \<Rightarrow> map_of (ongoing_transition st) k) \<and>
     map_of (transition_from (snapshot_loop ks st)) k =
       (case (map_of (old_scene st) k, map_of ks k) of (Some w, Some _) \<Rightarrow> Some w
        | _ \<Rightarrow> map_of (transition_from st) k)"
proof (induction ks arbitrary: st)
  case Nil
  then show ?case by (simp split: option.split)
next
  case (Cons p ks)
  obtain k' t where p: "p = (k', t)" by (cases p)
  have nk: "map_of ks k' = None" using Cons.prems p by (simp add: map_of_eq_None_iff)
  show ?case
    using Cons.IH [of "case map_of (old_scene st) k' of None \<Rightarrow> st | Some w \<Rightarrow>
        st\<lparr>ongoing_transition := AList.update k' t (ongoing_transition st),
           transition_from := AList.update k' w (transition_from st),
           transition_time := AList.update k' None (transition_time st)\<rparr>"] Cons.prems p nk
    by (auto simp: update_conv' split: option.splits)
qed

lemma snapshot_loop_ongoing_none:
  "map_of ks k = None \<Longrightarrow> map_of (ongoing_transition (snapshot_loop ks st)) k = map_of (ongoing_transition st) k"
proof (induction ks arbitrary: st)
  case Nil
  then show ?case by simp
next
  case (Cons p ks)
  then show ?case by (cases p) (auto simp: update_conv' split: option.split if_splits)
qed

text \<open>
  C14. The transition snapshot at the start of \<open>interact_core\<close> (transitions not
  skipped): a layer's pending transition becomes ongoing, from the old scene's widget,
  exactly when the old scene has that layer; otherwise the layer's ongoing transition is
  unchanged and the pending one is lost, since all pending transitions are cleared.
\<close>

theorem snapshot_transitions_ongoing:
  assumes "dicts_ok st" and "\<not> skip"
  shows "map_of (ongoing_transition (snapshot_transitions skip st)) k =
       (case (map_of (old_scene st) k, map_of (transition st) k) of (Some _, Some t) \<Rightarrow> Some t
        | _ \<Rightarrow> map_of (ongoing_transition st) k) \<and>
     map_of (transition_from (snapshot_transitions skip st)) k =
       (case (map_of (old_scene st) k, map_of (transition st) k) of (Some w, Some _) \<Rightarrow> Some w
        | _ \<Rightarrow> map_of (transition_from st) k) \<and>
     transition (snapshot_transitions skip st) = [] \<and> \<not> suppress_transition (snapshot_transitions skip st)"
proof -
  have d: "distinct (map fst (transition st))" using assms(1) by (simp add: dicts_ok_def)
  show ?thesis
    using snapshot_loop_ongoing [OF d, of "st\<lparr>suppress_transition := False\<rparr>" k] assms(2)
    by (simp add: snapshot_transitions_def Let_def split: option.splits)
qed

theorem snapshot_transitions_ongoing_witness:
  "map_of (ongoing_transition (snapshot_transitions False
      ((init_interface 0 :: (nat, nat, unit, unit) interface)\<lparr>old_scene := [(Some ''master'', 1)],
         transition := [(Some ''master'', 7), (Some ''screens'', 8)]\<rparr>))) (Some ''screens'') = None \<and>
   map_of (ongoing_transition (snapshot_transitions False
      ((init_interface 0 :: (nat, nat, unit, unit) interface)\<lparr>old_scene := [(Some ''master'', 1)],
         transition := [(Some ''master'', 7), (Some ''screens'', 8)]\<rparr>))) (Some ''master'') = Some 7"
proof -
  let ?st = "(init_interface 0 :: (nat, nat, unit, unit) interface)\<lparr>old_scene := [(Some ''master'', 1)],
         transition := [(Some ''master'', 7), (Some ''screens'', 8)]\<rparr>"
  have ok: "dicts_ok ?st" by (simp add: dicts_ok_def init_interface_def)
  show ?thesis
    using snapshot_transitions_ongoing [OF ok, of False "Some ''screens''"]
      snapshot_transitions_ongoing [OF ok, of False "Some ''master''"]
    by (simp add: init_interface_def)
qed

text \<open>The \<open>trans_pause\<close> safety check cannot deadlock: when no root transition is
  pending or ongoing, or transitions are skipped, a \<open>trans_pause\<close> interaction aborts
  right after the snapshot instead of waiting for a transition that will not run.\<close>

lemma trans_pause_aborts_without_root:
  assumes "skip \<or> (map_of (transition st) None = None \<and> map_of (ongoing_transition st) None = None)"
  shows "trans_pause_abort True skip (snapshot_transitions skip st)"
  using assms snapshot_loop_ongoing_none [of "transition st" None "st\<lparr>suppress_transition := False\<rparr>"]
  by (auto simp: trans_pause_abort_def snapshot_transitions_def Let_def)

subsection \<open>Event queue and screenshot handoff\<close>

text \<open>
  Peeking is transparent: on a queue that holds no \<open>NOEVENT\<close>, a peek followed by a
  poll or a second peek gives the same event and the same state as the poll or peek
  alone; the peeked event is only buffered in \<open>pushed_event\<close>.
\<close>

theorem event_peek_transparent:
  assumes "NoEvent \<notin> set (pg_queue st)"
  shows "event_poll (snd (event_peek st)) = event_poll st \<and> event_peek (snd (event_peek st)) = event_peek st"
  using assms
  by (auto simp: event_peek_def event_poll_def pg_poll_def split: option.split list.split)

theorem event_peek_transparent_witness:
  "event_poll (snd (event_peek ((init_interface 0 :: (unit, unit, nat, unit) interface)\<lparr>pg_queue := [InputEvent 3]\<rparr>))) =
     (InputEvent 3, (init_interface 0)\<lparr>last_event := Some (InputEvent 3)\<rparr>)"
proof -
  have "NoEvent \<notin> set (pg_queue ((init_interface 0 :: (unit, unit, nat, unit) interface)\<lparr>pg_queue := [InputEvent 3]\<rparr>))"
    by simp
  from event_peek_transparent [OF this] show ?thesis
    by (simp add: event_poll_def pg_poll_def init_interface_def)
qed

text \<open>
  C16. The background screenshot handoff: a request leaves the requesting thread waiting
  until the main thread's next \<open>event_wait\<close> with no buffered event, which captures the
  frame, lowers the request flag and releases the waiter with that frame; with an event
  buffered by a peek, \<open>event_wait\<close> returns it and the request stays pending.
\<close>

theorem bg_screenshot_handoff:
  "bg_collect (bg_request st) = None \<and>
   (pushed_event st = None \<longrightarrow>
      bg_collect (serve_bg_screenshot shot (bg_request st)) =
        Some (Some shot, (serve_bg_screenshot shot (bg_request st))\<lparr>bgscreenshot_surface := None\<rparr>) \<and>
      (\<forall>e st'. event_wait shot (bg_request st) = Some (e, st') \<longrightarrow>
         bg_collect st' = Some (Some shot, st'\<lparr>bgscreenshot_surface := None\<rparr>) \<and> \<not> bgscreenshot_needed st')) \<and>
   (\<forall>e. pushed_event st = Some e \<longrightarrow>
      (\<exists>st'. event_wait shot (bg_request st) = Some (e, st') \<and> bg_collect st' = None \<and> bgscreenshot_needed st'))"
  by (auto simp: bg_collect_def bg_request_def serve_bg_screenshot_def event_wait_def pg_wait_def
      split: list.splits)

theorem bg_screenshot_handoff_witness:
  "\<exists>st'. event_wait (7::nat) (bg_request ((init_interface 0 :: (unit, unit, unit, nat) interface)\<lparr>pg_queue := [TimeEvent]\<rparr>)) =
      Some (TimeEvent, st') \<and> bg_collect st' = Some (Some 7, st'\<lparr>bgscreenshot_surface := None\<rparr>)"
proof -
  let ?st = "(init_interface 0 :: (unit, unit, unit, nat) interface)\<lparr>pg_queue := [TimeEvent]\<rparr>"
  have p: "pushed_event ?st = None" by (simp add: init_interface_def)
  obtain st' where w: "event_wait 7 (bg_request ?st) = Some (TimeEvent, st')"
    by (simp add: event_wait_def bg_request_def pg_wait_def serve_bg_screenshot_def init_interface_def)
  show ?thesis using bg_screenshot_handoff [of ?st 7] p w by blast
qed

subsection \<open>quit_event\<close>

text \<open>
  C18. Quit is debounced: with a quit action configured, a first quit at least 0.75
  seconds after the last one runs the action and records its time; a second quit then
  raises \<open>QuitException\<close> exactly when it comes within 0.75 seconds of the first.
\<close>

theorem quit_event_debounce:
  assumes "quit_time st \<le> t1 - 0.75"
  shows "\<exists>st'. quit_event True t1 st = Inr st' \<and> quit_time st' = t1 \<and>
     (quit_event True t2 st' = Inl QuitRequested \<longleftrightarrow> t2 < t1 + 0.75)"
  using assms by (auto simp: quit_event_def)

theorem quit_event_debounce_witness:
  "\<exists>st'. quit_event True 10 (init_interface 0 :: (unit, unit, unit, unit) interface) = Inr st' \<and>
     quit_event True 10.5 st' = Inl QuitRequested \<and> quit_event True 11 st' \<noteq> Inl QuitRequested"
proof -
  have q: "quit_time (init_interface 0 :: (unit, unit, unit, unit) interface) \<le> 10 - 0.75"
    by (simp add: init_interface_def)
  obtain st' where a: "quit_event True 10 (init_interface 0 :: (unit, unit, unit, unit) interface) = Inr st'"
    and b: "quit_event True 10.5 st' = Inl QuitRequested \<longleftrightarrow> (10.5::real) < 10 + 0.75"
    using quit_event_debounce [OF q, of "10.5"] by blast
  have c: "quit_event True 11 st' = Inl QuitRequested \<longleftrightarrow> (11::real) < 10 + 0.75"
    using quit_event_debounce [OF q, of 11] a by auto
  show ?thesis using a b c by auto
qed

subsection \<open>Dictionary keys\<close>

lemma snapshot_loop_dicts_ok: "dicts_ok st \<Longrightarrow> dicts_ok (snapshot_loop ks st)"
proof (induction ks arbitrary: st)
  case Nil
  then show ?case by simp
next
  case (Cons p ks)
  then show ?case by (cases p) (auto simp: dicts_ok_def distinct_update split: option.split)
qed

text \<open>
  The transition dictionaries stay dictionaries: \<open>set_transition\<close>, the snapshot
  and \<open>timeout\<close> keep every key of the interface's layer-keyed dictionaries distinct.
\<close>

theorem dicts_ok_preserved:
  assumes "dicts_ok st"
  shows "dicts_ok (set_transition tr layer force st) \<and> dicts_ok (snapshot_transitions skip st) \<and>
     dicts_ok (timeout offset st)"
proof -
  have "dicts_ok (set_transition tr layer force st)"
    using assms by (auto simp: set_transition_def dicts_ok_def distinct_update distinct_delete split: option.split)
  moreover have "dicts_ok (snapshot_loop (transition st) (st\<lparr>suppress_transition := False\<rparr>))"
    using assms by (intro snapshot_loop_dicts_ok) (simp add: dicts_ok_def)
  then have "dicts_ok (snapshot_transitions skip st)"
    by (simp add: snapshot_transitions_def Let_def dicts_ok_def)
  moreover have "dicts_ok (timeout offset st)"
    using assms by (simp add: timeout_def dicts_ok_def)
  ultimately show ?thesis by blast
qed

theorem dicts_ok_preserved_witness:
  "dicts_ok (set_transition (Some (3::nat)) None False (init_interface 0 :: (nat, nat, unit, unit) interface)) \<and>
   dicts_ok (snapshot_transitions False (init_interface 0 :: (nat, nat, unit, unit) interface)) \<and>
   dicts_ok (timeout 2 (init_interface 0 :: (nat, nat, unit, unit) interface))"
proof -
  have "dicts_ok (init_interface 0 :: (nat, nat, unit, unit) interface)"
    by (simp add: dicts_ok_def init_interface_def)
  from dicts_ok_preserved [OF this] show ?thesis by blast
qed

text \<open>
  \<open>set_transition\<close> round trip: unless transitions are suppressed (or the call
  forces), the transition set for a layer is the one pending for it, and removing it
  again (\<open>set_transition(None, layer)\<close>) restores the state when no transition was
  pending for that layer before.
\<close>

theorem set_transition_roundtrip:
  assumes "\<not> suppress_transition st \<or> force"
  shows "map_of (transition (set_transition (Some t) k force st)) k = Some t \<and>
    (map_of (transition st) k = None \<longrightarrow> set_transition None k force (set_transition (Some t) k force st) = st)"
  using assms by (auto simp: set_transition_def update_conv' delete_update_same delete_id map_of_eq_None_iff)

theorem set_transition_roundtrip_witness:
  "map_of (transition (set_transition (Some 5) None False (init_interface 0 :: (nat, unit, unit, unit) interface))) None = Some 5 \<and>
   set_transition None None False (set_transition (Some 5) None False (init_interface 0 :: (nat, unit, unit, unit) interface)) =
     init_interface 0"
proof -
  have "\<not> suppress_transition (init_interface 0 :: (nat, unit, unit, unit) interface) \<or> False"
    by (simp add: init_interface_def)
  from set_transition_roundtrip [OF this, of 5 None] show ?thesis by (simp add: init_interface_def)
qed

end
