(* ===== verification/EventLoop.thy ===== *)
theory EventLoop
  imports Interface
begin

text \<open>
  The redraw/event sub-loop of \<open>Interface.interact_core\<close>
  (\<open>src/renpy/display/core.py\<close>, the \<open>while rv is None\<close> loop), one pass of the loop
  per call of \<open>loop_pass\<close>, composed from one definition per block of the loop body in
  the order of the code. The rendering backend, the focus and event handlers and the
  clock are an environment \<open>loop_env\<close>; what the loop does that is observable outside
  the state (drawing, dispatching, predicting, autosaving, setting the mode) is recorded in
  the \<open>trace\<close>. A pass ends by continuing the loop, by leaving it with
  \<open>interact_core\<close>'s pair \<open>(repeat, rv)\<close>, by raising, or by blocking in
  \<open>pygame.event.wait()\<close> on an empty queue; \<open>run_loop\<close> runs passes with fuel.
\<close>

section \<open>Environment, actions and loop state\<close>

text \<open>What the focus and scene handlers do with one event: their result (a value, none,
  or \<open>IgnoreEvent\<close> raised), and the interface calls they make: a restart request,
  a redraw request, and \<open>timeout\<close> calls.\<close>

datatype 'r outcome = Returned 'r | NoResult | Ignored

record 'r handled =
  outcome :: "'r outcome"
  h_restart :: bool
  h_redraw :: bool
  h_timeouts :: "time list"

record ('p, 'r, 's) loop_env =
  clock :: "nat \<Rightarrow> time"
  should_redraw :: "bool \<Rightarrow> bool \<Rightarrow> bool"
  movie_playing :: bool
  redraw_deadline :: "time option"
  audio_event :: "'p event \<Rightarrow> bool"
  joystick :: "'p event \<Rightarrow> 'p event option"
  handle :: "'p event \<Rightarrow> bool \<Rightarrow> 'r handled"
  quit_action :: bool
  shot :: 's
  trans_pause_arg :: bool
  result_truthy :: "'r \<Rightarrow> bool"

datatype 'p action =
    ASetMode
  | ADraw time
  | ASetTimes time
  | AFocusLast
  | APredict
  | AAutosave
  | AResize "nat \<times> nat"
  | ADispatch "'p event"
  | AActive bool

record ('tr, 'w, 'p, 's, 'd, 't) lstate =
  ifc :: "('tr, 'w, 'p, 's) interface"
  scene :: "('d, 't) scene_lists"
  needs_redraw :: bool
  first_pass :: bool
  did_autosave :: bool
  old_timeout_time :: "time option"
  old_redraw_time :: "time option"
  prediction :: "nat option"
  redraws_pending :: bool
  mode_stale :: bool
  frames :: nat
  passes :: nat
  trace :: "'p action list"

datatype ('st, 'r) pass_result =
    Continue 'st
  | Finish 'st bool "'r option"
  | Raise 'st py_error
  | Blocked 'st

definition now_of :: "('p, 'r, 's) loop_env \<Rightarrow> ('tr, 'w, 'p, 's, 'd, 't) lstate \<Rightarrow> time" where
  "now_of env st = clock env (passes st)"

definition emit :: "'p action \<Rightarrow> ('tr, 'w, 'p, 's, 'd, 't) lstate \<Rightarrow> ('tr, 'w, 'p, 's, 'd, 't) lstate" where
  "emit a st = st\<lparr>trace := trace st @ [a]\<rparr>"

text \<open>\<open>renpy.display.render.process_redraws()\<close>: whether redraws were pending; clears them.\<close>

definition process_redraws :: "('tr, 'w, 'p, 's, 'd, 't) lstate \<Rightarrow> bool \<times> ('tr, 'w, 'p, 's, 'd, 't) lstate" where
  "process_redraws st = (redraws_pending st, st\<lparr>redraws_pending := False\<rparr>)"

definition peek :: "('tr, 'w, 'p, 's, 'd, 't) lstate \<Rightarrow> bool \<times> ('tr, 'w, 'p, 's, 'd, 't) lstate" where
  "peek st = (let (e, i) = event_peek (ifc st) in (e \<noteq> None, st\<lparr>ifc := i\<rparr>))"

section \<open>The blocks of one pass\<close>

text \<open>\<open>pygame.event.get([T])\<close> for the events of one kind: the queue without them, and
  the last of them.\<close>

definition take_kind :: "('p event \<Rightarrow> bool) \<Rightarrow> ('tr, 'w, 'p, 's, 'd, 't) lstate \<Rightarrow>
    'p event list \<times> ('tr, 'w, 'p, 's, 'd, 't) lstate" where
  "take_kind P st =
     (filter P (pg_queue (ifc st)), st\<lparr>ifc := (ifc st)\<lparr>pg_queue := filter (\<lambda>e. \<not> P e) (pg_queue (ifc st))\<rparr>\<rparr>)"

definition is_periodic :: "'p event \<Rightarrow> bool" where
  "is_periodic e = (e = PeriodicEvent)"

definition is_resize :: "'p event \<Rightarrow> bool" where
  "is_resize e = (case e of VideoResize _ \<Rightarrow> True | _ \<Rightarrow> False)"

definition is_motion :: "'p event \<Rightarrow> bool" where
  "is_motion e = (case e of MouseMotion _ \<Rightarrow> True | _ \<Rightarrow> False)"

definition is_mouse :: "'p event \<Rightarrow> bool" where
  "is_mouse e = (case e of MouseMotion _ \<Rightarrow> True | MouseButtonDown _ \<Rightarrow> True | MouseButtonUp _ \<Rightarrow> True | _ \<Rightarrow> False)"

text \<open>The fullscreen/display-reset check: \<open>set_mode()\<close> and a redraw.\<close>

definition mode_check :: "('tr, 'w, 'p, 's, 'd, 't) lstate \<Rightarrow> ('tr, 'w, 'p, 's, 'd, 't) lstate" where
  "mode_check st = (if mode_stale st then (emit ASetMode st)\<lparr>mode_stale := False, needs_redraw := True\<rparr> else st)"

text \<open>\<open>pygame.event.peek(ALL_EVENTS)\<close>: a queued event other than \<open>TIMEEVENT\<close> and
  \<open>REDRAW\<close>; the pushed-back event is not looked at.\<close>

definition queued_input :: "'p event list \<Rightarrow> bool" where
  "queued_input q = (\<exists>e \<in> set q. e \<noteq> TimeEvent \<and> e \<noteq> RedrawEvent)"

text \<open>The redraw block: draw when forced, or when (first pass or no queued input) and the
  backend's pacing policy agrees. On the first pass the scene lists' unset times and the
  unset transition times are latched to the interaction's start time.\<close>

definition latch_times :: "time \<Rightarrow> (layer_key \<times> time option) list \<Rightarrow> (layer_key \<times> time option) list" where
  "latch_times t tt = map (\<lambda>(k, v). (k, if v = None then Some t else v)) tt"

definition redraw_block :: "('p, 'r, 's) loop_env \<Rightarrow> ('tr, 'w, 'p, 's, 'd, 't) lstate \<Rightarrow> ('tr, 'w, 'p, 's, 'd, 't) lstate" where
  "redraw_block env st =
     (if force_redraw (ifc st) \<or>
         ((first_pass st \<or> \<not> queued_input (pg_queue (ifc st))) \<and> should_redraw env (needs_redraw st) (first_pass st))
      then
        (let now = now_of env st;
             it = py_or (interact_time (ifc st)) now;
             i1 = (ifc st)\<lparr>force_redraw := False, frame_time := now, interact_time := Some it\<rparr>;
             st1 = emit (ADraw now) (st\<lparr>ifc := i1\<rparr>);
             st2 = (if first_pass st
                    then (emit (ASetTimes it) st1)\<lparr>scene := set_times it (scene st1),
                           ifc := i1\<lparr>transition_time := latch_times it (transition_time i1)\<rparr>\<rparr>
                    else st1);
             st3 = st2\<lparr>frames := Suc (frames st2)\<rparr>;
             st4 = (if first_pass st \<and> last_event (ifc st) \<noteq> None \<and> last_event (ifc st) \<noteq> Some NoEvent
                    then emit AFocusLast st3 else st3);
             st5 = snd (take_kind (\<lambda>e. e = RedrawEvent) st4)
         in st5\<lparr>needs_redraw := False, first_pass := False, old_redraw_time := None\<rparr>)
      else st)"

text \<open>The prediction loop: while the coroutine is alive, no redraw is needed, no event is
  pending (\<open>event_peek\<close>, which buffers one) and no movie plays, take one step. The
  coroutine is \<open>Some k\<close>: \<open>k\<close> more steps yield a true value, the next one ends it.\<close>

fun predict_loop :: "('p, 'r, 's) loop_env \<Rightarrow> nat \<Rightarrow> ('tr, 'w, 'p, 's, 'd, 't) lstate \<Rightarrow> ('tr, 'w, 'p, 's, 'd, 't) lstate" where
  "predict_loop env k st =
     (if needs_redraw st then st
      else (let (pending, st1) = peek st in
            if pending \<or> movie_playing env then st1
            else (case k of
                    0 \<Rightarrow> (emit APredict st1)\<lparr>prediction := None\<rparr>
                  | Suc k' \<Rightarrow> predict_loop env k' ((emit APredict st1)\<lparr>prediction := Some k'\<rparr>))))"

definition predict_block :: "('p, 'r, 's) loop_env \<Rightarrow> ('tr, 'w, 'p, 's, 'd, 't) lstate \<Rightarrow> ('tr, 'w, 'p, 's, 'd, 't) lstate" where
  "predict_block env st = (case prediction st of None \<Rightarrow> st | Some k \<Rightarrow> predict_loop env k st)"

text \<open>The redraw and timeout timers: returns the event to handle (the timeout's
  \<open>TIMEEVENT\<close> when the deadline has passed) and \<open>redraw_in\<close>. The timeout branch
  assigns its time left to \<open>redraw_in\<close>, as the code does; \<open>timeout_in\<close> stays 3600.\<close>

definition timer_block :: "('p, 'r, 's) loop_env \<Rightarrow> ('tr, 'w, 'p, 's, 'd, 't) lstate \<Rightarrow>
    'p event option \<times> time \<times> ('tr, 'w, 'p, 's, 'd, 't) lstate" where
  "timer_block env st =
     (let now = now_of env st;
          (redraw_in, st1) =
            (if truthy_time (redraw_deadline env) \<and> \<not> needs_redraw st \<and> redraw_deadline env \<noteq> old_redraw_time st
             then (min (the (redraw_deadline env) - now) 3600, st\<lparr>old_redraw_time := redraw_deadline env\<rparr>)
             else (3600, st))
      in case timeout_time (ifc st1) of
           None \<Rightarrow> (None, redraw_in, st1)
         | Some tt \<Rightarrow>
             if tt = 0 then (None, redraw_in, st1)
             else (let time_left = min (tt - now) 3600 in
                   if time_left < 0 then (Some TimeEvent, time_left, st1\<lparr>ifc := (ifc st1)\<lparr>timeout_time := None\<rparr>\<rparr>)
                   else (None, time_left, st1\<lparr>old_timeout_time := Some tt\<rparr>)))"

text \<open>The one-shot autosave, with the short-circuit order of the code's \<open>and\<close>.\<close>

definition autosave_block :: "time \<Rightarrow> ('tr, 'w, 'p, 's, 'd, 't) lstate \<Rightarrow> ('tr, 'w, 'p, 's, 'd, 't) lstate" where
  "autosave_block redraw_in st =
     (if did_autosave st \<or> needs_redraw st then st
      else (let (pending, st1) = peek st in
            if \<not> pending \<and> redraw_in > 0.25 \<and> (3600::time) > 0.25
            then (emit AAutosave st1)\<lparr>did_autosave := True\<rparr> else st1))"

text \<open>Getting the event: \<open>event_poll\<close> when a redraw is due, else \<open>event_wait\<close>.\<close>

definition get_event :: "('p, 'r, 's) loop_env \<Rightarrow> ('tr, 'w, 'p, 's, 'd, 't) lstate \<Rightarrow>
    ('p event \<times> ('tr, 'w, 'p, 's, 'd, 't) lstate) option" where
  "get_event env st =
     (if needs_redraw st then (let (e, i) = event_poll (ifc st) in Some (e, st\<lparr>ifc := i\<rparr>))
      else map_option (\<lambda>(e, i). (e, st\<lparr>ifc := i\<rparr>)) (event_wait (shot env) (ifc st)))"

text \<open>The tail of a pass after an event was handled without a result: pending redraws,
  then the restart check.\<close>

definition after_event :: "('tr, 'w, 'p, 's, 'd, 't) lstate \<Rightarrow> (('tr, 'w, 'p, 's, 'd, 't) lstate, 'r) pass_result" where
  "after_event st =
     (let (r, st1) = process_redraws st;
          st2 = st1\<lparr>needs_redraw := needs_redraw st1 \<or> r\<rparr>
      in if restart_interaction (ifc st2) then Finish st2 True None else Continue st2)"

text \<open>Dispatching an event to the handlers: the event time is set, the handlers run
  (their \<open>timeout\<close> calls, restart and redraw requests), and their result ends the loop,
  is ignored, or raises \<open>IgnoreEvent\<close>, which posts a \<open>TIMEEVENT\<close>. On a result, a
  \<open>trans_pause\<close> interaction suppresses transitions until the next one.\<close>

definition dispatch :: "('p, 'r, 's) loop_env \<Rightarrow> 'p event \<Rightarrow> ('tr, 'w, 'p, 's, 'd, 't) lstate \<Rightarrow>
    (('tr, 'w, 'p, 's, 'd, 't) lstate, 'r) pass_result" where
  "dispatch env ev st =
     (let now = now_of env st;
          h = handle env ev (focused (ifc st));
          i1 = fold timeout (h_timeouts h) ((ifc st)\<lparr>event_time := now\<rparr>);
          i2 = i1\<lparr>restart_interaction := restart_interaction i1 \<or> h_restart h\<rparr>;
          st1 = (emit (ADispatch ev) st)\<lparr>ifc := i2, redraws_pending := redraws_pending st \<or> h_redraw h\<rparr>
      in case outcome h of
           Returned r \<Rightarrow>
             Finish (if trans_pause_arg env \<and> result_truthy env r
                     then st1\<lparr>ifc := (ifc st1)\<lparr>suppress_transition := True\<rparr>\<rparr> else st1) False (Some r)
         | NoResult \<Rightarrow> after_event st1
         | Ignored \<Rightarrow> after_event (st1\<lparr>ifc := (ifc st1)\<lparr>pg_queue := pg_queue (ifc st1) @ [TimeEvent]\<rparr>\<rparr>))"

text \<open>\<open>VIDEORESIZE\<close>: merged with the queued resizes; \<open>set_mode\<close> for a new size.\<close>

definition resize_event :: "'p event \<Rightarrow> ('tr, 'w, 'p, 's, 'd, 't) lstate \<Rightarrow> ('tr, 'w, 'p, 's, 'd, 't) lstate" where
  "resize_event ev1 st =
     (let (evs, st1) = take_kind is_resize st;
          ev2 = (if evs = [] then ev1 else last evs);
          size = (case ev2 of VideoResize sz \<Rightarrow> sz | _ \<Rightarrow> (0, 0))
      in if last_resize (ifc st1) \<noteq> Some size
         then (emit (AResize size) st1)\<lparr>ifc := (ifc st1)\<lparr>last_resize := Some size\<rparr>\<rparr>
         else st1)"

text \<open>Focus notifications (\<open>ACTIVEEVENT\<close>): bit 1 of the state sets \<open>focused\<close>,
  bit 4 calls \<open>restored()\<close> on a gain and \<open>iconified()\<close> on a loss, recorded as the
  action \<open>AActive gain\<close>.\<close>

definition active_event :: "'p event \<Rightarrow> ('tr, 'w, 'p, 's, 'd, 't) lstate \<Rightarrow> ('tr, 'w, 'p, 's, 'd, 't) lstate" where
  "active_event ev st =
     (case ev of
        ActiveEvent state gain \<Rightarrow>
          (let st1 = (if odd state then st\<lparr>ifc := (ifc st)\<lparr>focused := gain\<rparr>\<rparr> else st)
           in if odd (state div 4) then emit (AActive gain) st1 else st1)
      | _ \<Rightarrow> st)"

text \<open>Any other event: the mouse-activity time, merging of queued mouse motions, focus
  notifications, then dispatch.\<close>

definition input_event :: "('p, 'r, 's) loop_env \<Rightarrow> 'p event \<Rightarrow> ('tr, 'w, 'p, 's, 'd, 't) lstate \<Rightarrow>
    (('tr, 'w, 'p, 's, 'd, 't) lstate, 'r) pass_result" where
  "input_event env ev1 st =
     (let st1 = (if is_mouse ev1 then st\<lparr>ifc := (ifc st)\<lparr>mouse_event_time := now_of env st\<rparr>\<rparr> else st);
          (ev2, st2) = (if is_motion ev1
                        then (let (evs, st') = take_kind is_motion st1 in (if evs = [] then ev1 else last evs, st'))
                        else (ev1, st1));
          st3 = active_event ev2 st2
      in dispatch env ev2 st3)"

text \<open>A \<open>TIMEEVENT\<close> is merged with the queued ones (\<open>pygame.event.clear([TIMEEVENT])\<close>)
  and the timeout timer is marked as not armed.\<close>

definition merge_time :: "'p event \<Rightarrow> ('tr, 'w, 'p, 's, 'd, 't) lstate \<Rightarrow> ('tr, 'w, 'p, 's, 'd, 't) lstate" where
  "merge_time ev st =
     (if ev = TimeEvent then snd (take_kind (\<lambda>e. e = TimeEvent) (st\<lparr>old_timeout_time := None\<rparr>)) else st)"

text \<open>Classifying the event, first match wins, as the code's chain of \<open>if\<close>s.\<close>

definition classify_event :: "('p, 'r, 's) loop_env \<Rightarrow> 'p event \<Rightarrow> ('tr, 'w, 'p, 's, 'd, 't) lstate \<Rightarrow>
    (('tr, 'w, 'p, 's, 'd, 't) lstate, 'r) pass_result" where
  "classify_event env ev0 st =
     (if ev0 = RedrawEvent then Continue (st\<lparr>old_redraw_time := None\<rparr>)
      else if is_periodic ev0 then
        (let (more, st1) = take_kind is_periodic st
         in Continue (st1\<lparr>ifc := (ifc st1)\<lparr>ticks := ticks (ifc st1) + 1 + length more\<rparr>\<rparr>))
      else if audio_event env ev0 then Continue st
      else case joystick env ev0 of
        None \<Rightarrow> Continue st
      | Some ev1 \<Rightarrow>
         if ev1 = NoEvent then Continue st
         else if ev1 = QuitEvent then
           (case quit_event (quit_action env) (now_of env st) (ifc st) of
              Inl err \<Rightarrow> Raise st err
            | Inr i \<Rightarrow> Continue (st\<lparr>ifc := i\<rparr>))
         else if is_resize ev1 then Continue (resize_event ev1 st)
         else input_event env ev1 st)"

definition handle_event :: "('p, 'r, 's) loop_env \<Rightarrow> 'p event \<Rightarrow> ('tr, 'w, 'p, 's, 'd, 't) lstate \<Rightarrow>
    (('tr, 'w, 'p, 's, 'd, 't) lstate, 'r) pass_result" where
  "handle_event env ev st = (if ev = NoEvent then Continue st else classify_event env ev (merge_time ev st))"

text \<open>From the redraw check to the decision to block: pending redraws (only looked at when
  no redraw is needed yet, as the code's \<open>or\<close>), the prediction loop, and whether an
  event is pending (only asked when a redraw is needed).\<close>

definition prepare_wait :: "('p, 'r, 's) loop_env \<Rightarrow> ('tr, 'w, 'p, 's, 'd, 't) lstate \<Rightarrow>
    bool \<times> ('tr, 'w, 'p, 's, 'd, 't) lstate" where
  "prepare_wait env st1 =
     (let (r, st2) = (if needs_redraw st1 then (True, st1) else process_redraws st1);
          st3 = predict_block env (st2\<lparr>needs_redraw := needs_redraw st2 \<or> r\<rparr>)
      in if needs_redraw st3 then peek st3 else (True, st3))"

text \<open>The \<open>try\<close> block: timers, autosave, getting the event and handling it.\<close>

definition wait_and_handle :: "('p, 'r, 's) loop_env \<Rightarrow> ('tr, 'w, 'p, 's, 'd, 't) lstate \<Rightarrow>
    (('tr, 'w, 'p, 's, 'd, 't) lstate, 'r) pass_result" where
  "wait_and_handle env st4 =
     (let (tev, redraw_in, st5) = timer_block env st4;
          st6 = autosave_block redraw_in st5
      in case tev of
           Some e \<Rightarrow> handle_event env e st6
         | None \<Rightarrow> (case get_event env st6 of None \<Rightarrow> Blocked st6 | Some (ev, st7) \<Rightarrow> handle_event env ev st7))"

text \<open>One pass of \<open>while rv is None\<close>.\<close>

definition loop_pass :: "('p, 'r, 's) loop_env \<Rightarrow> ('tr, 'w, 'p, 's, 'd, 't) lstate \<Rightarrow>
    (('tr, 'w, 'p, 's, 'd, 't) lstate, 'r) pass_result" where
  "loop_pass env st0 =
     (let st1 = redraw_block env (mode_check st0)
      in if restart_interaction (ifc st1) then Finish st1 True None
      else (let (pending, st4) = prepare_wait env st1
            in if needs_redraw st4 \<and> \<not> pending then Continue st4 else wait_and_handle env st4))"

definition next_pass :: "('tr, 'w, 'p, 's, 'd, 't) lstate \<Rightarrow> ('tr, 'w, 'p, 's, 'd, 't) lstate" where
  "next_pass st = st\<lparr>passes := Suc (passes st)\<rparr>"

text \<open>The loop with fuel: \<open>None\<close> when the fuel runs out before the loop ends.\<close>

fun run_loop :: "nat \<Rightarrow> ('p, 'r, 's) loop_env \<Rightarrow> ('tr, 'w, 'p, 's, 'd, 't) lstate \<Rightarrow>
    (('tr, 'w, 'p, 's, 'd, 't) lstate, 'r) pass_result option" where
  "run_loop 0 env st = None"
| "run_loop (Suc n) env st =
     (case loop_pass env st of
        Continue st' \<Rightarrow> run_loop n env (next_pass st')
      | r \<Rightarrow> Some r)"

text \<open>The loop's prologue: pending redraws are processed, a redraw is needed, this is
  the first pass, the interaction has no start time yet.\<close>

definition loop_init :: "('tr, 'w, 'p, 's) interface \<Rightarrow> ('d, 't) scene_lists \<Rightarrow> nat option \<Rightarrow> bool \<Rightarrow>
    ('tr, 'w, 'p, 's, 'd, 't) lstate" where
  "loop_init i sl pred stale =
     \<lparr>ifc = i\<lparr>interact_time := None\<rparr>, scene = sl, needs_redraw = True, first_pass = True, did_autosave = False,
      old_timeout_time = None, old_redraw_time = None, prediction = pred, redraws_pending = False,
      mode_stale = stale, frames = 0, passes = 0, trace = []\<rparr>"

fun result_state :: "('st, 'r) pass_result \<Rightarrow> 'st" where
  "result_state (Continue st) = st"
| "result_state (Finish st _ _) = st"
| "result_state (Raise st _) = st"
| "result_state (Blocked st) = st"

text \<open>The actions a pass appended to the trace.\<close>

definition new_actions :: "('tr, 'w, 'p, 's, 'd, 't) lstate \<Rightarrow> ('tr, 'w, 'p, 's, 'd, 't) lstate \<Rightarrow> 'p action list" where
  "new_actions st st' = drop (length (trace st)) (trace st')"

text \<open>\<open>st'\<close> extends the trace of \<open>st\<close> by actions in \<open>A\<close> only, and is still in the
  same pass (first or not).\<close>

definition adds :: "('tr, 'w, 'p, 's, 'd, 't) lstate \<Rightarrow> ('tr, 'w, 'p, 's, 'd, 't) lstate \<Rightarrow> 'p action set \<Rightarrow> bool" where
  "adds st st' A = ((\<exists>xs. trace st' = trace st @ xs \<and> set xs \<subseteq> A) \<and> first_pass st' = first_pass st)"

abbreviation draw_actions :: "'p action set" where
  "draw_actions \<equiv> range ADraw \<union> range ASetTimes \<union> {AFocusLast}"

abbreviation event_actions :: "'p action set" where
  "event_actions \<equiv> range AResize \<union> range ADispatch \<union> range AActive"

definition is_set_times :: "'p action \<Rightarrow> bool" where
  "is_set_times a = (case a of ASetTimes _ \<Rightarrow> True | _ \<Rightarrow> False)"

definition is_draw :: "'p action \<Rightarrow> bool" where
  "is_draw a = (case a of ADraw _ \<Rightarrow> True | _ \<Rightarrow> False)"

text \<open>The frames drawn and the latching of the start times, in the order they happened.\<close>

definition frame_log :: "'p action list \<Rightarrow> 'p action list" where
  "frame_log xs = filter (\<lambda>a. is_draw a \<or> is_set_times a) xs"

text \<open>Before the first frame nothing is drawn or latched; from the first frame on, the
  times were latched right after it and never again.\<close>

definition latch_ok :: "('tr, 'w, 'p, 's, 'd, 't) lstate \<Rightarrow> bool" where
  "latch_ok st =
     (if first_pass st then frame_log (trace st) = []
      else \<exists>t it ys. frame_log (trace st) = ADraw t # ASetTimes it # ys \<and> (\<forall>a \<in> set ys. is_draw a))"

text \<open>What the loop leaves alone: the scene lists' at-lists, the old scene and the
  ongoing transitions.\<close>

definition loop_frame :: "('tr, 'w, 'p, 's, 'd, 't) lstate \<Rightarrow> ('tr, 'w, 'p, 's, 'd, 't) lstate \<Rightarrow> bool" where
  "loop_frame st st' =
     (at_list (scene st') = at_list (scene st) \<and> old_scene (ifc st') = old_scene (ifc st) \<and>
      ongoing_transition (ifc st') = ongoing_transition (ifc st))"

text \<open>An event is ready for \<open>event_peek\<close>: one is pushed back, or the queue holds one
  that a redraw does not discard.\<close>

definition event_ready :: "('tr, 'w, 'p, 's, 'd, 't) lstate \<Rightarrow> bool" where
  "event_ready st =
     ((pushed_event (ifc st) \<noteq> None \<or> (\<exists>e \<in> set (pg_queue (ifc st)). e \<noteq> RedrawEvent)) \<and>
      NoEvent \<notin> set (pg_queue (ifc st)))"

text \<open>The next event the loop will take is \<open>e\<close>, pushed back or at the head of the
  queue, with \<open>q\<close> queued behind it.\<close>

definition next_event :: "'p event \<Rightarrow> 'p event list \<Rightarrow> ('tr, 'w, 'p, 's, 'd, 't) lstate \<Rightarrow> bool" where
  "next_event e q st =
     ((pushed_event (ifc st) = Some e \<and> pg_queue (ifc st) = q) \<or>
      (pushed_event (ifc st) = None \<and> pg_queue (ifc st) = e # q))"

subsection \<open>An example environment\<close>

definition demo_handle :: "nat event \<Rightarrow> bool \<Rightarrow> nat handled" where
  "demo_handle e f =
     (case e of
        InputEvent p \<Rightarrow> \<lparr>outcome = (if p = 0 then NoResult else Returned p), h_restart = False, h_redraw = False,
                          h_timeouts = []\<rparr>
      | _ \<Rightarrow> \<lparr>outcome = NoResult, h_restart = False, h_redraw = False, h_timeouts = []\<rparr>)"

definition demo_env :: "(nat, nat, unit) loop_env" where
  "demo_env = \<lparr>clock = (\<lambda>n. real n + 1), should_redraw = (\<lambda>_ _. True), movie_playing = False,
     redraw_deadline = None, audio_event = (\<lambda>_. False), joystick = Some, handle = demo_handle,
     quit_action = True, shot = (), trans_pause_arg = False, result_truthy = (\<lambda>_. True)\<rparr>"

definition demo_loop :: "nat event list \<Rightarrow> (nat, nat, nat, unit, demo_disp, unit) lstate" where
  "demo_loop q = loop_init ((init_interface 0)\<lparr>pg_queue := q\<rparr>) demo_sl None False"


section \<open>Properties of the event loop\<close>

subsection \<open>Traces\<close>

named_theorems trace_simps \<open>blocks of a pass that leave the trace alone\<close>

lemma adds_refl [intro]: "trace st' = trace st \<Longrightarrow> first_pass st' = first_pass st \<Longrightarrow> adds st st' A"
  unfolding adds_def by (intro conjI exI [of _ "[]"]) simp_all

lemma adds_emit [intro]: "a \<in> A \<Longrightarrow> adds st (emit a st) A"
  unfolding adds_def emit_def by auto

lemma adds_trans: "adds s1 s2 A \<Longrightarrow> adds s2 s3 B \<Longrightarrow> adds s1 s3 (A \<union> B)"
  unfolding adds_def by force

lemma adds_mono: "adds s1 s2 A \<Longrightarrow> A \<subseteq> B \<Longrightarrow> adds s1 s2 B"
  unfolding adds_def by blast

lemma adds_cong: "trace s2 = trace s2' \<Longrightarrow> first_pass s2 = first_pass s2' \<Longrightarrow> adds s1 s2 A = adds s1 s2' A"
  by (simp add: adds_def)

lemma adds_from: "trace st = trace st0 \<Longrightarrow> first_pass st = first_pass st0 \<Longrightarrow> adds st st' A \<Longrightarrow> adds st0 st' A"
  by (simp add: adds_def)

lemma adds_new_actions: "adds st st' A \<Longrightarrow> trace st' = trace st @ new_actions st st' \<and> set (new_actions st st') \<subseteq> A"
  by (auto simp: adds_def new_actions_def)

lemma trace_take_kind [simp, trace_simps]: "trace (snd (take_kind P st)) = trace st"
  by (simp add: take_kind_def)

lemma trace_peek [simp, trace_simps]: "trace (snd (peek st)) = trace st"
  by (simp add: peek_def split: prod.split)

lemma trace_process_redraws [simp, trace_simps]: "trace (snd (process_redraws st)) = trace st"
  by (simp add: process_redraws_def)

lemma trace_timer_block [simp, trace_simps]: "trace (snd (snd (timer_block env st))) = trace st"
  by (simp add: timer_block_def Let_def split: option.split prod.split)

lemma trace_get_event: "get_event env st = Some (e, st') \<Longrightarrow> trace st' = trace st \<and> first_pass st' = first_pass st"
  by (auto simp: get_event_def split: prod.splits if_splits)

lemma first_pass_frame [simp, trace_simps]:
  "first_pass (snd (take_kind P st)) = first_pass st"
  "first_pass (snd (peek st)) = first_pass st"
  "first_pass (snd (process_redraws st)) = first_pass st"
  "first_pass (snd (snd (timer_block env st))) = first_pass st"
  "first_pass (result_state (after_event st)) = first_pass st"
  by (simp_all add: take_kind_def peek_def split_beta process_redraws_def timer_block_def Let_def after_event_def
      split: option.split)

lemma mode_check_adds: "adds st (mode_check st) {ASetMode}"
  by (auto simp: mode_check_def adds_def emit_def)

lemma redraw_block_trace: "\<exists>xs. trace (redraw_block env st) = trace st @ xs \<and> set xs \<subseteq> draw_actions"
  by (auto simp: redraw_block_def adds_def emit_def Let_def take_kind_def)

lemma predict_loop_step:
  "predict_loop env k st =
     (if needs_redraw st then st
      else if fst (peek st) \<or> movie_playing env then snd (peek st)
      else case k of 0 \<Rightarrow> (emit APredict (snd (peek st)))\<lparr>prediction := None\<rparr>
           | Suc k' \<Rightarrow> predict_loop env k' ((emit APredict (snd (peek st)))\<lparr>prediction := Some k'\<rparr>))"
  by (subst predict_loop.simps) (simp add: split_beta)

declare predict_loop.simps [simp del]

lemma predict_loop_adds: "adds st (predict_loop env k st) {APredict}"
proof (induction k arbitrary: st)
  case 0
  then show ?case by (auto simp: predict_loop_step adds_def emit_def)
next
  case (Suc k)
  have e: "adds st ((emit APredict (snd (peek st)))\<lparr>prediction := Some k\<rparr>) {APredict}"
    by (auto simp: adds_def emit_def)
  show ?case
    using adds_trans [OF e Suc.IH] by (auto simp: predict_loop_step)
qed

lemma autosave_block_adds: "adds st (autosave_block r st) {AAutosave}"
  by (auto simp: autosave_block_def adds_def emit_def split_beta)

lemma trace_after_event [simp]: "trace (result_state (after_event st)) = trace st"
  by (simp add: after_event_def process_redraws_def Let_def)

lemma dispatch_adds: "adds st (result_state (dispatch env ev st)) event_actions"
proof -
  have "adds st (emit (ADispatch ev) st) event_actions" by auto
  then show ?thesis
    by (auto simp: dispatch_def Let_def adds_def emit_def split: outcome.split)
qed

lemma resize_event_adds: "adds st (resize_event ev st) event_actions"
  by (auto simp: resize_event_def Let_def split_beta adds_def emit_def take_kind_def)

lemma dispatch_adds_from:
  "trace st' = trace st \<Longrightarrow> first_pass st' = first_pass st \<Longrightarrow> adds st (result_state (dispatch env e st')) event_actions"
  using dispatch_adds [of st' env e] by (simp add: adds_def)

lemma dispatch_adds_after:
  "adds st s' event_actions \<Longrightarrow> adds st (result_state (dispatch env e s')) event_actions"
  using adds_trans [OF _ dispatch_adds, of st s' event_actions env e] by simp

lemma active_event_adds_from:
  "trace s = trace st \<Longrightarrow> first_pass s = first_pass st \<Longrightarrow> adds st (active_event ev s) event_actions"
  by (auto simp: active_event_def Let_def adds_def emit_def split: event.split)

lemma input_event_adds: "adds st (result_state (input_event env ev st)) event_actions"
  unfolding input_event_def Let_def split_beta
  by (rule dispatch_adds_after, rule active_event_adds_from) (simp_all add: split_beta take_kind_def split: event.split)

lemma trace_merge_time [simp, trace_simps]: "trace (merge_time ev st) = trace st"
  by (simp add: merge_time_def)

lemma first_pass_merge_time [simp, trace_simps]: "first_pass (merge_time ev st) = first_pass st"
  by (simp add: merge_time_def)

lemma classify_event_adds: "adds st (result_state (classify_event env ev st)) event_actions"
  unfolding classify_event_def
  by (auto simp: split_beta take_kind_def resize_event_adds input_event_adds split: option.split sum.split)

lemma handle_event_adds: "adds st (result_state (handle_event env ev st)) event_actions"
  using classify_event_adds [of "merge_time ev st" env ev] by (auto simp: handle_event_def adds_def)

lemma predict_block_adds: "adds st (predict_block env st) {APredict}"
  by (auto simp: predict_block_def predict_loop_adds split: option.split)

lemma adds_to: "adds st s A \<Longrightarrow> trace s' = trace s \<Longrightarrow> first_pass s' = first_pass s \<Longrightarrow> adds st s' A"
  by (simp add: adds_def)

lemma prepare_wait_trace:
  "trace (snd (prepare_wait env st)) =
     trace (predict_block env (if needs_redraw st then st\<lparr>needs_redraw := True\<rparr>
                               else st\<lparr>redraws_pending := False, needs_redraw := redraws_pending st\<rparr>))"
  by (cases "needs_redraw st") (simp_all add: prepare_wait_def process_redraws_def split_beta Let_def)

lemma first_pass_prepare_wait:
  "first_pass (snd (prepare_wait env st)) =
     first_pass (predict_block env (if needs_redraw st then st\<lparr>needs_redraw := True\<rparr>
                               else st\<lparr>redraws_pending := False, needs_redraw := redraws_pending st\<rparr>))"
  by (cases "needs_redraw st") (simp_all add: prepare_wait_def process_redraws_def split_beta Let_def)

lemma prepare_wait_adds: "adds st (snd (prepare_wait env st)) {APredict}"
proof -
  have "trace (if needs_redraw st then st\<lparr>needs_redraw := True\<rparr>
      else st\<lparr>redraws_pending := False, needs_redraw := redraws_pending st\<rparr>) = trace st"
    by simp
  moreover have "first_pass (if needs_redraw st then st\<lparr>needs_redraw := True\<rparr>
      else st\<lparr>redraws_pending := False, needs_redraw := redraws_pending st\<rparr>) = first_pass st"
    by simp
  ultimately show ?thesis
    using adds_to [OF adds_from [OF _ _ predict_block_adds] prepare_wait_trace [of env st] first_pass_prepare_wait [of env st]]
    by blast
qed

lemma wait_and_handle_adds:
  "adds st (result_state (wait_and_handle env st)) ({AAutosave} \<union> event_actions)"
proof -
  define s5 where "s5 = snd (snd (timer_block env st))"
  define s6 where "s6 = autosave_block (fst (snd (timer_block env st))) s5"
  have "trace s5 = trace st" "first_pass s5 = first_pass st" by (simp_all add: s5_def)
  from adds_from [OF this autosave_block_adds [of s5 "fst (snd (timer_block env st))"]]
  have a6: "adds st s6 {AAutosave}" by (simp add: s6_def)
  have h: "adds s6 (result_state (handle_event env e s7)) event_actions"
    if "trace s7 = trace s6 \<and> first_pass s7 = first_pass s6" for e s7
    using adds_from [OF _ _ handle_event_adds] that by blast
  have "adds s6 (result_state (case fst (timer_block env st) of Some e \<Rightarrow> handle_event env e s6
      | None \<Rightarrow> (case get_event env s6 of None \<Rightarrow> Blocked s6 | Some (ev, s7) \<Rightarrow> handle_event env ev s7))) event_actions"
    by (auto intro: h dest: trace_get_event split: option.split)
  from adds_trans [OF a6 this] show ?thesis
    unfolding wait_and_handle_def Let_def split_beta s6_def s5_def .
qed

lemma adds_after_redraw:
  "adds (redraw_block env (mode_check st)) (result_state (loop_pass env st)) ({APredict, AAutosave} \<union> event_actions)"
proof -
  define s1 where "s1 = redraw_block env (mode_check st)"
  have p: "adds s1 (snd (prepare_wait env s1)) ({APredict, AAutosave} \<union> event_actions)"
    by (rule adds_mono [OF prepare_wait_adds]) auto
  have w: "adds s1 (result_state (wait_and_handle env (snd (prepare_wait env s1)))) ({APredict, AAutosave} \<union> event_actions)"
    using adds_trans [OF prepare_wait_adds wait_and_handle_adds] by (rule adds_mono) auto
  have "adds s1 s1 ({APredict, AAutosave} \<union> event_actions)" by auto
  with p w show ?thesis
    unfolding loop_pass_def Let_def split_beta s1_def [symmetric] by auto
qed

subsection \<open>Restart, redraw and prediction within a pass\<close>

lemma mode_check_frame [simp]:
  "ifc (mode_check st) = ifc st" "first_pass (mode_check st) = first_pass st"
  by (simp_all add: mode_check_def emit_def)

lemma restart_redraw_block [simp]:
  "restart_interaction (ifc (redraw_block env st)) = restart_interaction (ifc st)"
  "pushed_event (ifc (redraw_block env st)) = pushed_event (ifc st)"
  by (simp_all add: redraw_block_def Let_def emit_def take_kind_def)

lemma pass_head_adds:
  "\<exists>xs. trace (redraw_block env (mode_check st)) = trace st @ xs \<and> set xs \<subseteq> {ASetMode} \<union> draw_actions"
proof -
  obtain xs where "trace (mode_check st) = trace st @ xs" "set xs \<subseteq> {ASetMode}"
    using mode_check_adds [of st] by (auto simp: adds_def)
  moreover obtain ys where "trace (redraw_block env (mode_check st)) = trace (mode_check st) @ ys" "set ys \<subseteq> draw_actions"
    using redraw_block_trace by blast
  ultimately show ?thesis by (intro exI [of _ "xs @ ys"]) auto
qed

text \<open>
  C19. A requested restart short-circuits the loop: when \<open>restart_interaction\<close> is set,
  the pass returns \<open>(True, None)\<close> right after the redraw check, without handling or
  dispatching any event.
\<close>

theorem restart_short_circuits:
  assumes "restart_interaction (ifc st)"
  shows "\<exists>st'. loop_pass env st = Finish st' True None \<and> (\<forall>e. ADispatch e \<notin> set (new_actions st st'))"
proof -
  obtain xs where t: "trace (redraw_block env (mode_check st)) = trace st @ xs" and x: "set xs \<subseteq> {ASetMode} \<union> draw_actions"
    using pass_head_adds by blast
  have "\<forall>e. ADispatch e \<notin> set xs" using x by auto
  with assms t show ?thesis
    by (auto simp: loop_pass_def Let_def new_actions_def)
qed

theorem restart_short_circuits_witness:
  "\<exists>st'. loop_pass demo_env ((demo_loop [InputEvent 3])\<lparr>ifc := (ifc (demo_loop [InputEvent 3]))\<lparr>restart_interaction := True\<rparr>\<rparr>)
     = Finish st' True None"
proof -
  have "restart_interaction (ifc ((demo_loop [InputEvent 3])\<lparr>ifc := (ifc (demo_loop [InputEvent 3]))\<lparr>restart_interaction := True\<rparr>\<rparr>))"
    by simp
  from restart_short_circuits [OF this, of demo_env] show ?thesis by blast
qed

lemma redraw_block_draws:
  assumes "force_redraw (ifc st) \<or> (first_pass st \<and> should_redraw env (needs_redraw st) True)"
  shows "\<exists>ys. trace (redraw_block env st) = trace st @ ADraw (now_of env st) # ys"
  using assms by (auto simp: redraw_block_def Let_def emit_def take_kind_def)

text \<open>
  C20. Redraw before dispatch: when a redraw is forced, or on the first pass of an
  interaction when the pacing policy agrees, the pass draws the screen before anything
  else it does (only a mode reset may come first), so no event is dispatched before it.
\<close>

theorem redraw_precedes_dispatch:
  assumes "force_redraw (ifc st) \<or> (first_pass st \<and> (\<forall>b. should_redraw env b True))"
  shows "\<exists>xs t ys. new_actions st (result_state (loop_pass env st)) = xs @ ADraw t # ys \<and> set xs \<subseteq> {ASetMode}"
proof -
  obtain xs where m: "trace (mode_check st) = trace st @ xs" "set xs \<subseteq> {ASetMode}"
    using mode_check_adds [of st] by (auto simp: adds_def)
  have "force_redraw (ifc (mode_check st)) \<or> (first_pass (mode_check st) \<and> should_redraw env (needs_redraw (mode_check st)) True)"
    using assms by auto
  then obtain ys where d: "trace (redraw_block env (mode_check st)) = trace (mode_check st) @ ADraw (now_of env (mode_check st)) # ys"
    using redraw_block_draws by blast
  obtain zs where "trace (result_state (loop_pass env st)) = trace (redraw_block env (mode_check st)) @ zs"
    using adds_after_redraw [of env st] by (auto simp: adds_def)
  with m d show ?thesis
    by (intro exI [of _ xs] exI [of _ "now_of env (mode_check st)"] exI [of _ "ys @ zs"]) (simp add: new_actions_def)
qed

theorem redraw_precedes_dispatch_witness:
  "\<exists>xs t ys. new_actions (demo_loop [InputEvent 3]) (result_state (loop_pass demo_env (demo_loop [InputEvent 3]))) =
     xs @ ADraw t # ys \<and> set xs \<subseteq> {ASetMode}"
proof -
  have "force_redraw (ifc (demo_loop [InputEvent 3])) \<or>
      (first_pass (demo_loop [InputEvent 3]) \<and> (\<forall>b. should_redraw demo_env b True))"
    by (simp add: demo_loop_def loop_init_def demo_env_def)
  from redraw_precedes_dispatch [OF this] show ?thesis .
qed

lemma event_ready_peek: "event_ready st \<Longrightarrow> fst (peek st)"
  by (auto simp: event_ready_def peek_def event_peek_def pg_poll_def split: option.split list.split)

lemma event_ready_redraw: "event_ready st \<Longrightarrow> event_ready (redraw_block env (mode_check st))"
  by (auto simp: event_ready_def redraw_block_def Let_def emit_def take_kind_def)

lemma event_ready_flags [simp]:
  "event_ready (st\<lparr>needs_redraw := b\<rparr>) = event_ready st"
  "event_ready (st\<lparr>redraws_pending := b'\<rparr>) = event_ready st"
  by (simp_all add: event_ready_def)

lemma predict_block_ready: "event_ready st \<Longrightarrow> trace (predict_block env st) = trace st"
  by (auto simp: predict_block_def predict_loop_step event_ready_peek split: option.split)

text \<open>
  C22. The prediction coroutine never runs while an event is pending: when an event is
  pushed back or queued (other than a redraw tick), a pass takes no prediction step.
\<close>

theorem no_prediction_with_pending_event:
  assumes "pushed_event (ifc st) \<noteq> None \<or> (\<exists>e \<in> set (pg_queue (ifc st)). e \<noteq> RedrawEvent)"
    and "NoEvent \<notin> set (pg_queue (ifc st))"
  shows "APredict \<notin> set (new_actions st (result_state (loop_pass env st)))"
proof -
  define s1 where "s1 = redraw_block env (mode_check st)"
  have "event_ready st" using assms by (simp add: event_ready_def)
  then have r1: "event_ready s1" unfolding s1_def by (rule event_ready_redraw)
  obtain xs where h: "trace s1 = trace st @ xs" "set xs \<subseteq> {ASetMode} \<union> draw_actions"
    using pass_head_adds [of env st] by (auto simp: s1_def)
  have "event_ready (if needs_redraw s1 then s1\<lparr>needs_redraw := True\<rparr>
      else s1\<lparr>redraws_pending := False, needs_redraw := redraws_pending s1\<rparr>)"
    using r1 by (simp add: event_ready_def)
  from predict_block_ready [OF this, of env] have pw: "trace (snd (prepare_wait env s1)) = trace s1"
    using prepare_wait_trace [of env s1] by simp
  obtain zs where w: "trace (result_state (wait_and_handle env (snd (prepare_wait env s1)))) = trace s1 @ zs"
      "set zs \<subseteq> {AAutosave} \<union> event_actions"
    using wait_and_handle_adds [of "snd (prepare_wait env s1)" env] pw by (auto simp: adds_def)
  have "trace (result_state (loop_pass env st)) \<in> {trace s1, trace (snd (prepare_wait env s1)),
      trace (result_state (wait_and_handle env (snd (prepare_wait env s1))))}"
    by (auto simp: loop_pass_def Let_def split_beta s1_def [symmetric])
  then obtain ys where "trace (result_state (loop_pass env st)) = trace s1 @ ys" "APredict \<notin> set ys"
    using pw w by auto
  with h show ?thesis by (auto simp: new_actions_def)
qed

theorem no_prediction_with_pending_event_witness:
  "APredict \<notin> set (new_actions ((demo_loop [InputEvent 3])\<lparr>prediction := Some 5\<rparr>)
     (result_state (loop_pass demo_env ((demo_loop [InputEvent 3])\<lparr>prediction := Some 5\<rparr>))))"
proof -
  have "pushed_event (ifc ((demo_loop [InputEvent 3])\<lparr>prediction := Some 5\<rparr>)) \<noteq> None \<or>
      (\<exists>e \<in> set (pg_queue (ifc ((demo_loop [InputEvent 3])\<lparr>prediction := Some 5\<rparr>))). e \<noteq> RedrawEvent)"
    "NoEvent \<notin> set (pg_queue (ifc ((demo_loop [InputEvent 3])\<lparr>prediction := Some 5\<rparr>)))"
    by (simp_all add: demo_loop_def loop_init_def init_interface_def)
  from no_prediction_with_pending_event [OF this] show ?thesis .
qed

subsection \<open>The start times are latched once\<close>

lemma adds_latch_ok:
  assumes "adds s s' A" and "\<forall>a \<in> A. \<not> is_set_times a \<and> \<not> is_draw a" and "latch_ok s"
  shows "latch_ok s'"
proof -
  obtain xs where "trace s' = trace s @ xs" "set xs \<subseteq> A" "first_pass s' = first_pass s"
    using assms(1) by (auto simp: adds_def)
  moreover have "frame_log xs = []" using calculation(2) assms(2) by (auto simp: frame_log_def filter_empty_conv)
  ultimately show ?thesis using assms(3) unfolding latch_ok_def frame_log_def by (simp split: if_splits)
qed

lemma redraw_block_latch: "latch_ok st \<Longrightarrow> latch_ok (redraw_block env st)"
  by (fastforce simp: latch_ok_def frame_log_def redraw_block_def Let_def emit_def take_kind_def
      is_set_times_def is_draw_def)

lemma loop_pass_latch: "latch_ok st \<Longrightarrow> latch_ok (result_state (loop_pass env st))"
proof -
  assume l: "latch_ok st"
  have "latch_ok (mode_check st)"
    by (rule adds_latch_ok [OF mode_check_adds _ l]) (simp add: is_set_times_def is_draw_def)
  then have "latch_ok (redraw_block env (mode_check st))" by (rule redraw_block_latch)
  then show ?thesis
    by (rule adds_latch_ok [OF adds_after_redraw, rotated]) (auto simp: is_set_times_def is_draw_def)
qed

lemma latch_ok_next_pass [simp]: "latch_ok (next_pass st) = latch_ok st"
  by (simp add: latch_ok_def next_pass_def)

lemma run_loop_latch: "run_loop n env st = Some r \<Longrightarrow> latch_ok st \<Longrightarrow> latch_ok (result_state r)"
proof (induction n arbitrary: st)
  case 0
  then show ?case by simp
next
  case (Suc n)
  show ?case
  proof (cases "loop_pass env st")
    case (Continue st')
    then have "latch_ok (next_pass st')" using loop_pass_latch [OF Suc.prems(2), of env] by simp
    with Suc.IH [of "next_pass st'"] Suc.prems(1) Continue show ?thesis by simp
  qed (use Suc.prems loop_pass_latch [OF Suc.prems(2), of env] in auto)
qed

text \<open>
  C21. Start times are latched on the first frame: in any run of the loop from its
  prologue, the frames drawn and the latching of the scene lists' unset show and animation
  times (\<open>set_times\<close>) happen in this order: none at all, or the first frame, right
  after it the one latching, and then frames only.
\<close>

theorem set_times_latched_once:
  assumes "run_loop n env (loop_init i sl pred stale) = Some r"
  shows "frame_log (trace (result_state r)) = [] \<or>
     (\<exists>t it ys. frame_log (trace (result_state r)) = ADraw t # ASetTimes it # ys \<and> (\<forall>a \<in> set ys. is_draw a))"
proof -
  have "latch_ok (loop_init i sl pred stale)" by (simp add: latch_ok_def frame_log_def loop_init_def)
  from run_loop_latch [OF assms this] show ?thesis by (auto simp: latch_ok_def split: if_splits)
qed

subsection \<open>Progress: the next input event is handled\<close>

lemma next_event_peek:
  "next_event e q st \<Longrightarrow> e \<noteq> NoEvent \<Longrightarrow> fst (peek st) \<and> next_event e q (snd (peek st))"
  by (auto simp: next_event_def peek_def event_peek_def pg_poll_def)

lemma next_event_flags [simp]:
  "next_event e q (st\<lparr>needs_redraw := b\<rparr>) = next_event e q st"
  "next_event e q (st\<lparr>redraws_pending := b\<rparr>) = next_event e q st"
  "next_event e q (st\<lparr>prediction := k\<rparr>) = next_event e q st"
  "next_event e q (st\<lparr>did_autosave := c\<rparr>) = next_event e q st"
  "next_event e q (emit a st) = next_event e q st"
  by (simp_all add: next_event_def emit_def)

lemma next_event_predict_loop:
  "next_event e q st \<Longrightarrow> e \<noteq> NoEvent \<Longrightarrow> next_event e q (predict_loop env k st)"
  by (cases k) (auto simp: predict_loop_step dest: next_event_peek)

lemma next_event_prepare_wait:
  assumes "next_event e q st" and "e \<noteq> NoEvent"
  shows "\<not> (needs_redraw (snd (prepare_wait env st)) \<and> \<not> fst (prepare_wait env st)) \<and>
     next_event e q (snd (prepare_wait env st))"
proof -
  define s3 where "s3 = predict_block env (if needs_redraw st then st\<lparr>needs_redraw := True\<rparr>
      else st\<lparr>redraws_pending := False, needs_redraw := redraws_pending st\<rparr>)"
  have n3: "next_event e q s3"
    using assms by (auto simp: s3_def predict_block_def next_event_predict_loop split: option.split)
  have "prepare_wait env st = (if needs_redraw s3 then peek s3 else (True, s3))"
    by (cases "needs_redraw st") (simp_all add: prepare_wait_def process_redraws_def split_beta Let_def s3_def)
  with n3 assms(2) show ?thesis by (auto dest: next_event_peek)
qed

lemma timer_block_untimed:
  "\<not> truthy_time (timeout_time (ifc st)) \<Longrightarrow>
     fst (timer_block env st) = None \<and> ifc (snd (snd (timer_block env st))) = ifc st"
  by (auto simp: timer_block_def Let_def split: option.split)

lemma next_event_ifc: "ifc st' = ifc st \<Longrightarrow> next_event e q st' = next_event e q st"
  by (simp add: next_event_def)

lemma next_event_autosave:
  "next_event e q st \<Longrightarrow> e \<noteq> NoEvent \<Longrightarrow> next_event e q (autosave_block r st)"
  by (auto simp: autosave_block_def split_beta dest: next_event_peek)

lemma next_event_get_event:
  "next_event e q st \<Longrightarrow>
     \<exists>st'. get_event env st = Some (e, st') \<and> pushed_event (ifc st') = None \<and> pg_queue (ifc st') = q \<and>
       (\<forall>i. ifc st' = i \<longrightarrow> restart_interaction i = restart_interaction (ifc st) \<and> timeout_time i = timeout_time (ifc st))"
  by (auto simp: next_event_def get_event_def event_poll_def event_wait_def pg_poll_def pg_wait_def
      serve_bg_screenshot_def)

lemma next_event_redraw:
  assumes "next_event e q st" and "e \<noteq> RedrawEvent"
  shows "\<exists>q'. (q' = q \<or> q' = filter (\<lambda>e. e \<noteq> RedrawEvent) q) \<and> next_event e q' (redraw_block env (mode_check st)) \<and>
     restart_interaction (ifc (redraw_block env (mode_check st))) = restart_interaction (ifc st) \<and>
     timeout_time (ifc (redraw_block env (mode_check st))) = timeout_time (ifc st)"
  using assms by (auto simp: next_event_def redraw_block_def Let_def emit_def take_kind_def)

lemma input_event_plain:
  "input_event env (InputEvent x) st = dispatch env (InputEvent x) st"
  by (simp add: input_event_def is_mouse_def is_motion_def active_event_def)

lemma ifc_frame_peek [simp]:
  "restart_interaction (ifc (snd (peek st))) = restart_interaction (ifc st)"
  "timeout_time (ifc (snd (peek st))) = timeout_time (ifc st)"
  by (simp_all add: peek_def event_peek_def pg_poll_def split_beta split: option.split list.split)

lemma ifc_frame_predict_loop:
  "restart_interaction (ifc (predict_loop env k st)) = restart_interaction (ifc st) \<and>
   timeout_time (ifc (predict_loop env k st)) = timeout_time (ifc st)"
proof (induction k arbitrary: st)
  case 0
  show ?case by (simp add: predict_loop_step [of env 0 st] emit_def)
next
  case (Suc k)
  show ?case by (simp add: predict_loop_step [of env "Suc k" st] emit_def Suc.IH)
qed

lemma ifc_frame_prepare_wait [simp]:
  "restart_interaction (ifc (snd (prepare_wait env st))) = restart_interaction (ifc st)"
  "timeout_time (ifc (snd (prepare_wait env st))) = timeout_time (ifc st)"
  by (simp_all add: prepare_wait_def process_redraws_def split_beta Let_def predict_block_def
      ifc_frame_predict_loop split: option.split)

lemma ifc_frame_autosave [simp]:
  "restart_interaction (ifc (autosave_block r st)) = restart_interaction (ifc st)"
  "timeout_time (ifc (autosave_block r st)) = timeout_time (ifc st)"
  by (simp_all add: autosave_block_def split_beta emit_def)

lemma pass_dispatches_input:
  assumes "\<not> restart_interaction (ifc st)" and "next_event (InputEvent x) q st"
    and "\<not> truthy_time (timeout_time (ifc st))"
    and "joystick env (InputEvent x) = Some (InputEvent x)" and "\<not> audio_event env (InputEvent x)"
  shows "\<exists>st'' q'. loop_pass env st = dispatch env (InputEvent x) st'' \<and> \<not> restart_interaction (ifc st'') \<and>
     pushed_event (ifc st'') = None \<and> (q' = q \<or> q' = filter (\<lambda>e. e \<noteq> RedrawEvent) q) \<and> pg_queue (ifc st'') = q' \<and>
     timeout_time (ifc st'') = timeout_time (ifc st)"
proof -
  define s1 where "s1 = redraw_block env (mode_check st)"
  obtain q' where q': "q' = q \<or> q' = filter (\<lambda>e. e \<noteq> RedrawEvent) q" and n1: "next_event (InputEvent x) q' s1"
    and r1: "restart_interaction (ifc s1) = restart_interaction (ifc st)" and t1: "timeout_time (ifc s1) = timeout_time (ifc st)"
    using next_event_redraw [OF assms(2), of env] by (auto simp: s1_def)
  define s4 where "s4 = snd (prepare_wait env s1)"
  have c4: "\<not> (needs_redraw s4 \<and> \<not> fst (prepare_wait env s1))" and n4: "next_event (InputEvent x) q' s4"
    using next_event_prepare_wait [OF n1, of env] by (simp_all add: s4_def)
  have r4: "\<not> restart_interaction (ifc s4)" "\<not> truthy_time (timeout_time (ifc s4))"
    using r1 t1 assms(1,3) by (simp_all add: s4_def)
  have t4: "timeout_time (ifc s4) = timeout_time (ifc st)" using t1 by (simp add: s4_def)
  define s6 where "s6 = autosave_block (fst (snd (timer_block env s4))) (snd (snd (timer_block env s4)))"
  have tb: "fst (timer_block env s4) = None" "ifc (snd (snd (timer_block env s4))) = ifc s4"
    using timer_block_untimed [OF r4(2), of env] by auto
  have n6: "next_event (InputEvent x) q' s6"
    unfolding s6_def by (rule next_event_autosave) (simp_all add: next_event_ifc [OF tb(2)] n4)
  have i6: "restart_interaction (ifc s6) = restart_interaction (ifc s4)" "timeout_time (ifc s6) = timeout_time (ifc s4)"
    using tb(2) by (simp_all add: s6_def)
  obtain s7 where g: "get_event env s6 = Some (InputEvent x, s7)" and p7: "pushed_event (ifc s7) = None"
    and q7: "pg_queue (ifc s7) = q'" and f7: "restart_interaction (ifc s7) = restart_interaction (ifc s6)"
    "timeout_time (ifc s7) = timeout_time (ifc s6)"
    using next_event_get_event [OF n6, of env] by blast
  have wh: "wait_and_handle env s4 = dispatch env (InputEvent x) s7"
    using tb g assms(4,5)
    by (simp add: wait_and_handle_def Let_def split_beta s6_def [symmetric] handle_event_def merge_time_def
        classify_event_def is_periodic_def is_resize_def input_event_plain)
  have "loop_pass env st = wait_and_handle env s4"
    using r1 assms(1) c4 by (auto simp: loop_pass_def Let_def split_beta s1_def [symmetric] s4_def)
  moreover have "\<not> restart_interaction (ifc s7)" "timeout_time (ifc s7) = timeout_time (ifc st)"
    using f7 i6 r4(1) t4 by auto
  ultimately show ?thesis using wh p7 q7 q' by (intro exI [of _ s7] exI [of _ q']) simp
qed

lemma dispatch_no_result:
  assumes "outcome (handle env ev (focused (ifc st))) = NoResult" and "\<not> h_restart (handle env ev (focused (ifc st)))"
    and "h_timeouts (handle env ev (focused (ifc st))) = []" and "\<not> restart_interaction (ifc st)"
  shows "\<exists>st'. dispatch env ev st = Continue st' \<and> \<not> restart_interaction (ifc st') \<and>
     pushed_event (ifc st') = pushed_event (ifc st) \<and> pg_queue (ifc st') = pg_queue (ifc st) \<and>
     timeout_time (ifc st') = timeout_time (ifc st)"
  using assms by (simp add: dispatch_def Let_def after_event_def process_redraws_def emit_def)

lemma dispatch_returned:
  "outcome (handle env ev (focused (ifc st))) = Returned r \<Longrightarrow> \<exists>st'. dispatch env ev st = Finish st' False (Some r)"
  by (simp add: dispatch_def Let_def)

lemma filter_map_input [simp]:
  "filter (\<lambda>e. e \<noteq> RedrawEvent) (map InputEvent ps @ e # q) =
     map InputEvent ps @ filter (\<lambda>e. e \<noteq> RedrawEvent) (e # q)"
  by (induction ps) auto

lemma run_loop_next_pass_ifc [simp]: "ifc (next_pass st) = ifc st"
  by (simp add: next_pass_def)

text \<open>
  C23. Progress: if the handlers ignore the first queued input events (no result, no
  restart, no timeout) and return \<open>r\<close> for the next one, and no timeout is pending, the
  loop returns \<open>(False, r)\<close> within one pass per event: enough fuel gives the result.
\<close>

theorem input_resolves_within_fuel:
  assumes "\<not> restart_interaction (ifc st)" and "pushed_event (ifc st) = None"
    and "pg_queue (ifc st) = map InputEvent ps @ InputEvent p # q"
    and "\<not> truthy_time (timeout_time (ifc st))"
    and "\<forall>x \<in> set (p # ps). joystick env (InputEvent x) = Some (InputEvent x) \<and> \<not> audio_event env (InputEvent x)"
    and "\<forall>x \<in> set ps. \<forall>f. outcome (handle env (InputEvent x) f) = NoResult \<and> \<not> h_restart (handle env (InputEvent x) f) \<and>
           h_timeouts (handle env (InputEvent x) f) = []"
    and "\<forall>f. outcome (handle env (InputEvent p) f) = Returned r"
  shows "\<exists>st'. run_loop (length ps + Suc n) env st = Some (Finish st' False (Some r))"
  using assms
proof (induction ps arbitrary: st q)
  case Nil
  have "next_event (InputEvent p) q st" using Nil.prems(2,3) by (simp add: next_event_def)
  then obtain st'' where "loop_pass env st = dispatch env (InputEvent p) st''"
    using pass_dispatches_input [of st p q env] Nil.prems by auto
  then show ?case using dispatch_returned [of env "InputEvent p" st'' r] Nil.prems(7) by auto
next
  case (Cons x ps)
  have "next_event (InputEvent x) (map InputEvent ps @ InputEvent p # q) st"
    using Cons.prems(2,3) by (simp add: next_event_def)
  then obtain st'' q' where l: "loop_pass env st = dispatch env (InputEvent x) st''"
    and r'': "\<not> restart_interaction (ifc st'')" and p'': "pushed_event (ifc st'') = None"
    and q': "q' = map InputEvent ps @ InputEvent p # q \<or> q' = filter (\<lambda>e. e \<noteq> RedrawEvent) (map InputEvent ps @ InputEvent p # q)"
    and g'': "pg_queue (ifc st'') = q'" and t'': "timeout_time (ifc st'') = timeout_time (ifc st)"
    using pass_dispatches_input [of st x _ env] Cons.prems(1,4,5) by fastforce
  obtain st3 where d: "dispatch env (InputEvent x) st'' = Continue st3" and r3: "\<not> restart_interaction (ifc st3)"
    and f3: "pushed_event (ifc st3) = None" "pg_queue (ifc st3) = q'" "timeout_time (ifc st3) = timeout_time (ifc st)"
    using dispatch_no_result [of env "InputEvent x" st''] Cons.prems(6) r'' p'' g'' t'' by auto
  obtain q0 where "pg_queue (ifc (next_pass st3)) = map InputEvent ps @ InputEvent p # q0"
    using q' f3(2) by auto
  then obtain st' where "run_loop (length ps + Suc n) env (next_pass st3) = Some (Finish st' False (Some r))"
    using Cons.IH [of "next_pass st3" q0] r3 f3 Cons.prems by auto
  then show ?case using l d by simp
qed

theorem input_resolves_within_fuel_witness:
  "\<exists>st'. run_loop 2 demo_env (demo_loop [InputEvent 0, InputEvent 3]) = Some (Finish st' False (Some 3))"
proof -
  have "\<not> restart_interaction (ifc (demo_loop [InputEvent 0, InputEvent 3]))"
    "pushed_event (ifc (demo_loop [InputEvent 0, InputEvent 3])) = None"
    "pg_queue (ifc (demo_loop [InputEvent 0, InputEvent 3])) = map InputEvent [0] @ InputEvent 3 # []"
    "\<not> truthy_time (timeout_time (ifc (demo_loop [InputEvent 0, InputEvent 3])))"
    "\<forall>x \<in> set [3, 0]. joystick demo_env (InputEvent x) = Some (InputEvent x) \<and> \<not> audio_event demo_env (InputEvent x)"
    "\<forall>x \<in> set [0]. \<forall>f. outcome (handle demo_env (InputEvent x) f) = NoResult \<and> \<not> h_restart (handle demo_env (InputEvent x) f) \<and>
           h_timeouts (handle demo_env (InputEvent x) f) = []"
    "\<forall>f. outcome (handle demo_env (InputEvent 3) f) = Returned 3"
    by (simp_all add: demo_loop_def loop_init_def init_interface_def demo_env_def demo_handle_def)
  from input_resolves_within_fuel [OF this, of 0] show ?thesis by (simp add: numeral_2_eq_2)
qed

subsection \<open>Event merging and timers\<close>

text \<open>
  Periodic ticks are coalesced: a \<open>PERIODIC\<close> event takes every queued
  \<open>PERIODIC\<close> event with it, counts them all into \<open>ticks\<close>, leaves the rest of the
  queue in order, and is not dispatched.
\<close>

lemma periodic_coalesced:
  "\<exists>st'. handle_event env PeriodicEvent st = Continue st' \<and>
     ticks (ifc st') = ticks (ifc st) + 1 + length (filter is_periodic (pg_queue (ifc st))) \<and>
     pg_queue (ifc st') = filter (\<lambda>e. \<not> is_periodic e) (pg_queue (ifc st)) \<and> trace st' = trace st"
  by (simp add: handle_event_def merge_time_def classify_event_def is_periodic_def take_kind_def)

text \<open>
  Every wake-up deadline is capped: the time the loop computes until its next
  redraw or timeout never exceeds 3600 seconds.
\<close>

lemma wakeup_capped: "fst (snd (timer_block env st)) \<le> 3600"
  by (auto simp: timer_block_def Let_def split: option.split)

text \<open>
  C26. The autosave test reads the timeout's time left in place of the redraw deadline:
  when a timeout is pending and not yet due, \<open>redraw_in\<close> is the timeout's time left
  whatever the redraw deadline, and \<open>timeout_in\<close> stays 3600, so an autosave can start
  just before a due redraw.
\<close>

theorem autosave_reads_timeout:
  assumes "timeout_time (ifc st) = Some tt" and "tt \<noteq> 0" and "now_of env st \<le> tt"
  shows "fst (snd (timer_block env st)) = min (tt - now_of env st) 3600"
  using assms by (auto simp: timer_block_def Let_def split: option.split)

theorem autosave_reads_timeout_witness:
  "AAutosave \<in> set (trace (autosave_block
      (fst (snd (timer_block (demo_env\<lparr>redraw_deadline := Some 1.1\<rparr>)
         ((demo_loop [])\<lparr>ifc := (ifc (demo_loop []))\<lparr>timeout_time := Some 11\<rparr>, needs_redraw := False\<rparr>))))
      (snd (snd (timer_block (demo_env\<lparr>redraw_deadline := Some 1.1\<rparr>)
         ((demo_loop [])\<lparr>ifc := (ifc (demo_loop []))\<lparr>timeout_time := Some 11\<rparr>, needs_redraw := False\<rparr>))))))"
proof -
  let ?env = "demo_env\<lparr>redraw_deadline := Some 1.1\<rparr>"
  let ?st = "(demo_loop [])\<lparr>ifc := (ifc (demo_loop []))\<lparr>timeout_time := Some 11\<rparr>, needs_redraw := False\<rparr>"
  have h: "timeout_time (ifc ?st) = Some 11" "(11::real) \<noteq> 0" "now_of ?env ?st \<le> 11"
    by (simp_all add: now_of_def demo_env_def demo_loop_def loop_init_def)
  have r: "fst (snd (timer_block ?env ?st)) = 10"
    using autosave_reads_timeout [OF h] by (simp add: now_of_def demo_env_def demo_loop_def loop_init_def)
  show ?thesis unfolding r
    by (simp add: autosave_block_def timer_block_def Let_def peek_def event_peek_def pg_poll_def emit_def
        demo_loop_def loop_init_def init_interface_def now_of_def demo_env_def)
qed

lemma passes_peek [simp]: "passes (snd (peek s)) = passes s"
  by (simp add: peek_def split_beta)

lemma passes_predict_loop [simp]: "passes (predict_loop env k s) = passes s"
proof (induction k arbitrary: s)
  case 0
  show ?case by (simp add: predict_loop_step [of env 0 s] emit_def)
next
  case (Suc k)
  show ?case by (simp add: predict_loop_step [of env "Suc k" s] emit_def Suc.IH)
qed

lemma passes_prepare_wait [simp]: "passes (snd (prepare_wait env s)) = passes s"
  by (cases "needs_redraw s") (simp_all add: prepare_wait_def process_redraws_def split_beta Let_def
      predict_block_def split: option.split)

lemma peek_pushed: "pushed_event (ifc st) = Some e \<Longrightarrow> peek st = (True, st)"
  by (simp add: peek_def event_peek_def)

lemma prepare_wait_pushed:
  assumes "pushed_event (ifc st) = Some e"
  shows "ifc (snd (prepare_wait env st)) = ifc st \<and> \<not> (needs_redraw (snd (prepare_wait env st)) \<and> \<not> fst (prepare_wait env st))"
proof -
  have pl: "ifc (predict_loop env k s) = ifc s" if "pushed_event (ifc s) = Some e" for k s
    using that by (cases k) (simp_all add: predict_loop_step peek_pushed)
  define s3 where "s3 = predict_block env (if needs_redraw st then st\<lparr>needs_redraw := True\<rparr>
      else st\<lparr>redraws_pending := False, needs_redraw := redraws_pending st\<rparr>)"
  have i3: "ifc s3 = ifc st"
    using assms pl [of "st\<lparr>needs_redraw := True\<rparr>"]
      pl [of "st\<lparr>redraws_pending := False, needs_redraw := redraws_pending st\<rparr>"]
    by (auto simp: s3_def predict_block_def split: option.split)
  have "prepare_wait env st = (if needs_redraw s3 then peek s3 else (True, s3))"
    by (cases "needs_redraw st") (simp_all add: prepare_wait_def process_redraws_def split_beta Let_def s3_def)
  with i3 assms show ?thesis by (simp add: peek_pushed)
qed

lemma fold_timeout_frame [simp]:
  "pushed_event (fold timeout ts i) = pushed_event i"
  "pg_queue (fold timeout ts i) = pg_queue i"
  "restart_interaction (fold timeout ts i) = restart_interaction i"
  "old_scene (fold timeout ts i) = old_scene i"
  "ongoing_transition (fold timeout ts i) = ongoing_transition i"
  by (induction ts arbitrary: i) (simp_all add: timeout_def)

lemma dispatch_emits:
  "\<exists>xs. trace (result_state (dispatch env ev s)) = trace s @ ADispatch ev # xs \<and>
     pushed_event (ifc (result_state (dispatch env ev s))) = pushed_event (ifc s)"
  by (auto simp: dispatch_def Let_def after_event_def process_redraws_def emit_def split: outcome.split)

text \<open>
  C27. An expired timeout is delivered ahead of pending input: when the deadline has
  passed and an event is already pushed back, the pass clears the deadline and dispatches
  a \<open>TIMEEVENT\<close>, and the pushed event stays pending for the next pass.
\<close>

theorem expired_timeout_delivered_first:
  assumes "\<not> restart_interaction (ifc st)" and "pushed_event (ifc st) = Some e"
    and "timeout_time (ifc st) = Some tt" and "tt \<noteq> 0" and "tt < now_of env st"
    and "joystick env TimeEvent = Some TimeEvent" and "\<not> audio_event env TimeEvent"
  shows "ADispatch TimeEvent \<in> set (new_actions st (result_state (loop_pass env st))) \<and>
     pushed_event (ifc (result_state (loop_pass env st))) = Some e"
proof -
  define s1 where "s1 = redraw_block env (mode_check st)"
  obtain xs where h: "trace s1 = trace st @ xs"
    using pass_head_adds [of env st] by (auto simp: s1_def)
  have i1: "pushed_event (ifc s1) = Some e" "restart_interaction (ifc s1) = restart_interaction (ifc st)"
    "timeout_time (ifc s1) = timeout_time (ifc st)" "passes s1 = passes st"
    using assms(2) by (simp_all add: s1_def redraw_block_def mode_check_def Let_def emit_def take_kind_def)
  define s4 where "s4 = snd (prepare_wait env s1)"
  have p4: "ifc s4 = ifc s1" and c4: "\<not> (needs_redraw s4 \<and> \<not> fst (prepare_wait env s1))"
    using prepare_wait_pushed [OF i1(1), of env] by (simp_all add: s4_def)
  obtain ys where t4: "trace s4 = trace s1 @ ys"
    using prepare_wait_adds [of s1 env] by (auto simp: s4_def adds_def)
  have n4: "now_of env s4 = now_of env st"
    using i1(4) by (simp add: s4_def now_of_def)
  define s5 where "s5 = snd (snd (timer_block env s4))"
  have tb: "fst (timer_block env s4) = Some TimeEvent" "ifc s5 = (ifc s4)\<lparr>timeout_time := None\<rparr>" "trace s5 = trace s4"
    using assms(3-5) p4 i1 n4 by (simp_all add: s5_def timer_block_def Let_def)
  define s6 where "s6 = autosave_block (fst (snd (timer_block env s4))) s5"
  have i6: "ifc s6 = ifc s5" and "\<exists>zs. trace s6 = trace s5 @ zs"
    using tb(2) p4 i1(1) by (auto simp: s6_def autosave_block_def split_beta peek_pushed emit_def)
  then obtain zs where t6: "trace s6 = trace s5 @ zs" by blast
  have he: "handle_event env TimeEvent s6 = dispatch env TimeEvent (merge_time TimeEvent s6)"
    using assms(6,7)
    by (simp add: handle_event_def classify_event_def is_periodic_def is_resize_def input_event_def
        is_mouse_def is_motion_def active_event_def)
  have "loop_pass env st = dispatch env TimeEvent (merge_time TimeEvent s6)"
    using i1(2) assms(1) c4 tb(1) he
    by (auto simp: loop_pass_def Let_def split_beta s1_def [symmetric] s4_def [symmetric] wait_and_handle_def
        s5_def [symmetric] s6_def [symmetric])
  moreover obtain ws where "trace (result_state (dispatch env TimeEvent (merge_time TimeEvent s6))) =
      trace (merge_time TimeEvent s6) @ ADispatch TimeEvent # ws"
    and "pushed_event (ifc (result_state (dispatch env TimeEvent (merge_time TimeEvent s6)))) = pushed_event (ifc (merge_time TimeEvent s6))"
    using dispatch_emits by blast
  moreover have "pushed_event (ifc (merge_time TimeEvent s6)) = Some e"
    using i6 tb(2) p4 i1(1) by (simp add: merge_time_def take_kind_def)
  ultimately show ?thesis using h t4 tb(3) t6 by (auto simp: new_actions_def)
qed

theorem expired_timeout_delivered_first_witness:
  "ADispatch TimeEvent \<in> set (new_actions
      ((demo_loop [])\<lparr>ifc := (ifc (demo_loop []))\<lparr>pushed_event := Some (InputEvent 3), timeout_time := Some 0.5\<rparr>\<rparr>)
      (result_state (loop_pass demo_env
      ((demo_loop [])\<lparr>ifc := (ifc (demo_loop []))\<lparr>pushed_event := Some (InputEvent 3), timeout_time := Some 0.5\<rparr>\<rparr>))))"
proof -
  let ?st = "(demo_loop [])\<lparr>ifc := (ifc (demo_loop []))\<lparr>pushed_event := Some (InputEvent 3), timeout_time := Some 0.5\<rparr>\<rparr>"
  have "\<not> restart_interaction (ifc ?st)" "pushed_event (ifc ?st) = Some (InputEvent 3)"
    "timeout_time (ifc ?st) = Some 0.5" "(0.5::real) \<noteq> 0" "0.5 < now_of demo_env ?st"
    "joystick demo_env TimeEvent = Some TimeEvent" "\<not> audio_event demo_env TimeEvent"
    by (simp_all add: demo_loop_def loop_init_def init_interface_def now_of_def demo_env_def)
  from expired_timeout_delivered_first [OF this] show ?thesis by blast
qed

lemmas loop_eval = loop_pass_def mode_check_def redraw_block_def prepare_wait_def wait_and_handle_def
  predict_block_def timer_block_def autosave_block_def get_event_def handle_event_def merge_time_def
  classify_event_def input_event_def active_event_def dispatch_def after_event_def process_redraws_def peek_def
  event_peek_def event_poll_def event_wait_def pg_poll_def pg_wait_def serve_bg_screenshot_def
  emit_def now_of_def take_kind_def queued_input_def latch_times_def is_periodic_def is_resize_def
  is_motion_def is_mouse_def demo_env_def demo_handle_def demo_loop_def loop_init_def init_interface_def
  set_times_def demo_sl_def demo_entry_def update_time_def

theorem set_times_latched_once_witness:
  "\<exists>r. run_loop 1 demo_env (demo_loop [InputEvent 3]) = Some r \<and>
     frame_log (trace (result_state r)) = [ADraw 1, ASetTimes 1] \<and>
     (frame_log (trace (result_state r)) = [] \<or>
      (\<exists>t it ys. frame_log (trace (result_state r)) = ADraw t # ASetTimes it # ys \<and> (\<forall>a \<in> set ys. is_draw a)))"
proof -
  obtain r where r: "run_loop 1 demo_env (demo_loop [InputEvent 3]) = Some r"
    and f: "frame_log (trace (result_state r)) = [ADraw 1, ASetTimes 1]"
    by (simp add: loop_eval Let_def frame_log_def is_draw_def is_set_times_def)
  show ?thesis using set_times_latched_once [OF r [unfolded demo_loop_def]] r f by blast
qed

subsection \<open>What the loop leaves alone\<close>

named_theorems frame_intros \<open>blocks of a pass that keep the loop frame\<close>

lemma loop_frame_refl [simp]: "loop_frame st st"
  by (simp add: loop_frame_def)

lemma loop_frame_trans: "loop_frame s1 s2 \<Longrightarrow> loop_frame s2 s3 \<Longrightarrow> loop_frame s1 s3"
  by (simp add: loop_frame_def)

lemma loop_frame_same: "ifc st' = ifc st \<Longrightarrow> scene st' = scene st \<Longrightarrow> loop_frame st st'"
  by (simp add: loop_frame_def)

lemma loop_frame_simple [frame_intros]:
  "loop_frame st (mode_check st)" "loop_frame st (snd (peek st))" "loop_frame st (snd (process_redraws st))"
  "loop_frame st (snd (take_kind P st))" "loop_frame st (emit a st)" "loop_frame st (merge_time ev st)"
  "loop_frame st (snd (snd (timer_block env st)))" "loop_frame st (autosave_block r st)"
  by (simp_all add: loop_frame_def mode_check_def emit_def peek_def event_peek_def pg_poll_def split_beta
      process_redraws_def take_kind_def merge_time_def timer_block_def Let_def autosave_block_def
      split: option.split list.split)

lemma at_list_set_times [simp]: "at_list (set_times t sl) = at_list sl"
  by (simp add: set_times_def)

lemma loop_frame_redraw [frame_intros]: "loop_frame st (redraw_block env st)"
  by (simp add: loop_frame_def redraw_block_def Let_def emit_def take_kind_def)

lemma loop_frame_predict_loop [frame_intros]: "loop_frame st (predict_loop env k st)"
proof (induction k arbitrary: st)
  case 0
  show ?case
    using loop_frame_simple(2) [of st] by (auto simp: predict_loop_step [of env 0 st] loop_frame_def emit_def)
next
  case (Suc k)
  have "loop_frame st ((emit APredict (snd (peek st)))\<lparr>prediction := Some k\<rparr>)"
    using loop_frame_simple(2) [of st] by (simp add: loop_frame_def emit_def)
  with Suc.IH loop_frame_simple(2) [of st] show ?case
    by (auto simp: predict_loop_step [of env "Suc k" st] intro: loop_frame_trans)
qed

lemma loop_frame_predict_block [frame_intros]: "loop_frame st (predict_block env st)"
  by (simp add: predict_block_def loop_frame_predict_loop split: option.split)

lemma loop_frame_prepare_wait [frame_intros]: "loop_frame st (snd (prepare_wait env st))"
proof -
  define s2 where "s2 = (if needs_redraw st then st\<lparr>needs_redraw := True\<rparr>
      else st\<lparr>redraws_pending := False, needs_redraw := redraws_pending st\<rparr>)"
  have "loop_frame st s2" by (simp add: s2_def loop_frame_def)
  then have f3: "loop_frame st (predict_block env s2)" by (rule loop_frame_trans [OF _ loop_frame_predict_block])
  have "prepare_wait env st = (if needs_redraw (predict_block env s2) then peek (predict_block env s2)
      else (True, predict_block env s2))"
    by (cases "needs_redraw st") (simp_all add: prepare_wait_def process_redraws_def split_beta Let_def s2_def)
  with f3 loop_frame_simple(2) [of "predict_block env s2"] show ?thesis
    by (auto intro: loop_frame_trans)
qed

lemma loop_frame_dispatch [frame_intros]: "loop_frame st (result_state (dispatch env ev st))"
  by (simp add: loop_frame_def dispatch_def Let_def after_event_def process_redraws_def emit_def split: outcome.split)

lemma loop_frame_resize [frame_intros]: "loop_frame st (resize_event ev st)"
  by (simp add: loop_frame_def resize_event_def Let_def split_beta take_kind_def emit_def)

lemma loop_frame_input [frame_intros]: "loop_frame st (result_state (input_event env ev st))"
  unfolding input_event_def Let_def split_beta
  by (rule loop_frame_trans [OF _ loop_frame_dispatch])
    (simp add: loop_frame_def split_beta take_kind_def active_event_def Let_def emit_def split: event.split)

lemma loop_frame_classify [frame_intros]: "loop_frame st (result_state (classify_event env ev st))"
  unfolding classify_event_def
  by (auto simp: split_beta take_kind_def loop_frame_def loop_frame_resize [unfolded loop_frame_def]
      loop_frame_input [unfolded loop_frame_def] quit_event_def split: option.split sum.split if_splits)

lemma loop_frame_handle_event [frame_intros]: "loop_frame st (result_state (handle_event env ev st))"
  using loop_frame_trans [OF loop_frame_simple(6) [of st ev] loop_frame_classify [of "merge_time ev st" env ev]]
  by (simp add: handle_event_def)

lemma loop_frame_handle_event_from:
  "loop_frame st s \<Longrightarrow> loop_frame st (result_state (handle_event env ev s))"
  by (rule loop_frame_trans [OF _ loop_frame_handle_event])

lemma loop_frame_get_event: "get_event env st = Some (e, st') \<Longrightarrow> loop_frame st st'"
  by (auto simp: get_event_def loop_frame_def event_poll_def event_wait_def pg_poll_def pg_wait_def
      serve_bg_screenshot_def split_beta split: if_splits option.splits list.splits)

lemma loop_frame_pass: "loop_frame st (result_state (loop_pass env st))"
proof -
  define s1 where "s1 = redraw_block env (mode_check st)"
  have f1: "loop_frame st s1"
    unfolding s1_def by (rule loop_frame_trans [OF loop_frame_simple(1) loop_frame_redraw])
  define s4 where "s4 = snd (prepare_wait env s1)"
  have f4: "loop_frame st s4" unfolding s4_def by (rule loop_frame_trans [OF f1 loop_frame_prepare_wait])
  define s6 where "s6 = autosave_block (fst (snd (timer_block env s4))) (snd (snd (timer_block env s4)))"
  have f6: "loop_frame st s6"
    unfolding s6_def by (rule loop_frame_trans [OF loop_frame_trans [OF f4 loop_frame_simple(7)] loop_frame_simple(8)])
  have "loop_frame st (result_state (wait_and_handle env s4))"
    using f6 by (auto simp: wait_and_handle_def Let_def split_beta s6_def [symmetric]
        intro!: loop_frame_handle_event_from intro: loop_frame_trans dest!: loop_frame_get_event split: option.split)
  then show ?thesis
    using f1 f4 by (auto simp: loop_pass_def Let_def split_beta s1_def [symmetric] s4_def [symmetric])
qed

lemma loop_frame_next_pass [simp]: "loop_frame st (next_pass st') = loop_frame st st'"
  by (simp add: loop_frame_def next_pass_def)

lemma run_loop_frame: "run_loop n env st = Some r \<Longrightarrow> loop_frame st (result_state r)"
proof (induction n arbitrary: st)
  case 0
  then show ?case by simp
next
  case (Suc n)
  show ?case
  proof (cases "loop_pass env st")
    case (Continue st')
    then have "run_loop n env (next_pass st') = Some r" using Suc.prems by simp
    from Suc.IH [OF this] loop_frame_pass [of st env] Continue show ?thesis
      by (auto simp: loop_frame_def next_pass_def)
  qed (use Suc.prems loop_frame_pass [of st env] in auto)
qed

end
