(* ===== verification/SceneBuild.thy ===== *)
theory SceneBuild
  imports Interface
begin

text \<open>
  Building the scene handed to the backend: \<open>SceneLists.make_layer\<close> (a layer's entries
  in a box, wrapped by the layer's at-list, each wrapper in its own box anchored at the
  layer's time), \<open>Interface.compute_scene\<close> (one widget per configured layer and top
  layer, and the root box of the layers under the key \<open>None\<close>), and
  \<open>SceneLists.after_setstate\<close>, which restores missing layers after loading. The widget
  tree is the datatype \<open>widget\<close>; the layer properties passed to the boxes are not
  modelled.
\<close>

datatype ('d, 't) widget =
    LayerBox layer_name "'d scene_list_entry list"
  | Applied 't "('d, 't) widget"
  | Anchored "time option" "('d, 't) widget"
  | Named layer_name "('d, 't) widget"
  | RootBox "(layer_name \<times> ('d, 't) widget) list"

text \<open>\<open>make_layer(layer, properties)\<close>: \<open>self.layers[layer]\<close> and
  \<open>self.layer_at_list[layer]\<close> raise \<open>KeyError\<close> for an unknown layer.\<close>

definition make_layer :: "('d, 't) scene_lists \<Rightarrow> layer_name \<Rightarrow> py_error + ('d, 't) widget" where
  "make_layer sl layer =
     (case map_of (layers sl) layer of
        None \<Rightarrow> Inl KeyError
      | Some l \<Rightarrow>
          (case layer_at_list sl layer of
             None \<Rightarrow> Inl KeyError
           | Some (t, al) \<Rightarrow> Inr (Named layer (foldl (\<lambda>rv a. Anchored t (Applied a rv)) (LayerBox layer l) al))))"

text \<open>The loop \<open>for layer in renpy.config.layers + renpy.config.top_layers\<close> of
  \<open>compute_scene\<close>, filling the dictionary \<open>rv\<close>.\<close>

primrec scene_layers :: "('d, 't) scene_lists \<Rightarrow> layer_name list \<Rightarrow> (layer_key \<times> ('d, 't) widget) list \<Rightarrow>
    py_error + (layer_key \<times> ('d, 't) widget) list" where
  "scene_layers sl [] rv = Inr rv"
| "scene_layers sl (l # ls) rv =
     (case make_layer sl l of Inl e \<Rightarrow> Inl e | Inr w \<Rightarrow> scene_layers sl ls (AList.update (Some l) w rv))"

text \<open>\<open>Interface.compute_scene\<close> (named apart from the \<open>compute_scene\<close> of the
  environment record): the root box holds the configured layers in order.\<close>

definition compute_scene_impl :: "config \<Rightarrow> ('d, 't) scene_lists \<Rightarrow> py_error + (layer_key \<times> ('d, 't) widget) list" where
  "compute_scene_impl c sl =
     (case scene_layers sl (config_layers c @ top_layers c) [] of
        Inl e \<Rightarrow> Inl e
      | Inr rv \<Rightarrow> Inr (AList.update None (RootBox (map (\<lambda>l. (l, the (map_of rv (Some l)))) (config_layers c))) rv))"

text \<open>\<open>SceneLists.after_setstate\<close>, run after loading: every layer of
  \<open>renpy.config.layers + renpy.config.top_layers\<close> missing from \<open>self.layers\<close> is added
  empty, with an empty at-list and layer at-list (\<open>restore_layer\<close> is the loop body).\<close>

definition restore_layer :: "layer_name \<Rightarrow> ('d, 't) scene_lists \<Rightarrow> ('d, 't) scene_lists" where
  "restore_layer i sl =
     (if i \<in> set (map fst (layers sl)) then sl
      else sl\<lparr>layers := layers sl @ [(i, [])], at_list := (at_list sl)(i \<mapsto> Map.empty),
              layer_at_list := (layer_at_list sl)(i \<mapsto> (None, []))\<rparr>)"

definition after_setstate :: "config \<Rightarrow> ('d, 't) scene_lists \<Rightarrow> ('d, 't) scene_lists" where
  "after_setstate c sl = fold restore_layer (config_layers c @ top_layers c) sl"

text \<open>Every layer of the scene lists has a layer at-list, as \<open>__init__\<close> and
  \<open>after_setstate\<close> establish.\<close>

definition layers_complete :: "('d, 't) scene_lists \<Rightarrow> bool" where
  "layers_complete sl = (\<forall>(l, _) \<in> set (layers sl). layer_at_list sl l \<noteq> None)"


section \<open>Properties\<close>

lemma make_layer_ok:
  "map_of (layers sl) l \<noteq> None \<Longrightarrow> layer_at_list sl l \<noteq> None \<Longrightarrow> \<exists>w. make_layer sl l = Inr w"
  by (auto simp: make_layer_def split: option.split)

lemma scene_layers_ok:
  "\<forall>l \<in> set ls. map_of (layers sl) l \<noteq> None \<and> layer_at_list sl l \<noteq> None \<Longrightarrow>
     \<exists>rv'. scene_layers sl ls rv = Inr rv' \<and> (\<forall>k. (k \<in> Some ` set ls \<or> map_of rv k \<noteq> None) = (map_of rv' k \<noteq> None))"
proof (induction ls arbitrary: rv)
  case Nil
  then show ?case by simp
next
  case (Cons l ls)
  have "\<exists>w. make_layer sl l = Inr w" using Cons.prems by (intro make_layer_ok) auto
  then obtain w where w: "make_layer sl l = Inr w" by blast
  obtain rv' where "scene_layers sl ls (AList.update (Some l) w rv) = Inr rv'"
    and k: "\<forall>k. (k \<in> Some ` set ls \<or> map_of (AList.update (Some l) w rv) k \<noteq> None) = (map_of rv' k \<noteq> None)"
    using Cons.IH [of "AList.update (Some l) w rv"] Cons.prems by auto
  moreover have "\<forall>k. (k \<in> Some ` set (l # ls) \<or> map_of rv k \<noteq> None) =
      (k \<in> Some ` set ls \<or> map_of (AList.update (Some l) w rv) k \<noteq> None)"
    by (auto simp: update_conv')
  ultimately show ?case using w by auto
qed

lemma compute_scene_root:
  "compute_scene_impl c sl = Inr sc \<Longrightarrow> map_of sc None \<noteq> None"
  by (auto simp: compute_scene_impl_def update_conv' split: sum.splits)

lemma compute_scene_ok:
  assumes "\<forall>l \<in> set (config_layers c @ top_layers c). map_of (layers sl) l \<noteq> None \<and> layer_at_list sl l \<noteq> None"
  shows "\<exists>sc. compute_scene_impl c sl = Inr sc \<and> map_of sc None \<noteq> None \<and>
     (\<forall>l \<in> set (config_layers c @ top_layers c). map_of sc (Some l) \<noteq> None)"
proof -
  obtain rv where rv: "scene_layers sl (config_layers c @ top_layers c) [] = Inr rv"
    and k: "\<forall>k. k \<in> Some ` set (config_layers c @ top_layers c) = (map_of rv k \<noteq> None)"
    using scene_layers_ok [OF assms, of "[]"] by auto
  show ?thesis using rv k by (auto simp: compute_scene_impl_def update_conv')
qed

lemma restore_layer_complete:
  "layers_complete sl \<Longrightarrow> layers_complete (restore_layer i sl) \<and> map_of (layers (restore_layer i sl)) i \<noteq> None \<and>
     (\<forall>l. map_of (layers sl) l \<noteq> None \<longrightarrow> map_of (layers (restore_layer i sl)) l \<noteq> None)"
  by (auto simp: restore_layer_def layers_complete_def map_of_eq_None_iff image_iff)

lemma fold_restore_layer:
  "layers_complete sl \<Longrightarrow> layers_complete (fold restore_layer ls sl) \<and>
     (\<forall>l. l \<in> set ls \<or> map_of (layers sl) l \<noteq> None \<longrightarrow> map_of (layers (fold restore_layer ls sl)) l \<noteq> None)"
proof (induction ls arbitrary: sl)
  case Nil
  then show ?case by simp
next
  case (Cons i ls)
  then show ?case using restore_layer_complete [OF Cons.prems, of i] Cons.IH [of "restore_layer i sl"] by auto
qed

lemma layers_complete_at_list:
  "layers_complete sl \<Longrightarrow> map_of (layers sl) l \<noteq> None \<Longrightarrow> layer_at_list sl l \<noteq> None"
  by (auto simp: layers_complete_def dest: map_of_SomeD)

text \<open>
  C31. The scene can always be built after loading: when every layer of the loaded scene
  lists has a layer at-list, \<open>after_setstate\<close> makes \<open>compute_scene\<close> succeed, with a
  widget for every configured layer and top layer and the root under \<open>None\<close>.
\<close>

theorem after_setstate_scene_builds:
  assumes "layers_complete sl"
  shows "\<exists>sc. compute_scene_impl c (after_setstate c sl) = Inr sc \<and> map_of sc None \<noteq> None \<and>
     (\<forall>l \<in> set (config_layers c @ top_layers c). map_of sc (Some l) \<noteq> None)"
proof -
  have f: "layers_complete (after_setstate c sl)"
    and p: "\<forall>l \<in> set (config_layers c @ top_layers c). map_of (layers (after_setstate c sl)) l \<noteq> None"
    using fold_restore_layer [OF assms, of "config_layers c @ top_layers c"] by (auto simp: after_setstate_def)
  show ?thesis using p layers_complete_at_list [OF f] by (intro compute_scene_ok) auto
qed

theorem after_setstate_scene_builds_witness:
  "\<exists>sc. compute_scene_impl demo_cfg (after_setstate demo_cfg (demo_sl\<lparr>layers := [(''master'', [])]\<rparr>)) = Inr sc \<and>
     map_of sc None \<noteq> None"
proof -
  have "layers_complete (demo_sl\<lparr>layers := [(''master'', [])]\<rparr>)" by (simp add: layers_complete_def demo_sl_def)
  from after_setstate_scene_builds [OF this, of demo_cfg] show ?thesis by blast
qed

end
