(* ===== verification/Interact.thy ===== *)
theory Interact
  imports EventLoop SceneBuild
begin

text \<open>
  \<open>Interface.interact\<close> and \<open>Interface.interact_core\<close> (\<open>src/renpy/display/core.py\<close>)
  composed from the theories below: the transition snapshot and safety check
  (\<open>Interface\<close>), \<open>SceneLists.remove_hidden\<close>, the scene composition and its transition
  checks, the redraw/event loop (\<open>EventLoop\<close>), the \<open>finally\<close> block of
  \<open>interact_core\<close> (overlay layers cleared, restart requested), and the re-entrancy guard,
  the repeat loop and the \<open>finally\<close> block of \<open>interact\<close> (\<open>replace_transient\<close>,
  transitions dropped). \<open>with_none\<close> and \<open>do_with\<close> are the transition entry points.
  The state shared by these calls is the record \<open>world\<close>: the interface, the current
  context's scene lists and its \<open>interacting\<close> flag.
\<close>

section \<open>State and environment\<close>

record ('tr, 'w, 'p, 's, 'd, 't) world =
  w_ifc :: "('tr, 'w, 'p, 's) interface"
  w_sl :: "('d, 't) scene_lists"
  interacting :: bool

text \<open>The world of an interaction whose scenes are built by \<open>compute_scene\<close>.\<close>

type_synonym ('tr, 'p, 's, 'd, 't) scene_world = "('tr, ('d, 't) widget, 'p, 's, 'd, 't) world"

text \<open>What \<open>interact_core\<close> consults besides the state: the loop's environment, the
  configuration, the displayable operations, whether a transition factory yields a \<open>Displayable\<close>, whether
  transitions are skipped (\<open>config.skipping\<close> or \<open>less_updates\<close>), the time, and the
  initial state of the prediction coroutine and of the display mode.\<close>

record ('p, 'r, 's, 'tr, 'd, 'atl, 't) core_env =
  lenv :: "('p, 'r, 's) loop_env"
  cfg :: config
  dops :: "('d, 'atl) disp_ops"
  trans_ok :: "'tr \<Rightarrow> bool"
  skipping :: bool
  start_now :: time
  pred_steps :: "nat option"
  mode_reset :: bool

section \<open>interact_core\<close>

text \<open>\<open>pygame.event.clear((MOUSEMOTION, PERIODIC, TIMEEVENT, REDRAW))\<close> followed by
  \<open>pygame.event.post(self.time_event)\<close>.\<close>

definition reset_queue :: "'p event list \<Rightarrow> 'p event list" where
  "reset_queue q =
     filter (\<lambda>e. \<not> is_motion e \<and> e \<noteq> PeriodicEvent \<and> e \<noteq> TimeEvent \<and> e \<noteq> RedrawEvent) q @ [TimeEvent]"

text \<open>\<open>add_layer\<close> and the root transition: an ongoing transition of a layer (or of the
  root) that is not skipped must yield a \<open>Displayable\<close>, else \<open>interact_core\<close> raises.\<close>

definition bad_transition :: "('p, 'r, 's, 'tr, 'd, 'atl, 't) core_env \<Rightarrow> (layer_key \<times> 'tr) list \<Rightarrow> bool" where
  "bad_transition env ongoing =
     (\<not> skipping env \<and>
      list_ex (\<lambda>k. case map_of ongoing k of Some t \<Rightarrow> \<not> trans_ok env t | None \<Rightarrow> False)
        (map Some (config_layers (cfg env)) @ [None] @ map Some (top_layers (cfg env))))"

text \<open>The \<open>finally\<close> block of \<open>interact_core\<close>: the overlay layers are cleared
  (\<open>scene_lists.clear(i)\<close>, without hiding) and a restart is requested; an exception of
  the clear replaces the loop's outcome.\<close>

definition core_finally :: "('p, 'r, 's, 'tr, 'd, 'atl, 't) core_env \<Rightarrow> py_error + (bool \<times> 'r option) \<Rightarrow>
    ('tr, 'w, 'p, 's, 'd, 't) world \<Rightarrow> (py_error + (bool \<times> 'r option)) \<times> ('tr, 'w, 'p, 's, 'd, 't) world" where
  "core_finally env r w =
     (case clear_layers (dops env) (start_now env) False (overlay_layers (cfg env)) (w_sl w) of
        Inl e \<Rightarrow> (Inl e, w)
      | Inr sl \<Rightarrow> (r, w\<lparr>w_ifc := (w_ifc w)\<lparr>restart_interaction := True\<rparr>, w_sl := sl\<rparr>))"

text \<open>One call of \<open>interact_core\<close> with fuel \<open>n\<close> for its loop: \<open>None\<close> when the loop
  blocks for ever or runs out of fuel. Exceptions raised before the \<open>try\<close>
  (\<open>remove_hidden\<close>, \<open>compute_scene\<close>, a bad transition) skip the \<open>finally\<close>
  block; the scene computed becomes \<open>old_scene\<close> once the transitions are checked.\<close>

definition interact_core :: "nat \<Rightarrow> ('p, 'r, 's, 'tr, 'd, 'atl, 't) core_env \<Rightarrow> bool \<Rightarrow>
    ('tr, 'p, 's, 'd, 't) scene_world \<Rightarrow> ((py_error + (bool \<times> 'r option)) \<times> ('tr, 'p, 's, 'd, 't) scene_world) option" where
  "interact_core n env trans_pause w =
     (let i0 = snapshot_transitions (skipping env) (w_ifc w)
      in if trans_pause_abort trans_pause (skipping env) i0 then Some (Inr (False, None), w\<lparr>w_ifc := i0\<rparr>)
      else
       (let i1 = i0\<lparr>restart_interaction := False, pg_queue := reset_queue (pg_queue i0)\<rparr>
        in case remove_hidden (dops env) (start_now env) (w_sl w) of
             Inl e \<Rightarrow> Some (Inl e, w\<lparr>w_ifc := i1\<rparr>)
           | Inr sl1 \<Rightarrow>
              (case compute_scene_impl (cfg env) sl1 of
                 Inl e \<Rightarrow> Some (Inl e, w\<lparr>w_ifc := i1, w_sl := sl1\<rparr>)
               | Inr sc \<Rightarrow>
               if bad_transition env (ongoing_transition i1) then Some (Inl BadTransition, w\<lparr>w_ifc := i1, w_sl := sl1\<rparr>)
               else
                (let i2 = i1\<lparr>old_scene := sc\<rparr>
                 in case run_loop n ((lenv env)\<lparr>trans_pause_arg := trans_pause\<rparr>)
                           (loop_init i2 sl1 (pred_steps env) (mode_reset env)) of
                      None \<Rightarrow> None
                    | Some (Blocked _) \<Rightarrow> None
                    | Some (Continue _) \<Rightarrow> None
                    | Some (Finish st rep rv) \<Rightarrow>
                        Some (core_finally env (Inr (rep, rv)) (w\<lparr>w_ifc := ifc st, w_sl := scene st\<rparr>))
                    | Some (Raise st e) \<Rightarrow>
                        Some (core_finally env (Inl e) (w\<lparr>w_ifc := ifc st, w_sl := scene st\<rparr>))))))"

section \<open>interact\<close>

text \<open>\<open>while repeat: repeat, rv = self.interact_core(...)\<close>, with fuel \<open>m\<close> for the
  number of restarts.\<close>

fun interact_repeat :: "nat \<Rightarrow> nat \<Rightarrow> ('p, 'r, 's, 'tr, 'd, 'atl, 't) core_env \<Rightarrow> bool \<Rightarrow>
    ('tr, 'p, 's, 'd, 't) scene_world \<Rightarrow> ((py_error + 'r option) \<times> ('tr, 'p, 's, 'd, 't) scene_world) option" where
  "interact_repeat 0 n env tp w = None"
| "interact_repeat (Suc m) n env tp w =
     (case interact_core n env tp w of
        None \<Rightarrow> None
      | Some (Inl e, w') \<Rightarrow> Some (Inl e, w')
      | Some (Inr (True, _), w') \<Rightarrow> interact_repeat m n env tp w'
      | Some (Inr (False, rv), w') \<Rightarrow> Some (Inr rv, w'))"

text \<open>The \<open>finally\<close> block of \<open>interact\<close> after \<open>replace_transient\<close>: ongoing
  transitions are dropped, a restart is requested, the window is marked not shown.\<close>

definition interact_cleanup :: "('tr, 'w, 'p, 's, 'd, 't) world \<Rightarrow> ('tr, 'w, 'p, 's, 'd, 't) world" where
  "interact_cleanup w =
     w\<lparr>w_ifc := (w_ifc w)\<lparr>ongoing_transition := [], transition_time := [], transition_from := [],
                            restart_interaction := True\<rparr>,
       w_sl := (w_sl w)\<lparr>shown_window := False\<rparr>\<rparr>"

text \<open>\<open>Interface.interact(clear, ...)\<close>: the re-entrancy guard, the repeat loop, and the
  \<open>finally\<close> block, which first clears \<open>interacting\<close>, then (with \<open>clear\<close>) replaces
  the transient layers; an exception there replaces the interaction's outcome and skips
  the rest of the block.\<close>

definition interact :: "nat \<Rightarrow> nat \<Rightarrow> ('p, 'r, 's, 'tr, 'd, 'atl, 't) core_env \<Rightarrow> bool \<Rightarrow> bool \<Rightarrow>
    ('tr, 'p, 's, 'd, 't) scene_world \<Rightarrow> ((py_error + 'r option) \<times> ('tr, 'p, 's, 'd, 't) scene_world) option" where
  "interact m n env clr tp w =
     (if interacting w then Some (Inl ReentrantInteraction, w)
      else case interact_repeat m n env tp (w\<lparr>interacting := True\<rparr>) of
        None \<Rightarrow> None
      | Some (r, w1) \<Rightarrow>
          (let w2 = w1\<lparr>interacting := False\<rparr>
           in if clr then
                (case replace_transient (dops env) (cfg env) (start_now env) (w_sl w2) of
                   Inl e \<Rightarrow> Some (Inl e, w2)
                 | Inr sl \<Rightarrow> Some (r, interact_cleanup (w2\<lparr>w_sl := sl\<rparr>)))
              else Some (r, interact_cleanup w2)))"

section \<open>Transitions entry points\<close>

text \<open>\<open>Interface.with_none\<close>: the current scene becomes the one to transition from,
  the overlay layers are cleared, the transient layers replaced.\<close>

definition with_none :: "('p, 'r, 's, 'tr, 'd, 'atl, 't) core_env \<Rightarrow> ('tr, 'p, 's, 'd, 't) scene_world \<Rightarrow>
    (py_error + unit) \<times> ('tr, 'p, 's, 'd, 't) scene_world" where
  "with_none env w =
     (case compute_scene_impl (cfg env) (w_sl w) of
        Inl e \<Rightarrow> (Inl e, w)
      | Inr sc \<Rightarrow>
         (let w1 = w\<lparr>w_ifc := (w_ifc w)\<lparr>old_scene := sc\<rparr>\<rparr>
          in case clear_layers (dops env) (start_now env) False (overlay_layers (cfg env)) (w_sl w1) of
               Inl e \<Rightarrow> (Inl e, w1)
             | Inr sl1 \<Rightarrow>
                 (case replace_transient (dops env) (cfg env) (start_now env) sl1 of
                    Inl e \<Rightarrow> (Inl e, w1\<lparr>w_sl := sl1\<rparr>)
                  | Inr sl2 \<Rightarrow> (Inr (), w1\<lparr>w_sl := sl2\<lparr>shown_window := False\<rparr>\<rparr>))))"

text \<open>\<open>Interface.do_with(trans, paired, clear)\<close>: no transition, or suppressed
  transitions, run \<open>with_none\<close> and return \<open>False\<close> (here \<open>Inr None\<close>); otherwise the
  transition is set for the root and a \<open>trans_pause\<close> interaction runs (\<open>Inr (Some rv)\<close>).\<close>

definition do_with :: "nat \<Rightarrow> nat \<Rightarrow> ('p, 'r, 's, 'tr, 'd, 'atl, 't) core_env \<Rightarrow> 'tr option \<Rightarrow> bool \<Rightarrow>
    ('tr, 'p, 's, 'd, 't) scene_world \<Rightarrow> ((py_error + 'r option option) \<times> ('tr, 'p, 's, 'd, 't) scene_world) option" where
  "do_with m n env tr clr w =
     (case tr of
        Some t \<Rightarrow>
          if suppress_transition (w_ifc w) then
            Some (map_sum id (\<lambda>_. None) (fst (with_none env w)), snd (with_none env w))
          else map_option (\<lambda>(r, w'). (map_sum id Some r, w'))
                 (interact m n env clr True (w\<lparr>w_ifc := set_transition (Some t) None False (w_ifc w)\<rparr>))
      | None \<Rightarrow> Some (map_sum id (\<lambda>_. None) (fst (with_none env w)), snd (with_none env w)))"

subsection \<open>An example\<close>

definition demo_core_env :: "(nat, nat, unit, nat, demo_disp, unit, unit) core_env" where
  "demo_core_env = \<lparr>lenv = demo_env, cfg = demo_cfg, dops = demo_ops,
     trans_ok = (\<lambda>_. True), skipping = False, start_now = 1, pred_steps = None, mode_reset = False\<rparr>"

definition demo_world :: "nat event list \<Rightarrow> (demo_disp, unit) scene_lists \<Rightarrow> (nat, nat, unit, demo_disp, unit) scene_world" where
  "demo_world q sl = \<lparr>w_ifc = (init_interface 0)\<lparr>pg_queue := q\<rparr>, w_sl = sl, interacting = False\<rparr>"


section \<open>Properties of interact\<close>

lemmas interact_eval = loop_eval interact_def interact_core_def core_finally_def reset_queue_def bad_transition_def
  snapshot_transitions_def trans_pause_abort_def remove_hidden_def clear_def set_layer_def replace_transient_def
  interact_cleanup_def demo_core_env_def demo_world_def demo_cfg_def demo_ops_def hide_rev.simps
  hide_or_replace_def rehide_def startswith_def hide_result_def compute_scene_impl_def make_layer_def

text \<open>Interactions do not nest: \<open>interact\<close> called while the context is already
  interacting raises and changes nothing.\<close>

lemma interact_reentrant_rejected:
  assumes "interacting w"
  shows "interact m n env clr tp w = Some (Inl ReentrantInteraction, w)"
  using assms by (simp add: interact_def)

text \<open>
  C32. Cleanup on every exit: whatever the interaction returns or raises, \<open>interact\<close>
  leaves the context not interacting; and unless replacing the transient layers itself
  raised, it drops the ongoing transitions and requests a restart.
\<close>

theorem interact_exit_cleanup:
  assumes "\<not> interacting w" and "interact m n env clr tp w = Some (r, w')"
  shows "\<not> interacting w' \<and>
     ((restart_interaction (w_ifc w') \<and> ongoing_transition (w_ifc w') = [] \<and> transition_from (w_ifc w') = [] \<and>
       transition_time (w_ifc w') = []) \<or>
      (clr \<and> (\<exists>r1 w1 e. interact_repeat m n env tp (w\<lparr>interacting := True\<rparr>) = Some (r1, w1) \<and>
         replace_transient (dops env) (cfg env) (start_now env) (w_sl w1) = Inl e \<and> r = Inl e)))"
  using assms
  by (auto simp: interact_def interact_cleanup_def Let_def split: option.splits sum.splits if_splits)

theorem interact_exit_cleanup_witness:
  "\<exists>r w'. interact 1 1 demo_core_env False False (demo_world [InputEvent 3] demo_sl) = Some (r, w') \<and>
     \<not> interacting w' \<and> restart_interaction (w_ifc w') \<and> ongoing_transition (w_ifc w') = []"
proof -
  obtain r w' where i: "interact 1 1 demo_core_env False False (demo_world [InputEvent 3] demo_sl) = Some (r, w')"
    by (simp add: interact_eval Let_def)
  have n: "\<not> interacting (demo_world [InputEvent 3] demo_sl)" by (simp add: demo_world_def)
  from interact_exit_cleanup [OF n i] i show ?thesis by auto
qed

lemma clear_exiting_type_error:
  assumes "map_of (layers sl) L = Some l" and "x \<in> set l" and "truthy_str (tag x)"
    and "hide_result ops now x (BoolPrefix True) \<noteq> None"
  shows "clear_layers ops now True (L # Ls) sl = Inl TypeError"
proof -
  obtain j where j: "j < length l" "l ! j = x" using assms(2) by (auto simp: in_set_conv_nth)
  have "hide_rev ops now (length l) l (BoolPrefix True) = Inl TypeError"
    using hide_rev_type_error [of "length l" l j] j assms(3,4) by simp
  then show ?thesis using assms(1) by (simp add: clear_def)
qed

text \<open>
  C30. An exit animation on a transient layer makes \<open>interact\<close> lose its result: with
  \<open>clear\<close>, if the first transient layer holds a tagged entry whose \<open>_hide\<close> returns a
  successor, \<open>replace_transient\<close> raises \<open>TypeError\<close> (\<open>clear\<close> passes \<open>hide=True\<close> as the
  prefix), which replaces the interaction's outcome and skips the rest of the cleanup:
  the ongoing transitions stay as the interaction left them.
\<close>

theorem interact_transient_exit_loses_result:
  assumes "\<not> interacting w" and "interact_repeat m n env tp (w\<lparr>interacting := True\<rparr>) = Some (r1, w1)"
    and "transient_layers (cfg env) = L # Ls" and "map_of (layers (w_sl w1)) L = Some l"
    and "x \<in> set l" and "truthy_str (tag x)" and "hide_result (dops env) (start_now env) x (BoolPrefix True) \<noteq> None"
  shows "interact m n env True tp w = Some (Inl TypeError, w1\<lparr>interacting := False\<rparr>)"
proof -
  have "clear_layers (dops env) (start_now env) True (L # Ls) (w_sl w1) = Inl TypeError"
    using clear_exiting_type_error [OF assms(4-7)] .
  then show ?thesis using assms(1-3) by (simp add: interact_def replace_transient_def)
qed

theorem interact_transient_exit_loses_result_witness:
  "\<exists>w1. interact 1 1 demo_core_env True False
      (demo_world [InputEvent 3] (set_layer ''transient'' [demo_entry ''ghost'' 0 (WithExit ''g'')] demo_sl)) =
    Some (Inl TypeError, w1)"
proof -
  let ?w = "demo_world [InputEvent 3] (set_layer ''transient'' [demo_entry ''ghost'' 0 (WithExit ''g'')] demo_sl)"
  have "\<exists>r1 w1. interact_repeat 1 1 demo_core_env False (?w\<lparr>interacting := True\<rparr>) = Some (r1, w1) \<and>
      map_of (layers (w_sl w1)) ''transient'' = Some [demo_entry ''ghost'' 0 (WithExit ''g'')]"
    by (simp add: interact_eval Let_def)
  then obtain r1 w1 where r: "interact_repeat 1 1 demo_core_env False (?w\<lparr>interacting := True\<rparr>) = Some (r1, w1)"
    and m: "map_of (layers (w_sl w1)) ''transient'' = Some [demo_entry ''ghost'' 0 (WithExit ''g'')]" by blast
  have h: "\<not> interacting ?w" "transient_layers (cfg demo_core_env) = ''transient'' # []"
    "demo_entry ''ghost'' 0 (WithExit ''g'') \<in> set [demo_entry ''ghost'' 0 (WithExit ''g'')]"
    "truthy_str (tag (demo_entry ''ghost'' 0 (WithExit ''g'')))"
    "hide_result (dops demo_core_env) (start_now demo_core_env) (demo_entry ''ghost'' 0 (WithExit ''g'')) (BoolPrefix True) \<noteq> None"
    by (simp_all add: demo_world_def demo_core_env_def demo_cfg_def demo_entry_def hide_result_def demo_ops_def)
  from interact_transient_exit_loses_result [OF h(1) r h(2) m h(3-5)] show ?thesis by blast
qed

lemma snapshot_root_none:
  "map_of (transition st) None = None \<Longrightarrow> map_of (ongoing_transition st) None = None \<Longrightarrow>
     map_of (ongoing_transition (snapshot_transitions skip st)) None = None"
  using snapshot_loop_ongoing_none [of "transition st" None "st\<lparr>suppress_transition := False\<rparr>"]
  by (simp add: snapshot_transitions_def Let_def)

text \<open>
  C33. A \<open>trans_pause\<close> interaction with no root transition pending or ongoing returns
  \<open>None\<close> at once: it runs no event loop and leaves the scene lists as they were (only the
  window is marked not shown), and the cleanup still requests a restart.
\<close>

theorem trans_pause_interact_returns_none:
  assumes "\<not> interacting w" and "map_of (transition (w_ifc w)) None = None"
    and "map_of (ongoing_transition (w_ifc w)) None = None"
  shows "\<exists>w'. interact (Suc m) n env False True w = Some (Inr None, w') \<and> \<not> interacting w' \<and>
     restart_interaction (w_ifc w') \<and> w_sl w' = (w_sl w)\<lparr>shown_window := False\<rparr> \<and> pg_queue (w_ifc w') = pg_queue (w_ifc w)"
proof -
  have "trans_pause_abort True (skipping env) (snapshot_transitions (skipping env) (w_ifc w))"
    using snapshot_root_none [OF assms(2,3), of "skipping env"] by (simp add: trans_pause_abort_def)
  then show ?thesis using assms(1)
    by (simp add: interact_def interact_core_def interact_cleanup_def snapshot_transitions_def Let_def)
qed

theorem trans_pause_interact_returns_none_witness:
  "\<exists>w'. interact 1 1 demo_core_env False True (demo_world [InputEvent 3] demo_sl) = Some (Inr None, w')"
proof -
  have "\<not> interacting (demo_world [InputEvent 3] demo_sl)"
    "map_of (transition (w_ifc (demo_world [InputEvent 3] demo_sl))) None = None"
    "map_of (ongoing_transition (w_ifc (demo_world [InputEvent 3] demo_sl))) None = None"
    by (simp_all add: demo_world_def init_interface_def)
  from trans_pause_interact_returns_none [OF this, of 0 1 demo_core_env] show ?thesis by auto
qed

lemma clear_cut_layer:
  "at_list sl L \<noteq> None \<Longrightarrow> \<exists>sl'. clear ops now L False sl = Inr sl' \<and>
     map_of (layers sl') = (map_of (layers sl))(L \<mapsto> []) \<and> dom (at_list sl') = dom (at_list sl)"
  by (auto simp: clear_def set_layer_def update_conv')

lemma clear_layers_cut:
  "\<forall>L \<in> set Ls. at_list sl L \<noteq> None \<Longrightarrow> \<exists>sl'. clear_layers ops now False Ls sl = Inr sl' \<and>
     (\<forall>k. map_of (layers sl') k = (if k \<in> set Ls then Some [] else map_of (layers sl) k)) \<and>
     dom (at_list sl') = dom (at_list sl)"
proof (induction Ls arbitrary: sl)
  case Nil
  then show ?case by simp
next
  case (Cons L Ls)
  obtain sl1 where c: "clear ops now L False sl = Inr sl1" and m: "map_of (layers sl1) = (map_of (layers sl))(L \<mapsto> [])"
    and d: "dom (at_list sl1) = dom (at_list sl)"
    using clear_cut_layer [of sl L ops now] Cons.prems by auto
  have "\<forall>L \<in> set Ls. at_list sl1 L \<noteq> None" using Cons.prems d by (metis domIff list.set_intros(2))
  then obtain sl' where "clear_layers ops now False Ls sl1 = Inr sl'"
    and "\<forall>k. map_of (layers sl') k = (if k \<in> set Ls then Some [] else map_of (layers sl1) k)"
    and "dom (at_list sl') = dom (at_list sl1)"
    using Cons.IH by blast
  then show ?case using c m d by auto
qed

text \<open>
  C29. An interaction returns its handler's result: when the queue starts with an input
  event the handler answers with \<open>r\<close> (no transition pending, \<open>remove_hidden\<close> and
  \<open>compute_scene\<close> succeed, no bad transition), \<open>interact\<close> returns \<open>r\<close> after one loop pass; the \<open>finally\<close>
  blocks have run (\<open>interacting\<close> is reset, a restart is requested, every overlay layer
  is empty) and the scene to transition from is the one computed before the loop.
\<close>

theorem interact_returns_handler_result:
  assumes ni: "\<not> interacting w" and tr: "transition (w_ifc w) = []"
    and bt: "\<not> bad_transition env (ongoing_transition (w_ifc w))"
    and rh: "remove_hidden (dops env) (start_now env) (w_sl w) = Inr sl1"
    and cs: "compute_scene_impl (cfg env) sl1 = Inr sc"
    and pe: "pushed_event (w_ifc w) = None" and q: "pg_queue (w_ifc w) = InputEvent p # q"
    and tt: "\<not> truthy_time (timeout_time (w_ifc w))"
    and js: "joystick (lenv env) (InputEvent p) = Some (InputEvent p)" "\<not> audio_event (lenv env) (InputEvent p)"
    and hd: "\<forall>f. outcome (handle (lenv env) (InputEvent p) f) = Returned r"
    and ov: "\<forall>L \<in> set (overlay_layers (cfg env)). at_list sl1 L \<noteq> None"
  shows "\<exists>w'. interact (Suc m) (Suc n) env False False w = Some (Inr (Some r), w') \<and> \<not> interacting w' \<and>
     restart_interaction (w_ifc w') \<and> old_scene (w_ifc w') = sc \<and>
     (\<forall>L \<in> set (overlay_layers (cfg env)). map_of (layers (w_sl w')) L = Some [])"
proof -
  define env' where "env' = (lenv env)\<lparr>trans_pause_arg := False\<rparr>"
  define i0 where "i0 = snapshot_transitions (skipping env) (w_ifc w)"
  define i1 where "i1 = i0\<lparr>restart_interaction := False, pg_queue := reset_queue (pg_queue i0)\<rparr>"
  define st0 where "st0 = loop_init (i1\<lparr>old_scene := sc\<rparr>) sl1 (pred_steps env) (mode_reset env)"
  have nb: "\<not> bad_transition env (ongoing_transition i0)"
    using bt tr by (auto simp: i1_def i0_def snapshot_transitions_def Let_def bad_transition_def)
  have ne: "next_event (InputEvent p) (filter (\<lambda>e. \<not> is_motion e \<and> e \<noteq> PeriodicEvent \<and> e \<noteq> TimeEvent \<and> e \<noteq> RedrawEvent) q @ [TimeEvent]) st0"
    using pe q tr by (simp add: next_event_def st0_def loop_init_def i1_def i0_def snapshot_transitions_def Let_def
        reset_queue_def is_motion_def)
  have r0: "\<not> restart_interaction (ifc st0)" "\<not> truthy_time (timeout_time (ifc st0))"
    using tt by (auto simp: st0_def loop_init_def i1_def i0_def snapshot_transitions_def Let_def)
  have j0: "joystick env' (InputEvent p) = Some (InputEvent p)" "\<not> audio_event env' (InputEvent p)"
    using js by (simp_all add: env'_def)
  obtain st'' where "loop_pass env' st0 = dispatch env' (InputEvent p) st''"
    using pass_dispatches_input [OF r0(1) ne r0(2) j0] by blast
  then obtain st' where run: "run_loop (Suc n) env' st0 = Some (Finish st' False (Some r))"
    using dispatch_returned [of env' "InputEvent p" st'' r] hd by (auto simp: env'_def)
  have "loop_frame st0 st'" using run_loop_frame [OF run] by simp
  then have at: "at_list (scene st') = at_list sl1" and os: "old_scene (ifc st') = sc"
    by (simp_all add: loop_frame_def st0_def loop_init_def)
  obtain sl' where cl: "clear_layers (dops env) (start_now env) False (overlay_layers (cfg env)) (scene st') = Inr sl'"
    and cm: "\<forall>k. map_of (layers sl') k = (if k \<in> set (overlay_layers (cfg env)) then Some [] else map_of (layers (scene st')) k)"
    using clear_layers_cut [of "overlay_layers (cfg env)" "scene st'" "dops env" "start_now env"] ov at by auto
  have "interact_core (Suc n) env False (w\<lparr>interacting := True\<rparr>) =
      Some (Inr (False, Some r), w\<lparr>interacting := True, w_ifc := (ifc st')\<lparr>restart_interaction := True\<rparr>, w_sl := sl'\<rparr>)"
    using rh cs nb run cl
    by (simp add: interact_core_def core_finally_def trans_pause_abort_def Let_def i0_def [symmetric]
        i1_def [symmetric] st0_def [symmetric] env'_def [symmetric] del: run_loop.simps)
  then show ?thesis using os cm ni by (simp add: interact_def interact_cleanup_def)
qed

theorem interact_returns_handler_result_witness:
  "\<exists>w'. interact 1 1 demo_core_env False False (demo_world [InputEvent 3] demo_sl) = Some (Inr (Some 3), w')"
proof -
  have "\<exists>sl1 sc. remove_hidden (dops demo_core_env) (start_now demo_core_env) (w_sl (demo_world [InputEvent 3] demo_sl)) = Inr sl1 \<and>
      compute_scene_impl (cfg demo_core_env) sl1 = Inr sc \<and>
      (\<forall>L \<in> set (overlay_layers (cfg demo_core_env)). at_list sl1 L \<noteq> None)"
    by (simp add: interact_eval Let_def)
  then obtain sl1 sc where rh: "remove_hidden (dops demo_core_env) (start_now demo_core_env) (w_sl (demo_world [InputEvent 3] demo_sl)) = Inr sl1"
    and cs: "compute_scene_impl (cfg demo_core_env) sl1 = Inr sc"
    and ov: "\<forall>L \<in> set (overlay_layers (cfg demo_core_env)). at_list sl1 L \<noteq> None" by blast
  have h: "\<not> interacting (demo_world [InputEvent 3] demo_sl)" "transition (w_ifc (demo_world [InputEvent 3] demo_sl)) = []"
    "\<not> bad_transition demo_core_env (ongoing_transition (w_ifc (demo_world [InputEvent 3] demo_sl)))"
    "pushed_event (w_ifc (demo_world [InputEvent 3] demo_sl)) = None"
    "pg_queue (w_ifc (demo_world [InputEvent 3] demo_sl)) = InputEvent 3 # []"
    "\<not> truthy_time (timeout_time (w_ifc (demo_world [InputEvent 3] demo_sl)))"
    "joystick (lenv demo_core_env) (InputEvent 3) = Some (InputEvent 3)" "\<not> audio_event (lenv demo_core_env) (InputEvent 3)"
    "\<forall>f. outcome (handle (lenv demo_core_env) (InputEvent 3) f) = Returned 3"
    by (simp_all add: demo_world_def init_interface_def demo_core_env_def demo_env_def demo_handle_def
        bad_transition_def demo_cfg_def)
  from interact_returns_handler_result [OF h(1-3) rh cs h(4-9) ov, of 0 0] show ?thesis by auto
qed

subsection \<open>A skipped transition suppresses the next one\<close>

lemma dispatch_suppress:
  "dispatch env ev st = Finish st' b (Some r) \<Longrightarrow> trans_pause_arg env \<Longrightarrow> result_truthy env r \<Longrightarrow>
     suppress_transition (ifc st')"
  by (auto simp: dispatch_def Let_def after_event_def split_beta split: outcome.splits if_splits)

lemma input_event_suppress:
  "input_event env ev st = Finish st' b (Some r) \<Longrightarrow> trans_pause_arg env \<Longrightarrow> result_truthy env r \<Longrightarrow>
     suppress_transition (ifc st')"
  unfolding input_event_def Let_def split_beta by (rule dispatch_suppress)

lemma handle_event_suppress:
  "handle_event env ev st = Finish st' b (Some r) \<Longrightarrow> trans_pause_arg env \<Longrightarrow> result_truthy env r \<Longrightarrow>
     suppress_transition (ifc st')"
  by (auto simp: handle_event_def classify_event_def split_beta Let_def
      split: if_splits option.splits sum.splits dest: input_event_suppress)

lemma loop_pass_suppress:
  "loop_pass env st = Finish st' b (Some r) \<Longrightarrow> trans_pause_arg env \<Longrightarrow> result_truthy env r \<Longrightarrow>
     suppress_transition (ifc st')"
  by (auto simp: loop_pass_def wait_and_handle_def split_beta Let_def
      split: if_splits option.splits dest: handle_event_suppress)

lemma run_loop_suppress:
  "run_loop n env st = Some (Finish st' b (Some r)) \<Longrightarrow> trans_pause_arg env \<Longrightarrow> result_truthy env r \<Longrightarrow>
     suppress_transition (ifc st')"
proof (induction n arbitrary: st)
  case 0
  then show ?case by simp
next
  case (Suc n)
  then show ?case by (auto split: pass_result.splits dest: loop_pass_suppress)
qed

lemma interact_core_suppress:
  "interact_core n env True w = Some (Inr (b, Some r), w') \<Longrightarrow> result_truthy (lenv env) r \<Longrightarrow>
     suppress_transition (w_ifc w')"
  by (auto simp: interact_core_def core_finally_def Let_def
      split: if_splits sum.splits option.splits pass_result.splits dest!: run_loop_suppress)

lemma interact_repeat_suppress:
  "interact_repeat m n env True w = Some (Inr (Some r), w') \<Longrightarrow> result_truthy (lenv env) r \<Longrightarrow>
     suppress_transition (w_ifc w')"
proof (induction m arbitrary: w)
  case 0
  then show ?case by simp
next
  case (Suc m)
  then show ?case
    by (auto split: option.splits sum.splits prod.splits bool.splits dest: interact_core_suppress)
qed

lemma interact_suppress:
  assumes "interact m n env clr True w = Some (Inr (Some r), w')" and "result_truthy (lenv env) r"
  shows "suppress_transition (w_ifc w')"
proof -
  obtain w1 where "interact_repeat m n env True (w\<lparr>interacting := True\<rparr>) = Some (Inr (Some r), w1)"
    and "suppress_transition (w_ifc w') = suppress_transition (w_ifc w1)"
    using assms(1) by (auto simp: interact_def interact_cleanup_def Let_def split: if_splits option.splits sum.splits)
  then show ?thesis using interact_repeat_suppress [OF _ assms(2)] by metis
qed

text \<open>
  C34. A \<open>with\<close> statement whose transition the player dismissed (the \<open>trans_pause\<close>
  interaction returned a true value) suppresses the transition of the next \<open>with\<close>:
  \<open>do_with\<close> then behaves as \<open>with None\<close> (it runs \<open>with_none\<close> and returns \<open>False\<close>
  without interacting).
\<close>

theorem do_with_skip_suppresses_next:
  assumes "do_with m n env (Some t) clr w = Some (Inr (Some (Some r)), w')" and "result_truthy (lenv env) r"
  shows "do_with m' n' env (Some t') clr' w' = do_with m' n' env None clr' w'"
proof -
  obtain r0 where "interact m n env clr True (w\<lparr>w_ifc := set_transition (Some t) None False (w_ifc w)\<rparr>) = Some (r0, w')"
    and "map_sum id Some r0 = Inr (Some (Some r))"
    using assms(1) by (cases "fst (with_none env w)") (auto simp: do_with_def split: if_splits)
  then have "interact m n env clr True (w\<lparr>w_ifc := set_transition (Some t) None False (w_ifc w)\<rparr>) = Some (Inr (Some r), w')"
    by (cases r0) auto
  then have "suppress_transition (w_ifc w')" by (rule interact_suppress) (rule assms(2))
  then show ?thesis by (simp add: do_with_def split_beta)
qed

theorem do_with_skip_suppresses_next_witness:
  "\<exists>w'. do_with 1 1 demo_core_env (Some 7) False
      ((demo_world [InputEvent 3] demo_sl)\<lparr>w_ifc := (w_ifc (demo_world [InputEvent 3] demo_sl))\<lparr>old_scene := [(None, RootBox [])]\<rparr>\<rparr>) =
      Some (Inr (Some (Some 3)), w') \<and>
    do_with 1 1 demo_core_env (Some 8) False w' = do_with 1 1 demo_core_env None False w'"
proof -
  let ?w = "(demo_world [InputEvent 3] demo_sl)\<lparr>w_ifc := (w_ifc (demo_world [InputEvent 3] demo_sl))\<lparr>old_scene := [(None, RootBox [])]\<rparr>\<rparr>"
  have "\<exists>w'. do_with 1 1 demo_core_env (Some 7) False ?w = Some (Inr (Some (Some 3)), w')"
    by (simp add: interact_eval do_with_def set_transition_def init_interface_def Let_def)
  then obtain w' where d: "do_with 1 1 demo_core_env (Some 7) False ?w = Some (Inr (Some (Some 3)), w')" by blast
  have "result_truthy (lenv demo_core_env) 3" by (simp add: demo_core_env_def demo_env_def)
  from do_with_skip_suppresses_next [OF d this, of 1 1 8 False] d show ?thesis by blast
qed

subsection \<open>Fuel\<close>

lemma run_loop_fuel_mono:
  "run_loop n env st = Some r \<Longrightarrow> n \<le> n' \<Longrightarrow> run_loop n' env st = Some r"
proof (induction n arbitrary: st n')
  case 0
  then show ?case by simp
next
  case (Suc n)
  then obtain k where k: "n' = Suc k" "n \<le> k" by (cases n') auto
  show ?case using Suc.prems(1) Suc.IH [of _ k] k by (auto split: pass_result.splits)
qed

lemma interact_core_fuel_mono:
  "interact_core n env tp w = Some x \<Longrightarrow> n \<le> n' \<Longrightarrow> interact_core n' env tp w = Some x"
  by (auto simp: interact_core_def Let_def split: if_splits sum.splits option.splits pass_result.splits
      dest: run_loop_fuel_mono [where n' = n'])

lemma interact_repeat_fuel_mono:
  "interact_repeat m n env tp w = Some x \<Longrightarrow> m \<le> m' \<Longrightarrow> n \<le> n' \<Longrightarrow> interact_repeat m' n' env tp w = Some x"
proof (induction m arbitrary: w m')
  case 0
  then show ?case by simp
next
  case (Suc m)
  obtain k where k: "m' = Suc k" "m \<le> k" using Suc.prems(2) by (cases m') auto
  obtain y where y: "interact_core n env tp w = Some y" using Suc.prems(1) by (auto split: option.splits)
  have "interact_core n' env tp w = Some y" using interact_core_fuel_mono [OF y Suc.prems(3)] .
  then show ?case using Suc.prems(1) Suc.IH [of _ k] Suc.prems(3) y k
    by (auto split: sum.splits prod.splits bool.splits)
qed

text \<open>
  The fuel bounds are adequate: once \<open>interact\<close> returns with \<open>m\<close> restarts and
  \<open>n\<close> loop passes per \<open>interact_core\<close>, any larger bounds give the same result, so a
  result is the interaction's result and not an artefact of the bounds.
\<close>

theorem interact_fuel_mono:
  "interact m n env clr tp w = Some x \<Longrightarrow> m \<le> m' \<Longrightarrow> n \<le> n' \<Longrightarrow> interact m' n' env clr tp w = Some x"
  by (auto simp: interact_def Let_def split: if_splits option.splits dest: interact_repeat_fuel_mono [where m' = m' and n' = n'])

theorem interact_fuel_mono_witness:
  "\<exists>x. interact 1 1 demo_core_env False False (demo_world [InputEvent 3] demo_sl) = Some x \<and>
     interact 2 3 demo_core_env False False (demo_world [InputEvent 3] demo_sl) = Some x"
proof -
  have "\<exists>x. interact 1 1 demo_core_env False False (demo_world [InputEvent 3] demo_sl) = Some x"
    by (simp add: interact_eval Let_def)
  then obtain x where i: "interact 1 1 demo_core_env False False (demo_world [InputEvent 3] demo_sl) = Some x" by blast
  have "(1::nat) \<le> 2" "(1::nat) \<le> 3" by simp_all
  from interact_fuel_mono [OF i this] i show ?thesis by blast
qed

subsection \<open>A transition after \<open>with None\<close>\<close>

lemma with_none_ifc:
  "with_none env w = (Inr u, w1) \<Longrightarrow>
     \<exists>sc. compute_scene_impl (cfg env) (w_sl w) = Inr sc \<and> w_ifc w1 = (w_ifc w)\<lparr>old_scene := sc\<rparr>"
  by (auto simp: with_none_def Let_def split: sum.splits)

text \<open>
  C15. A transition after \<open>with None\<close> runs: once \<open>with_none\<close> has made the computed
  scene the one to transition from, the root transition that \<open>do_with\<close> sets becomes
  ongoing at the snapshot of its \<open>trans_pause\<close> interaction, starting from the root
  widget of that scene, and the safety check does not abort it.
\<close>

theorem with_none_then_transition_runs:
  assumes wn: "with_none env w = (Inr (), w1)" and ok: "dicts_ok (w_ifc w)"
    and ns: "\<not> suppress_transition (w_ifc w)"
  shows "map_of (ongoing_transition (snapshot_transitions False (set_transition (Some t) None False (w_ifc w1)))) None = Some t \<and>
    map_of (transition_from (snapshot_transitions False (set_transition (Some t) None False (w_ifc w1)))) None =
      map_of (old_scene (w_ifc w1)) None \<and>
    \<not> trans_pause_abort True False (snapshot_transitions False (set_transition (Some t) None False (w_ifc w1)))"
proof -
  obtain sc where cs: "compute_scene_impl (cfg env) (w_sl w) = Inr sc" and i: "w_ifc w1 = (w_ifc w)\<lparr>old_scene := sc\<rparr>"
    using with_none_ifc [OF wn] by blast
  obtain rw where rw: "map_of sc None = Some rw" using compute_scene_root [OF cs] by auto
  define st where "st = (set_transition (Some t) None False (w_ifc w1))\<lparr>suppress_transition := False\<rparr>"
  have d: "distinct (map fst (transition st))"
    using ok ns i by (simp add: st_def set_transition_def dicts_ok_def distinct_update)
  have m: "map_of (transition st) None = Some t" "map_of (old_scene st) None = Some rw"
    using ns i rw by (simp_all add: st_def set_transition_def update_conv')
  have o: "map_of (ongoing_transition (snapshot_loop (transition st) st)) None = Some t \<and>
      map_of (transition_from (snapshot_loop (transition st) st)) None = Some rw"
    using snapshot_loop_ongoing [OF d, of st None] m by simp
  have e: "snapshot_transitions False (set_transition (Some t) None False (w_ifc w1)) =
      (snapshot_loop (transition st) st)\<lparr>transition := []\<rparr>"
    by (simp add: snapshot_transitions_def Let_def st_def)
  have "old_scene (snapshot_loop (transition st) st) \<noteq> []" using m(2) by auto
  then show ?thesis using o e i rw by (auto simp: trans_pause_abort_def)
qed

theorem with_none_then_transition_runs_witness:
  "\<exists>w1. with_none demo_core_env (demo_world [] demo_sl) = (Inr (), w1) \<and>
     map_of (ongoing_transition (snapshot_transitions False (set_transition (Some 5) None False (w_ifc w1)))) None = Some 5"
proof -
  have "\<exists>w1. with_none demo_core_env (demo_world [] demo_sl) = (Inr (), w1)"
    by (simp add: interact_eval with_none_def Let_def)
  then obtain w1 where wn: "with_none demo_core_env (demo_world [] demo_sl) = (Inr (), w1)" by blast
  have "dicts_ok (w_ifc (demo_world [] demo_sl))" "\<not> suppress_transition (w_ifc (demo_world [] demo_sl))"
    by (simp_all add: demo_world_def init_interface_def dicts_ok_def)
  from with_none_then_transition_runs [OF wn this, of 5] wn show ?thesis by blast
qed

end
