(* ===== verification/ErrorScreen.thy ===== *)
theory ErrorScreen
  imports Interact
begin

text \<open>
  The exception reporting of \<open>src/renpy/display/error.py\<close>, the one client of the core in
  this repository. \<open>report_exception\<close> and \<open>report_parse_errors\<close> decide whether an
  exception is raised normally or shown on a screen; \<open>call_exception_screen\<close> runs that
  screen as an interaction of the core: it clears every layer, shows the screen, and
  interacts with the quit action set, restoring the quit action on every path. What the
  process environment, the screen registry and the game context answer is the record
  \<open>exc_ctx\<close>; \<open>renpy.config.quit_action\<close> is threaded as a value.
\<close>

datatype screen_action = RollbackAction | ReloadAction | IgnoreAction | UtterRestart

text \<open>What \<open>error.py\<close> asks of its environment: \<open>os.environ\<close>,
  \<open>renpy.exports.has_screen\<close>, whether the display set-up after \<open>Interface()\<close>
  raises, \<open>renpy.display.draw\<close>, and the context lookups in the \<open>try\<close> block
  (\<open>None\<close> where the lookup raises).\<close>

record exc_ctx =
  simple_exceptions :: bool
  screens :: "string list"
  display_init_fails :: bool
  draw_none :: bool
  init_phase :: "bool option"
  next_node :: "bool option"

text \<open>The call \<open>invoke_in_new_context(call_exception_screen, screen, ...)\<close> with its
  action keyword arguments.\<close>

datatype exc_call = ExcCall (ec_screen: string) (ec_rollback: "screen_action option")
  (ec_reload: "screen_action option") (ec_ignore: "screen_action option")

text \<open>The result of the report functions: \<open>return True\<close>, or the screen invoked (after
  which the function falls off its end and returns \<open>None\<close>).\<close>

datatype report = RaiseNormally | ShowScreen exc_call

text \<open>\<open>init_display\<close>: the interface is created when there is none
  (\<open>renpy.display.core.Interface()\<close>); the rest of the set-up may raise.\<close>

definition init_display :: "exc_ctx \<Rightarrow> time \<Rightarrow> ('tr, 'w, 'p, 's) interface option \<Rightarrow>
    (py_error + unit) \<times> ('tr, 'w, 'p, 's) interface option" where
  "init_display c now gi =
     (let gi' = (case gi of None \<Rightarrow> Some (init_interface now) | Some i \<Rightarrow> Some i)
      in (if display_init_fails c then Inl DisplayInitError else Inr (), gi'))"

text \<open>The \<open>try: ... except: pass\<close> block of \<open>report_exception\<close> computing the actions:
  a failing \<open>context()\<close> leaves all three \<open>None\<close>, a failing \<open>context(-1)\<close> only the
  ignore action.\<close>

definition exception_actions :: "exc_ctx \<Rightarrow> screen_action option \<times> screen_action option \<times> screen_action option" where
  "exception_actions c =
     (case init_phase c of
        None \<Rightarrow> (None, None, None)
      | Some ip \<Rightarrow>
          (if ip then None else Some RollbackAction, if ip then None else Some ReloadAction,
           case next_node c of Some True \<Rightarrow> Some IgnoreAction | _ \<Rightarrow> None))"

definition report_exception :: "exc_ctx \<Rightarrow> time \<Rightarrow> ('tr, 'w, 'p, 's) interface option \<Rightarrow>
    report \<times> ('tr, 'w, 'p, 's) interface option" where
  "report_exception c now gi =
     (if simple_exceptions c then (RaiseNormally, gi)
      else if ''_exception'' \<notin> set (screens c) then (RaiseNormally, gi)
      else (case init_display c now gi of
              (Inl _, gi') \<Rightarrow> (RaiseNormally, gi')
            | (Inr _, gi') \<Rightarrow>
                if draw_none c then (RaiseNormally, gi')
                else (let (rb, rl, ig) = exception_actions c
                      in (ShowScreen (ExcCall ''_exception'' rb rl ig), gi'))))"

text \<open>\<open>report_parse_errors\<close>: its \<open>init_display()\<close> is outside any \<open>try\<close>, and it
  does not test \<open>renpy.display.draw\<close>.\<close>

definition report_parse_errors :: "exc_ctx \<Rightarrow> time \<Rightarrow> ('tr, 'w, 'p, 's) interface option \<Rightarrow>
    (py_error + report) \<times> ('tr, 'w, 'p, 's) interface option" where
  "report_parse_errors c now gi =
     (if simple_exceptions c then (Inr RaiseNormally, gi)
      else if ''_parse_errors'' \<notin> set (screens c) then (Inr RaiseNormally, gi)
      else (case init_display c now gi of
              (Inl e, gi') \<Rightarrow> (Inl e, gi')
            | (Inr _, gi') \<Rightarrow> (Inr (ShowScreen (ExcCall ''_parse_errors'' None (Some UtterRestart) None)), gi')))"

text \<open>\<open>call_exception_screen\<close> in the new context \<open>w\<close>: the quit action becomes
  \<open>renpy.exports.quit\<close> (the loop's \<open>quit_action\<close> is set), every layer of
  \<open>renpy.config.layers\<close> is cleared without hiding, the screen is shown
  (\<open>show_screen\<close>, transient), and \<open>renpy.ui.interact\<close> runs an interaction with
  \<open>clear\<close> set; the \<open>finally\<close> block restores the old quit action, returned as the
  third component.\<close>

definition call_exception_screen :: "nat \<Rightarrow> nat \<Rightarrow> ('p, 'r, 's, 'tr, 'd, 'atl, 't) core_env \<Rightarrow>
    (('d, 't) scene_lists \<Rightarrow> ('d, 't) scene_lists) \<Rightarrow> 'q \<Rightarrow> ('tr, 'p, 's, 'd, 't) scene_world \<Rightarrow>
    ((py_error + 'r option) \<times> ('tr, 'p, 's, 'd, 't) scene_world \<times> 'q) option" where
  "call_exception_screen m n env show_screen old_quit w =
     (let env' = env\<lparr>lenv := (lenv env)\<lparr>quit_action := True\<rparr>\<rparr>
      in case clear_layers (dops env) (start_now env) False (config_layers (cfg env)) (w_sl w) of
           Inl e \<Rightarrow> Some (Inl e, w, old_quit)
         | Inr sl \<Rightarrow>
             map_option (\<lambda>(r, w'). (r, w', old_quit))
               (interact m n env' True False (w\<lparr>w_sl := show_screen sl\<rparr>)))"

subsection \<open>An example\<close>

definition demo_ctx :: exc_ctx where
  "demo_ctx = \<lparr>simple_exceptions = False, screens = [''_exception'', ''_parse_errors''],
     display_init_fails = False, draw_none = False, init_phase = Some False, next_node = Some True\<rparr>"


section \<open>Properties of the exception reporting\<close>

lemma report_exception_cases:
  "fst (report_exception c now gi) =
     (if simple_exceptions c \<or> ''_exception'' \<notin> set (screens c) \<or> display_init_fails c \<or> draw_none c then RaiseNormally
      else ShowScreen (ExcCall ''_exception'' (fst (exception_actions c)) (fst (snd (exception_actions c)))
             (snd (snd (exception_actions c)))))"
  by (simp add: report_exception_def init_display_def split_beta Let_def)

text \<open>
  C35. \<open>report_exception\<close> lets the exception be raised normally exactly when simple
  exceptions are requested, there is no \<open>_exception\<close> screen, the display cannot be set
  up, or there is no draw object; otherwise it shows the \<open>_exception\<close> screen, offering
  rollback and reload exactly outside the init phase and ignore exactly when the calling
  context has a next node (a failing context lookup offers none of them).
\<close>

theorem report_exception_decision:
  "(fst (report_exception c now gi) = RaiseNormally \<longleftrightarrow>
      simple_exceptions c \<or> ''_exception'' \<notin> set (screens c) \<or> display_init_fails c \<or> draw_none c) \<and>
   (\<forall>e. fst (report_exception c now gi) = ShowScreen e \<longrightarrow>
      ec_screen e = ''_exception'' \<and> (ec_rollback e \<noteq> None \<longleftrightarrow> init_phase c = Some False) \<and>
      (ec_reload e \<noteq> None \<longleftrightarrow> init_phase c = Some False) \<and>
      (ec_ignore e \<noteq> None \<longleftrightarrow> init_phase c \<noteq> None \<and> next_node c = Some True))"
  by (auto simp: report_exception_cases exception_actions_def split: option.splits bool.splits)

theorem report_exception_decision_witness:
  "\<exists>e. fst (report_exception demo_ctx 0 (None :: (nat, unit, unit, unit) interface option)) = ShowScreen e \<and>
     ec_rollback e \<noteq> None \<and> ec_reload e \<noteq> None \<and> ec_ignore e \<noteq> None"
proof -
  let ?r = "fst (report_exception demo_ctx 0 (None :: (nat, unit, unit, unit) interface option))"
  note d = report_exception_decision [of demo_ctx 0 "None :: (nat, unit, unit, unit) interface option"]
  have "?r \<noteq> RaiseNormally" using d by (simp add: demo_ctx_def)
  then obtain e where e: "?r = ShowScreen e" by (cases ?r) auto
  with d show ?thesis by (simp add: demo_ctx_def)
qed

text \<open>
  C36. The two reporters disagree: when the display cannot be set up, or there is no draw
  object, \<open>report_exception\<close> returns \<open>True\<close> so that the exception is raised
  normally, but \<open>report_parse_errors\<close> does not: its unguarded \<open>init_display()\<close>
  raises, or it invokes the \<open>_parse_errors\<close> screen without a display.
\<close>

theorem report_parse_errors_diverges:
  assumes "\<not> simple_exceptions c" and "''_exception'' \<in> set (screens c)" and "''_parse_errors'' \<in> set (screens c)"
    and "display_init_fails c \<or> draw_none c"
  shows "fst (report_exception c now gi) = RaiseNormally \<and> fst (report_parse_errors c now gi) \<noteq> Inr RaiseNormally"
  using assms by (auto simp: report_exception_cases report_parse_errors_def init_display_def Let_def)

theorem report_parse_errors_diverges_witness:
  "fst (report_exception (demo_ctx\<lparr>display_init_fails := True\<rparr>) 0 (None :: (nat, unit, unit, unit) interface option)) = RaiseNormally \<and>
   fst (report_parse_errors (demo_ctx\<lparr>display_init_fails := True\<rparr>) 0 (None :: (nat, unit, unit, unit) interface option)) = Inl DisplayInitError"
proof -
  have h: "\<not> simple_exceptions (demo_ctx\<lparr>display_init_fails := True\<rparr>)"
    "''_exception'' \<in> set (screens (demo_ctx\<lparr>display_init_fails := True\<rparr>))"
    "''_parse_errors'' \<in> set (screens (demo_ctx\<lparr>display_init_fails := True\<rparr>))"
    "display_init_fails (demo_ctx\<lparr>display_init_fails := True\<rparr>) \<or> draw_none (demo_ctx\<lparr>display_init_fails := True\<rparr>)"
    by (simp_all add: demo_ctx_def)
  from report_parse_errors_diverges [OF h, of 0 "None :: (nat, unit, unit, unit) interface option"] show ?thesis
    by (simp add: report_parse_errors_def init_display_def demo_ctx_def)
qed

text \<open>
  The exception screen runs on a cleared scene: when every layer of
  \<open>renpy.config.layers\<close> has an at-list, \<open>call_exception_screen\<close> empties all of them
  (keeping the at-list keys), shows the screen over them, runs the interaction with the
  quit action set, and returns the old quit action whatever the interaction returns.
\<close>

theorem call_exception_screen_clears:
  assumes "\<forall>L \<in> set (config_layers (cfg env)). at_list (w_sl w) L \<noteq> None"
  shows "\<exists>sl. (\<forall>L \<in> set (config_layers (cfg env)). map_of (layers sl) L = Some []) \<and>
     dom (at_list sl) = dom (at_list (w_sl w)) \<and>
     call_exception_screen m n env show_screen q w =
       map_option (\<lambda>(r, w'). (r, w', q))
         (interact m n (env\<lparr>lenv := (lenv env)\<lparr>quit_action := True\<rparr>\<rparr>) True False (w\<lparr>w_sl := show_screen sl\<rparr>))"
proof -
  obtain sl where c: "clear_layers (dops env) (start_now env) False (config_layers (cfg env)) (w_sl w) = Inr sl"
    and l: "\<forall>k. map_of (layers sl) k = (if k \<in> set (config_layers (cfg env)) then Some [] else map_of (layers (w_sl w)) k)"
    and d: "dom (at_list sl) = dom (at_list (w_sl w))"
    using clear_layers_cut [OF assms, of "dops env" "start_now env"] by blast
  show ?thesis using c l d by (intro exI [of _ sl]) (simp add: call_exception_screen_def)
qed

theorem call_exception_screen_clears_witness:
  "\<exists>sl. (\<forall>L \<in> set (config_layers (cfg demo_core_env)). map_of (layers sl) L = Some []) \<and>
     call_exception_screen 1 1 demo_core_env id () (demo_world [InputEvent 3] demo_sl) =
       map_option (\<lambda>(r, w'). (r, w', ()))
         (interact 1 1 (demo_core_env\<lparr>lenv := (lenv demo_core_env)\<lparr>quit_action := True\<rparr>\<rparr>) True False
            ((demo_world [InputEvent 3] demo_sl)\<lparr>w_sl := sl\<rparr>))"
proof -
  have "\<forall>L \<in> set (config_layers (cfg demo_core_env)). at_list (w_sl (demo_world [InputEvent 3] demo_sl)) L \<noteq> None"
    by (simp add: demo_core_env_def demo_cfg_def demo_world_def demo_sl_def)
  from call_exception_screen_clears [OF this, of 1 1 id "()"] show ?thesis by auto
qed

end
