(* ===== verification/Platform.thy ===== *)
theory Platform
  imports EventLoop
begin

text \<open>
  The platform side of \<open>Interface\<close>: the time base (\<open>init_time\<close>, \<open>get_time\<close>), the
  choice of renderer (\<open>get_draw_constructors\<close>), the video mode with its fallback through
  the renderers (\<open>set_mode\<close>), the window caption, and the minimise/restore
  notifications (\<open>iconified\<close>, \<open>restored\<close>). What pygame, the operating system and the
  draw objects answer is the record \<open>mode_env\<close>; the fields of \<open>Interface\<close>, of
  \<open>renpy.display\<close> and of the preferences these methods change are the record
  \<open>display_state\<close>. The event loop of \<open>EventLoop\<close> records its calls into this part
  as the actions \<open>ASetMode\<close>, \<open>AResize\<close> and \<open>AActive\<close>; \<open>display_action\<close> is their
  meaning here.
\<close>

section \<open>Time base\<close>

text \<open>\<open>init_time()\<close>: the wall-clock time at tick 0; \<open>get_time()\<close> before it adds a
  float to \<open>None\<close>.\<close>

definition init_time :: "time \<Rightarrow> nat \<Rightarrow> time option" where
  "init_time wall tk = Some (wall - real tk / 1000)"

definition get_time :: "time option \<Rightarrow> nat \<Rightarrow> py_error + time" where
  "get_time time_base tk = (case time_base of None \<Rightarrow> Inl TypeError | Some b \<Rightarrow> Inr (b + real tk / 1000))"

section \<open>Renderers and the video mode\<close>

text \<open>The three draw classes \<open>make_draw\<close> can construct; \<open>GLDraw\<close> takes
  \<open>not has_angle\<close>.\<close>

datatype draw_obj = AngleDraw | GLDraw bool | SWDraw

record mode_env =
  on_windows :: bool
  on_android :: bool
  pref_renderer :: string
  env_renderer :: "string option"
  importable :: "string \<Rightarrow> bool"
  accepts :: "draw_obj \<Rightarrow> nat \<times> nat \<Rightarrow> nat \<times> nat \<Rightarrow> bool \<Rightarrow> bool"
  screen_size :: "nat \<times> nat"
  disable_fullscreen :: bool
  save_physical_size :: bool
  draw_physical_size :: "draw_obj \<Rightarrow> nat \<times> nat"
  window_title :: string
  window_subtitle :: string

record display_state =
  draw :: "draw_obj option"
  safe_mode :: bool
  display_reset :: bool
  fullscreen :: bool
  minimized :: bool
  window_caption :: "string option"
  config_renderer :: string
  pref_fullscreen :: bool
  pref_physical_size :: "(nat \<times> nat) option"
  surface_fullscreen :: bool

text \<open>The renderer asked for: \<open>RENPY_RENDERER\<close> over the preference, \<open>sw\<close> in safe mode.\<close>

definition chosen_renderer :: "mode_env \<Rightarrow> display_state \<Rightarrow> string" where
  "chosen_renderer me ds =
     (if safe_mode ds then ''sw'' else case env_renderer me of Some r \<Rightarrow> r | None \<Rightarrow> pref_renderer me)"

definition renderer_list :: "mode_env \<Rightarrow> string \<Rightarrow> string list" where
  "renderer_list me renderer =
     (if renderer = ''auto'' then (if on_windows me then [''gl'', ''angle'', ''sw''] else [''gl'', ''sw''])
      else [renderer, ''sw''])"

text \<open>\<open>make_draw(name, ...)\<close>: the object is made when its name is one of the renderers
  and its module imports and its class constructs.\<close>

definition make_draw :: "mode_env \<Rightarrow> string list \<Rightarrow> string \<Rightarrow> draw_obj \<Rightarrow> draw_obj option" where
  "make_draw me renderers nm obj = (if nm \<in> set renderers \<and> importable me nm then Some obj else None)"

text \<open>The dictionary \<open>draw_objects\<close> after the three \<open>make_draw\<close> calls.\<close>

definition draw_objects :: "mode_env \<Rightarrow> string list \<Rightarrow> string \<Rightarrow> draw_obj option" where
  "draw_objects me renderers =
     (let angle = (if on_windows me then make_draw me renderers ''angle'' AngleDraw else None);
          gl = make_draw me renderers ''gl'' (GLDraw (angle = None));
          sw = make_draw me renderers ''sw'' SWDraw
      in (\<lambda>n. if n = ''angle'' then angle else if n = ''gl'' then gl else if n = ''sw'' then sw else None))"

text \<open>\<open>get_draw_constructors()\<close>: it sets \<open>renpy.config.renderer\<close> and returns the draw
  objects in the order of the renderer list, skipping the unknown ones.\<close>

definition get_draw_constructors :: "mode_env \<Rightarrow> display_state \<Rightarrow> draw_obj list \<times> display_state" where
  "get_draw_constructors me ds =
     (let renderer = chosen_renderer me ds;
          renderers = renderer_list me renderer
      in (List.map_filter (draw_objects me renderers) renderers, ds\<lparr>config_renderer := renderer\<rparr>))"

text \<open>The \<open>for draw in draws\<close> loop of \<open>set_mode\<close>: the first draw object whose
  \<open>set_mode\<close> succeeds becomes \<open>renpy.display.draw\<close>; after each failure
  \<open>pygame.display.quit()\<close> closes the window.\<close>

fun try_draws :: "mode_env \<Rightarrow> nat \<times> nat \<Rightarrow> bool \<Rightarrow> draw_obj list \<Rightarrow> display_state \<Rightarrow>
    draw_obj option \<times> display_state" where
  "try_draws me phys fs [] ds = (None, ds)"
| "try_draws me phys fs (d # drs) ds =
     (if accepts me d (screen_size me) phys fs then (Some d, ds)
      else try_draws me phys fs drs (ds\<lparr>surface_fullscreen := False\<rparr>))"

text \<open>The physical size: the argument, else the screen size on Android or without a
  saved size, else the saved one.\<close>

definition physical_size_of :: "mode_env \<Rightarrow> (nat \<times> nat) option \<Rightarrow> display_state \<Rightarrow> nat \<times> nat" where
  "physical_size_of me phys ds =
     (case phys of
        Some p \<Rightarrow> p
      | None \<Rightarrow> (case pref_physical_size ds of
                   Some p \<Rightarrow> if on_android me then screen_size me else p
                 | None \<Rightarrow> screen_size me))"

text \<open>The local \<open>fullscreen\<close> and the new \<open>self.fullscreen\<close>: a fullscreen surface
  goes to windowed mode first; \<open>RENPY_DISABLE_FULLSCREEN\<close> forces windowed mode but keeps
  the preference in \<open>self.fullscreen\<close>.\<close>

definition fullscreen_flags :: "mode_env \<Rightarrow> display_state \<Rightarrow> bool \<times> bool" where
  "fullscreen_flags me ds =
     (let fs = (if surface_fullscreen ds then False else pref_fullscreen ds)
      in if disable_fullscreen me then (False, pref_fullscreen ds) else (fs, fs))"

text \<open>\<open>Interface.set_mode(physical_size)\<close>: with \<open>display_reset\<close> the old draw object
  is torn down first (\<open>renpy.display.draw.deinit()\<close>, an \<open>AttributeError\<close> when there
  is none); the exception when no renderer accepts the mode keeps the changes made before
  it and clears the fullscreen preference. On success the screen must be redrawn, the
  window is assumed focused and not minimised.\<close>

definition set_mode :: "mode_env \<Rightarrow> (nat \<times> nat) option \<Rightarrow> display_state \<Rightarrow> ('tr, 'w, 'p, 's) interface \<Rightarrow>
    (py_error + unit) \<times> display_state \<times> ('tr, 'w, 'p, 's) interface" where
  "set_mode me phys ds itf =
     (if display_reset ds \<and> draw ds = None then (Inl AttributeError, ds, itf)
      else
       (let ds1 = ds\<lparr>display_reset := False\<rparr>;
            physical = physical_size_of me phys ds1;
            (fs, self_fs) = fullscreen_flags me ds1;
            ds2 = ds1\<lparr>fullscreen := self_fs\<rparr>;
            (draws, ds3) = (case draw ds2 of Some d \<Rightarrow> ([d], ds2) | None \<Rightarrow> get_draw_constructors me ds2)
        in case try_draws me physical fs draws ds3 of
             (None, ds4) \<Rightarrow> (Inl VideoModeError, ds4\<lparr>pref_fullscreen := False\<rparr>, itf)
           | (Some d, ds4) \<Rightarrow>
               (let ds5 = ds4\<lparr>draw := Some d, surface_fullscreen := fs\<rparr>;
                    ds6 = (if save_physical_size me \<and> \<not> fs
                           then ds5\<lparr>pref_physical_size := Some (draw_physical_size me d)\<rparr> else ds5)
                in (Inr (), ds6\<lparr>minimized := False\<rparr>, itf\<lparr>force_redraw := True, focused := True\<rparr>))))"

text \<open>The condition of the mode check at the top of each loop pass.\<close>

definition mode_stale_of :: "display_state \<Rightarrow> bool" where
  "mode_stale_of ds = (fullscreen ds \<noteq> pref_fullscreen ds \<or> display_reset ds)"

section \<open>Window\<close>

definition set_window_caption :: "mode_env \<Rightarrow> bool \<Rightarrow> display_state \<Rightarrow> display_state" where
  "set_window_caption me force ds =
     (let caption = window_title me @ window_subtitle me
      in if \<not> force \<and> window_caption ds = Some caption then ds else ds\<lparr>window_caption := Some caption\<rparr>)"

definition iconified :: "display_state \<Rightarrow> display_state" where
  "iconified ds = (if minimized ds then ds else ds\<lparr>minimized := True\<rparr>)"

text \<open>\<open>restored()\<close>: on Windows the display is reset and the mode set again at the last
  resize.\<close>

definition restored :: "mode_env \<Rightarrow> display_state \<Rightarrow> ('tr, 'w, 'p, 's) interface \<Rightarrow>
    (py_error + unit) \<times> display_state \<times> ('tr, 'w, 'p, 's) interface" where
  "restored me ds itf =
     (if \<not> minimized ds then (Inr (), ds, itf)
      else if on_windows me then set_mode me (last_resize itf) (ds\<lparr>minimized := False, display_reset := True\<rparr>) itf
      else (Inr (), ds\<lparr>minimized := False\<rparr>, itf))"

section \<open>The loop's calls into the platform\<close>

text \<open>The meaning of the actions the event loop records: \<open>ASetMode\<close> is the
  \<open>set_mode()\<close> of the mode check, \<open>AResize\<close> the \<open>set_mode((w, h))\<close> of a resize,
  \<open>AActive\<close> the \<open>restored()\<close> or \<open>iconified()\<close> of a focus notification; the other
  actions do not touch the platform.\<close>

definition display_action :: "mode_env \<Rightarrow> 'p action \<Rightarrow> display_state \<Rightarrow> ('tr, 'w, 'p, 's) interface \<Rightarrow>
    (py_error + unit) \<times> display_state \<times> ('tr, 'w, 'p, 's) interface" where
  "display_action me a ds itf =
     (case a of
        ASetMode \<Rightarrow> set_mode me None ds itf
      | AResize sz \<Rightarrow> set_mode me (Some sz) ds itf
      | AActive True \<Rightarrow> restored me ds itf
      | AActive False \<Rightarrow> (Inr (), iconified ds, itf)
      | _ \<Rightarrow> (Inr (), ds, itf))"

text \<open>A sequence of recorded actions, stopping at the first exception.\<close>

fun replay_display :: "mode_env \<Rightarrow> 'p action list \<Rightarrow> display_state \<Rightarrow> ('tr, 'w, 'p, 's) interface \<Rightarrow>
    (py_error + unit) \<times> display_state \<times> ('tr, 'w, 'p, 's) interface" where
  "replay_display me [] ds itf = (Inr (), ds, itf)"
| "replay_display me (a # as) ds itf =
     (case display_action me a ds itf of
        (Inl e, ds', itf') \<Rightarrow> (Inl e, ds', itf')
      | (Inr _, ds', itf') \<Rightarrow> replay_display me as ds' itf')"

subsection \<open>An example\<close>

definition demo_menv :: mode_env where
  "demo_menv = \<lparr>on_windows = True, on_android = False, pref_renderer = ''auto'', env_renderer = None,
     importable = (\<lambda>n. n \<noteq> ''angle''), accepts = (\<lambda>d _ _ _. d = SWDraw), screen_size = (800, 600),
     disable_fullscreen = False, save_physical_size = True, draw_physical_size = (\<lambda>_. (800, 600)),
     window_title = ''Ren'', window_subtitle = ''Py''\<rparr>"

definition demo_ds :: display_state where
  "demo_ds = \<lparr>draw = None, safe_mode = False, display_reset = False, fullscreen = False, minimized = False,
     window_caption = None, config_renderer = ''auto'', pref_fullscreen = True, pref_physical_size = None,
     surface_fullscreen = False\<rparr>"


section \<open>Properties\<close>

lemma get_time_init_time: "get_time (init_time wall tk) tk' = Inr (wall + (real tk' - real tk) / 1000)"
  by (simp add: get_time_def init_time_def diff_divide_distrib)

lemma get_time_uninit: "get_time None tk = Inl TypeError"
  by (simp add: get_time_def)

lemma flags_ignore_reset [simp]:
  "physical_size_of me phys (ds\<lparr>display_reset := b\<rparr>) = physical_size_of me phys ds"
  "fullscreen_flags me (ds\<lparr>display_reset := b\<rparr>) = fullscreen_flags me ds"
  "physical_size_of me phys (ds\<lparr>minimized := b\<rparr>) = physical_size_of me phys ds"
  "fullscreen_flags me (ds\<lparr>minimized := b\<rparr>) = fullscreen_flags me ds"
  by (simp_all add: physical_size_of_def fullscreen_flags_def split: option.split)

lemma try_draws_find:
  "fst (try_draws me phys fs drs ds) = find (\<lambda>d. accepts me d (screen_size me) phys fs) drs \<and>
   (snd (try_draws me phys fs drs ds) = ds \<or> snd (try_draws me phys fs drs ds) = ds\<lparr>surface_fullscreen := False\<rparr>)"
proof (induction drs arbitrary: ds)
  case Nil
  then show ?case by simp
next
  case (Cons d drs)
  then show ?case
    using Cons.IH [of "ds\<lparr>surface_fullscreen := False\<rparr>"] by (cases "accepts me d (screen_size me) phys fs") auto
qed

lemma try_draws_keeps [simp]:
  "pref_fullscreen (snd (try_draws me phys fs drs ds)) = pref_fullscreen ds"
  "safe_mode (snd (try_draws me phys fs drs ds)) = safe_mode ds"
  "draw (snd (try_draws me phys fs drs ds)) = draw ds"
  using try_draws_find [of me phys fs drs ds] by auto

lemma get_draw_constructors_keeps [simp]:
  "pref_fullscreen (snd (get_draw_constructors me ds)) = pref_fullscreen ds"
  "draw (snd (get_draw_constructors me ds)) = draw ds"
  by (simp_all add: get_draw_constructors_def Let_def)

text \<open>
  C24. The renderer fallback of \<open>set_mode\<close> is a search: without a draw object, the
  mode is set by the first draw object of \<open>get_draw_constructors\<close>, in its order, whose
  \<open>set_mode\<close> succeeds; when none succeeds, \<open>set_mode\<close> raises and clears the fullscreen
  preference, so that the next start is not stuck in fullscreen.
\<close>

theorem set_mode_fallback:
  assumes "draw ds = None" and "\<not> display_reset ds"
  shows "draw (fst (snd (set_mode me phys ds itf))) =
      find (\<lambda>d. accepts me d (screen_size me) (physical_size_of me phys ds) (fst (fullscreen_flags me ds)))
        (fst (get_draw_constructors me ds)) \<and>
    fst (set_mode me phys ds itf) =
      (if draw (fst (snd (set_mode me phys ds itf))) = None then Inl VideoModeError else Inr ()) \<and>
    (draw (fst (snd (set_mode me phys ds itf))) = None \<longrightarrow> \<not> pref_fullscreen (fst (snd (set_mode me phys ds itf))))"
proof -
  let ?ds1 = "ds\<lparr>display_reset := False, fullscreen := snd (fullscreen_flags me ds)\<rparr>"
  let ?P = "\<lambda>d. accepts me d (screen_size me) (physical_size_of me phys ds) (fst (fullscreen_flags me ds))"
  have g: "fst (get_draw_constructors me ?ds1) = fst (get_draw_constructors me ds)"
    by (simp add: get_draw_constructors_def Let_def chosen_renderer_def)
  obtain r ds4 where t: "try_draws me (physical_size_of me phys ds) (fst (fullscreen_flags me ds))
      (fst (get_draw_constructors me ?ds1)) (snd (get_draw_constructors me ?ds1)) = (r, ds4)"
    by fastforce
  have r: "r = find ?P (fst (get_draw_constructors me ds))" and pf: "pref_fullscreen ds4 = pref_fullscreen ds"
    using try_draws_find [of me "physical_size_of me phys ds" "fst (fullscreen_flags me ds)"
        "fst (get_draw_constructors me ?ds1)" "snd (get_draw_constructors me ?ds1)"] t g
    by auto
  have dn: "draw ds4 = None" using t assms(1) try_draws_keeps(3) [of me _ _ _ "snd (get_draw_constructors me ?ds1)"]
    by (metis get_draw_constructors_keeps(2) select_convs(1) snd_conv surjective update_convs(3,4))
  have "draw (fst (snd (set_mode me phys ds itf))) = r \<and>
      fst (set_mode me phys ds itf) = (if r = None then Inl VideoModeError else Inr ()) \<and>
      (r = None \<longrightarrow> \<not> pref_fullscreen (fst (snd (set_mode me phys ds itf))))"
    using assms t dn by (cases r) (simp_all add: set_mode_def Let_def split_beta)
  then show ?thesis using r by simp
qed

theorem set_mode_fallback_witness:
  "draw (fst (snd (set_mode demo_menv None demo_ds (init_interface 0 :: (nat, nat, unit, unit) interface)))) = Some SWDraw"
proof -
  have "draw demo_ds = None" "\<not> display_reset demo_ds" by (simp_all add: demo_ds_def)
  from set_mode_fallback [OF this, of demo_menv None "init_interface 0 :: (nat, nat, unit, unit) interface"]
  show ?thesis
    by (simp add: demo_menv_def demo_ds_def get_draw_constructors_def chosen_renderer_def renderer_list_def
        draw_objects_def make_draw_def map_filter_def physical_size_of_def fullscreen_flags_def)
qed

lemma set_mode_with_draw:
  assumes "draw ds = Some d" and "accepts me d (screen_size me) (physical_size_of me phys ds) (fst (fullscreen_flags me ds))"
  shows "set_mode me phys ds itf =
    (Inr (),
     (let fs = fst (fullscreen_flags me ds);
          ds5 = ds\<lparr>display_reset := False, fullscreen := snd (fullscreen_flags me ds), draw := Some d, surface_fullscreen := fs\<rparr>
      in (if save_physical_size me \<and> \<not> fs then ds5\<lparr>pref_physical_size := Some (draw_physical_size me d)\<rparr> else ds5)\<lparr>minimized := False\<rparr>),
     itf\<lparr>force_redraw := True, focused := True\<rparr>)"
  using assms by (simp add: set_mode_def Let_def split_beta)

lemma set_mode_with_draw_fields:
  assumes "draw ds = Some d" and "accepts me d (screen_size me) (physical_size_of me phys ds) (fst (fullscreen_flags me ds))"
  shows "fst (set_mode me phys ds itf) = Inr () \<and> draw (fst (snd (set_mode me phys ds itf))) = Some d \<and>
    \<not> display_reset (fst (snd (set_mode me phys ds itf))) \<and>
    pref_fullscreen (fst (snd (set_mode me phys ds itf))) = pref_fullscreen ds \<and>
    surface_fullscreen (fst (snd (set_mode me phys ds itf))) = fst (fullscreen_flags me ds) \<and>
    fullscreen (fst (snd (set_mode me phys ds itf))) = snd (fullscreen_flags me ds)"
  using set_mode_with_draw [OF assms, of itf] by (simp add: Let_def)

text \<open>
  C25. The mode check settles: with a draw object whose \<open>set_mode\<close> succeeds, the
  \<open>set_mode()\<close> of the loop's mode check succeeds, and after at most one more call the
  mode is no longer stale (leaving fullscreen for another fullscreen mode goes through
  windowed mode first, which takes the second call).
\<close>

theorem mode_check_settles:
  assumes "draw ds = Some d" and "\<forall>phys fs. accepts me d (screen_size me) phys fs"
  shows "\<exists>ds1 i1. set_mode me None ds itf = (Inr (), ds1, i1) \<and>
     (\<not> mode_stale_of ds1 \<or> (\<exists>ds2 i2. set_mode me None ds1 i1 = (Inr (), ds2, i2) \<and> \<not> mode_stale_of ds2))"
proof -
  have acc: "\<And>p f. accepts me d (screen_size me) p f" using assms(2) by auto
  define r1 where "r1 = set_mode me None ds itf"
  define r2 where "r2 = set_mode me None (fst (snd r1)) (snd (snd r1))"
  have a: "fst r1 = Inr ()" "draw (fst (snd r1)) = Some d" "\<not> display_reset (fst (snd r1))"
    "pref_fullscreen (fst (snd r1)) = pref_fullscreen ds"
    "surface_fullscreen (fst (snd r1)) = fst (fullscreen_flags me ds)"
    "fullscreen (fst (snd r1)) = snd (fullscreen_flags me ds)"
    using set_mode_with_draw_fields [OF assms(1) acc, where phys = None and itf = itf] by (simp_all add: r1_def)
  have b: "fst r2 = Inr ()" "\<not> display_reset (fst (snd r2))"
    "pref_fullscreen (fst (snd r2)) = pref_fullscreen ds"
    "fullscreen (fst (snd r2)) = snd (fullscreen_flags me (fst (snd r1)))"
    using set_mode_with_draw_fields [OF a(2) acc, where phys = None and itf = "snd (snd r1)"] a(4) by (simp_all add: r2_def)
  have "\<not> mode_stale_of (fst (snd r1)) \<or> \<not> mode_stale_of (fst (snd r2))"
    using a b by (auto simp: mode_stale_of_def fullscreen_flags_def Let_def)
  moreover have "r1 = (Inr (), fst (snd r1), snd (snd r1))" "r2 = (Inr (), fst (snd r2), snd (snd r2))"
    using a(1) b(1) by (metis prod.collapse)+
  ultimately show ?thesis unfolding r1_def r2_def by metis
qed

theorem mode_check_settles_witness:
  "\<exists>ds1 i1. set_mode demo_menv None (demo_ds\<lparr>draw := Some SWDraw, surface_fullscreen := True\<rparr>)
       (init_interface 0 :: (nat, nat, unit, unit) interface) = (Inr (), ds1, i1) \<and> mode_stale_of ds1 \<and>
     (\<exists>ds2 i2. set_mode demo_menv None ds1 i1 = (Inr (), ds2, i2) \<and> \<not> mode_stale_of ds2)"
proof -
  let ?ds = "demo_ds\<lparr>draw := Some SWDraw, surface_fullscreen := True\<rparr>"
  have h: "draw ?ds = Some SWDraw" "\<forall>phys fs. accepts demo_menv SWDraw (screen_size demo_menv) phys fs"
    by (simp_all add: demo_menv_def)
  from mode_check_settles [OF h, of "init_interface 0 :: (nat, nat, unit, unit) interface"] obtain ds1 i1
    where s: "set_mode demo_menv None ?ds (init_interface 0 :: (nat, nat, unit, unit) interface) = (Inr (), ds1, i1)"
      and o: "\<not> mode_stale_of ds1 \<or> (\<exists>ds2 i2. set_mode demo_menv None ds1 i1 = (Inr (), ds2, i2) \<and> \<not> mode_stale_of ds2)"
    by blast
  have "accepts demo_menv SWDraw (screen_size demo_menv) (physical_size_of demo_menv None ?ds) (fst (fullscreen_flags demo_menv ?ds))"
    by (simp add: demo_menv_def)
  from set_mode_with_draw_fields [OF h(1) this, of "init_interface 0 :: (nat, nat, unit, unit) interface"] s
  have "fullscreen ds1 \<noteq> pref_fullscreen ds1"
    by (simp add: fullscreen_flags_def demo_menv_def demo_ds_def)
  then have "mode_stale_of ds1" by (simp add: mode_stale_of_def)
  with s o show ?thesis by blast
qed

lemma restored_after_iconified:
  assumes "on_windows me" and "draw ds = Some d" and "\<forall>phys fs. accepts me d (screen_size me) phys fs"
  shows "\<exists>ds' i'. restored me (iconified ds) itf = (Inr (), ds', i') \<and> \<not> minimized ds' \<and>
     \<not> display_reset ds' \<and> force_redraw i'"
proof -
  have acc: "\<And>p f. accepts me d (screen_size me) p f" using assms(3) by auto
  have "draw (ds\<lparr>minimized := False, display_reset := True\<rparr>) = Some d" using assms(2) by simp
  from set_mode_with_draw [OF this acc, of "last_resize itf" itf] show ?thesis
    using assms(1) by (simp add: restored_def iconified_def Let_def)
qed

lemma replay_no_platform:
  "set as \<inter> (range AResize \<union> range AActive \<union> {ASetMode}) = {} \<Longrightarrow> replay_display me as ds itf = (Inr (), ds, itf)"
proof (induction as)
  case Nil
  then show ?case by simp
next
  case (Cons a as)
  then show ?case by (cases a) (auto simp: display_action_def)
qed

end
