(* ===== verification/Screen.thy ===== *)
theory Screen
  imports Platform
begin

text \<open>
  The screen-facing methods of \<open>Interface\<close> that read what was last drawn:
  \<open>draw_screen\<close> (it keeps the render tree), the screenshot cache (\<open>take_screenshot\<close> in
  the foreground and, split at its wait, in the background, \<open>save_screenshot\<close>,
  \<open>get_screenshot\<close>, \<open>lose_screenshot\<close>), the cursor (\<open>get_mouse_info\<close> with its
  auto-hide test) and \<open>drawn_since\<close>. The clock is \<open>Platform.get_time\<close>. The
  \<open>Interface\<close> fields these methods use that the event loop does not are the record
  \<open>screen_fields\<close>; what the renderer, the configuration and the image code answer is the
  record \<open>screen_env\<close>.
\<close>

text \<open>\<open>self.surftree\<close> and \<open>self.fullscreen_video\<close> are first assigned by
  \<open>draw_screen\<close>: \<open>None\<close> stands for the attribute not existing yet.\<close>

record 'st screen_fields =
  surftree :: "'st option"
  fullscreen_video :: bool
  screenshot :: "string option"
  mouse :: string
  show_mouse :: bool

definition init_screen_fields :: "'st screen_fields" where
  "init_screen_fields = \<lparr>surftree = None, fullscreen_video = False, screenshot = None, mouse = ''default'',
     show_mouse = True\<rparr>"

text \<open>\<open>render_screen\<close> is \<open>renpy.display.render.render_screen\<close>, \<open>draw_screenshot\<close> the draw
  object's \<open>screenshot\<close>, \<open>png_of\<close> the copy, \<open>smoothscale\<close> and \<open>save_png\<close> of
  \<open>take_screenshot\<close>; \<open>save_image\<close> is \<open>image_save_unscaled\<close> (\<open>False\<close> when it raises);
  \<open>config_mouse\<close> is \<open>renpy.config.mouse\<close> (empty for \<open>None\<close> and \<open>{}\<close>), a cursor
  animation being a list of (image, x, y) frames.\<close>

record ('r, 'st, 'img, 'm) screen_env =
  render_screen :: "'r \<Rightarrow> nat \<Rightarrow> nat \<Rightarrow> 'st"
  screen_width :: nat
  screen_height :: nat
  draw_screenshot :: "'st \<Rightarrow> bool \<Rightarrow> 'img"
  png_of :: "'img \<Rightarrow> nat \<times> nat \<Rightarrow> string"
  thumbnail_width :: nat
  thumbnail_height :: nat
  screenshot_crop :: "(nat \<times> nat \<times> nat \<times> nat) option"
  subsurface :: "'img \<Rightarrow> nat \<times> nat \<times> nat \<times> nat \<Rightarrow> 'img"
  save_image :: "'img \<Rightarrow> string \<Rightarrow> bool"
  config_debug :: bool
  mouse_hide_time :: time
  config_mouse :: "(string \<times> ('m \<times> int \<times> int) list) list"

text \<open>What \<open>get_mouse_info\<close> reads outside the interface: \<open>renpy.store.mouse_visible\<close>,
  \<open>renpy.game.less_mouse\<close>, \<open>renpy.store.default_mouse\<close> (\<open>None\<close> when unset) and
  \<open>renpy.display.focus.get_mouse()\<close>.\<close>

record mouse_store =
  store_mouse_visible :: bool
  less_mouse :: bool
  default_mouse :: "string option"
  focus_mouse :: "string option"

section \<open>Drawing and screenshots\<close>

text \<open>\<open>draw_screen(root_widget, fullscreen_video)\<close>: the render tree of the root at the
  screen size is drawn and kept (the draw, the mark-and-sweep and the focus update are the
  renderer's).\<close>

definition draw_screen :: "('r, 'st, 'img, 'm) screen_env \<Rightarrow> 'r \<Rightarrow> bool \<Rightarrow> 'st screen_fields \<Rightarrow> 'st screen_fields" where
  "draw_screen se root_widget fv sf =
     (let tree = render_screen se root_widget (screen_width se) (screen_height se)
      in sf\<lparr>surftree := Some tree, fullscreen_video := fv\<rparr>)"

text \<open>The end of \<open>take_screenshot\<close>: the window is copied, scaled and stored as PNG.\<close>

definition store_screenshot :: "('r, 'st, 'img, 'm) screen_env \<Rightarrow> nat \<times> nat \<Rightarrow> 'img \<Rightarrow> 'st screen_fields \<Rightarrow>
    'st screen_fields" where
  "store_screenshot se scale window sf = sf\<lparr>screenshot := Some (png_of se window scale)\<rparr>"

text \<open>\<open>take_screenshot(scale)\<close> in the main thread: the window is the draw object's
  screenshot of the kept render tree, an \<open>AttributeError\<close> before the first
  \<open>draw_screen\<close>.\<close>

definition take_screenshot :: "('r, 'st, 'img, 'm) screen_env \<Rightarrow> nat \<times> nat \<Rightarrow> 'st screen_fields \<Rightarrow>
    py_error + 'st screen_fields" where
  "take_screenshot se scale sf =
     (case surftree sf of
        None \<Rightarrow> Inl AttributeError
      | Some tree \<Rightarrow> Inr (store_screenshot se scale (draw_screenshot se tree (fullscreen_video sf)) sf))"

text \<open>\<open>take_screenshot(scale, background=True)\<close>, with the main thread's steps while it
  waits as the function \<open>main\<close>: the request (\<open>Interface.bg_request\<close>), the wait, which
  still blocks (\<open>None\<close>) unless \<open>main\<close> has set the event, and the collection
  (\<open>Interface.bg_collect\<close>); a \<open>None\<close> surface makes the copy raise.\<close>

definition take_screenshot_bg :: "('r, 'st, 'img, 'm) screen_env \<Rightarrow> nat \<times> nat \<Rightarrow>
    (('tr, 'w, 'p, 'img) interface \<Rightarrow> ('tr, 'w, 'p, 'img) interface) \<Rightarrow> ('tr, 'w, 'p, 'img) interface \<Rightarrow>
    'st screen_fields \<Rightarrow> ((py_error + 'st screen_fields) \<times> ('tr, 'w, 'p, 'img) interface) option" where
  "take_screenshot_bg se scale main itf sf =
     map_option (\<lambda>(window, itf').
         (case window of None \<Rightarrow> Inl AttributeError | Some w \<Rightarrow> Inr (store_screenshot se scale w sf), itf'))
       (bg_collect (main (bg_request itf)))"

text \<open>\<open>save_screenshot(filename)\<close>: the full-size window, cropped by
  \<open>renpy.config.screenshot_crop\<close>; a failing save is re-raised only with
  \<open>renpy.config.debug\<close>. The result is the image written, or \<open>None\<close>.\<close>

definition save_screenshot :: "('r, 'st, 'img, 'm) screen_env \<Rightarrow> string \<Rightarrow> 'st screen_fields \<Rightarrow>
    py_error + 'img option" where
  "save_screenshot se filename sf =
     (case surftree sf of
        None \<Rightarrow> Inl AttributeError
      | Some tree \<Rightarrow>
          (let window = draw_screenshot se tree (fullscreen_video sf);
               window' = (case screenshot_crop se of None \<Rightarrow> window | Some r \<Rightarrow> subsurface se window r)
           in if save_image se window' filename then Inr (Some window')
              else if config_debug se then Inl IOError else Inr None))"

definition lose_screenshot :: "'st screen_fields \<Rightarrow> 'st screen_fields" where
  "lose_screenshot sf = sf\<lparr>screenshot := None\<rparr>"

text \<open>\<open>get_screenshot()\<close>: the stored screenshot when it is truthy, else a thumbnail
  taken for this call only.\<close>

definition get_screenshot :: "('r, 'st, 'img, 'm) screen_env \<Rightarrow> 'st screen_fields \<Rightarrow>
    (py_error + string option) \<times> 'st screen_fields" where
  "get_screenshot se sf =
     (let rv = screenshot sf
      in if truthy_str rv then (Inr rv, sf)
         else (case take_screenshot se (thumbnail_width se, thumbnail_height se) sf of
                 Inl e \<Rightarrow> (Inl e, sf)
               | Inr sf1 \<Rightarrow> (Inr (screenshot sf1), lose_screenshot sf1)))"

section \<open>The cursor\<close>

text \<open>The auto-hide test of \<open>get_mouse_info\<close>: no mouse event for longer than
  \<open>renpy.config.mouse_hide_time\<close> hides the cursor.\<close>

definition mouse_visible :: "('r, 'st, 'img, 'm) screen_env \<Rightarrow> mouse_store \<Rightarrow> 'st screen_fields \<Rightarrow>
    time \<Rightarrow> time \<Rightarrow> bool" where
  "mouse_visible se ms sf mouse_time now =
     ((if mouse_time + mouse_hide_time se < now then False
       else store_mouse_visible ms \<and> \<not> less_mouse ms) \<and> show_mouse sf)"

text \<open>\<open>renpy.config.mouse[kind]\<close>, else the animation of \<open>default_mouse\<close>
  (\<open>'default'\<close> when unset), a \<open>KeyError\<close> when that is missing too.\<close>

definition mouse_animation :: "('r, 'st, 'img, 'm) screen_env \<Rightarrow> mouse_store \<Rightarrow> string \<Rightarrow>
    py_error + ('m \<times> int \<times> int) list" where
  "mouse_animation se ms kind =
     (case map_of (config_mouse se) kind of
        Some anim \<Rightarrow> Inr anim
      | None \<Rightarrow>
          (case map_of (config_mouse se) (case default_mouse ms of None \<Rightarrow> ''default'' | Some d \<Rightarrow> d) of
             None \<Rightarrow> Inl KeyError
           | Some anim \<Rightarrow> Inr anim))"

text \<open>\<open>get_mouse_info()\<close>: whether the hardware cursor shows, and the software cursor's
  offset and image (\<open>load_image\<close> of it) for the current tick; \<open>ticks % len(anim)\<close> on an
  empty animation is a \<open>ZeroDivisionError\<close>.\<close>

definition get_mouse_info :: "('r, 'st, 'img, 'm) screen_env \<Rightarrow> mouse_store \<Rightarrow> time option \<Rightarrow> nat \<Rightarrow>
    ('tr, 'w, 'p, 's) interface \<Rightarrow> 'st screen_fields \<Rightarrow> py_error + bool \<times> int \<times> int \<times> 'm option" where
  "get_mouse_info se ms time_base tk itf sf =
     (case get_time time_base tk of
        Inl e \<Rightarrow> Inl e
      | Inr now \<Rightarrow>
          (if \<not> mouse_visible se ms sf (mouse_event_time itf) now then Inr (False, 0, 0, None)
           else if config_mouse se = [] then Inr (True, 0, 0, None)
           else if \<not> focused itf then Inr (False, 0, 0, None)
           else
             (let kind = (case focus_mouse ms of Some k \<Rightarrow> if k \<noteq> [] then k else mouse sf | None \<Rightarrow> mouse sf)
              in case mouse_animation se ms kind of
                   Inl e \<Rightarrow> Inl e
                 | Inr anim \<Rightarrow>
                     if anim = [] then Inl ZeroDivisionError
                     else (case anim ! (ticks itf mod length anim) of (img, x, y) \<Rightarrow> Inr (False, x, y, Some img)))))"

text \<open>\<open>drawn_since(seconds_ago)\<close>.\<close>

definition drawn_since :: "time option \<Rightarrow> nat \<Rightarrow> ('tr, 'w, 'p, 's) interface \<Rightarrow> time \<Rightarrow> py_error + bool" where
  "drawn_since time_base tk itf seconds_ago =
     (case get_time time_base tk of Inl e \<Rightarrow> Inl e | Inr now \<Rightarrow> Inr (now - frame_time itf \<le> seconds_ago))"

subsection \<open>An example\<close>

text \<open>Render trees and windows are strings naming what was drawn; the PNG of a window is
  its name followed by the size.\<close>

definition demo_se :: "(string, string, string, string) screen_env" where
  "demo_se = \<lparr>render_screen = (\<lambda>r w h. r), screen_width = 800, screen_height = 600,
     draw_screenshot = (\<lambda>t fv. t), png_of = (\<lambda>w (x, y). w @ ''@'' @ (if x = 800 then ''full'' else ''thumb'')),
     thumbnail_width = 256, thumbnail_height = 192, screenshot_crop = None, subsurface = (\<lambda>w r. w),
     save_image = (\<lambda>w f. True), config_debug = False, mouse_hide_time = 30,
     config_mouse = [(''default'', [(''arrow'', 0, 0), (''arrow2'', 1, 1)])]\<rparr>"

definition demo_ms :: mouse_store where
  "demo_ms = \<lparr>store_mouse_visible = True, less_mouse = False, default_mouse = None, focus_mouse = None\<rparr>"


section \<open>Properties\<close>

subsection \<open>Screenshots\<close>

lemma take_screenshot_drawn:
  "surftree sf = Some tree \<Longrightarrow>
     take_screenshot se scale sf = Inr (sf\<lparr>screenshot := Some (png_of se (draw_screenshot se tree (fullscreen_video sf)) scale)\<rparr>)"
  by (simp add: take_screenshot_def store_screenshot_def)

lemma get_screenshot_miss:
  "\<not> truthy_str (screenshot sf) \<Longrightarrow> surftree sf = Some tree \<Longrightarrow>
     get_screenshot se sf =
       (Inr (Some (png_of se (draw_screenshot se tree (fullscreen_video sf)) (thumbnail_width se, thumbnail_height se))),
        lose_screenshot sf)"
  by (simp add: get_screenshot_def take_screenshot_drawn lose_screenshot_def)

lemma get_screenshot_hit:
  "truthy_str (screenshot sf) \<Longrightarrow> get_screenshot se sf = (Inr (screenshot sf), sf)"
  by (simp add: get_screenshot_def)

text \<open>
  The screenshot cache: after \<open>take_screenshot\<close> of the drawn screen,
  \<open>get_screenshot\<close> returns that screenshot and keeps it; after \<open>lose_screenshot\<close> it returns
  a fresh thumbnail of the same screen and leaves the cache empty.
\<close>

theorem screenshot_roundtrip:
  assumes "surftree sf = Some tree"
    and "png_of se (draw_screenshot se tree (fullscreen_video sf)) scale \<noteq> []"
  shows "\<exists>sf'. take_screenshot se scale sf = Inr sf' \<and>
     get_screenshot se sf' = (Inr (Some (png_of se (draw_screenshot se tree (fullscreen_video sf)) scale)), sf') \<and>
     get_screenshot se (lose_screenshot sf') =
       (Inr (Some (png_of se (draw_screenshot se tree (fullscreen_video sf)) (thumbnail_width se, thumbnail_height se))),
        lose_screenshot sf')"
proof -
  define sf' where "sf' = sf\<lparr>screenshot := Some (png_of se (draw_screenshot se tree (fullscreen_video sf)) scale)\<rparr>"
  have t: "take_screenshot se scale sf = Inr sf'" using assms(1) by (simp add: take_screenshot_drawn sf'_def)
  have h: "get_screenshot se sf' = (Inr (screenshot sf'), sf')" using assms(2) by (simp add: get_screenshot_hit sf'_def)
  have m: "get_screenshot se (lose_screenshot sf') =
      (Inr (Some (png_of se (draw_screenshot se tree (fullscreen_video sf)) (thumbnail_width se, thumbnail_height se))),
       lose_screenshot (lose_screenshot sf'))"
    using get_screenshot_miss [of "lose_screenshot sf'" tree se] assms(1) by (simp add: lose_screenshot_def sf'_def)
  show ?thesis using t h m by (simp add: sf'_def lose_screenshot_def)
qed

theorem screenshot_roundtrip_witness:
  "\<exists>sf'. take_screenshot demo_se (800, 600) (draw_screen demo_se ''scene'' False init_screen_fields) = Inr sf' \<and>
     get_screenshot demo_se sf' = (Inr (Some ''scene@full''), sf') \<and>
     get_screenshot demo_se (lose_screenshot sf') = (Inr (Some ''scene@thumb''), lose_screenshot sf')"
proof -
  have "surftree (draw_screen demo_se ''scene'' False init_screen_fields) = Some ''scene''"
    by (simp add: draw_screen_def demo_se_def)
  from screenshot_roundtrip [OF this, of demo_se "(800, 600)"] show ?thesis
    by (simp add: demo_se_def draw_screen_def init_screen_fields_def)
qed

text \<open>
  C17. \<open>get_screenshot\<close> does not do what its docstring says. The docstring
  (\<open>core.py\<close> lines 1451-1453) says it returns \<open>None\<close> when there is no current
  screenshot; the code never does. With no stored screenshot it raises
  \<open>AttributeError\<close> before the first \<open>draw_screen\<close> (\<open>surftree\<close> is not set by
  \<open>__init__\<close>). After a frame is drawn it returns a fresh thumbnail of that frame and
  leaves the cache empty.
\<close>

theorem get_screenshot_never_none:
  assumes "\<not> truthy_str (screenshot sf)"
  shows "fst (get_screenshot se sf) \<noteq> Inr None \<and>
     (surftree sf = None \<longrightarrow> get_screenshot se sf = (Inl AttributeError, sf)) \<and>
     (\<forall>tree. surftree sf = Some tree \<longrightarrow>
        get_screenshot se sf =
          (Inr (Some (png_of se (draw_screenshot se tree (fullscreen_video sf)) (thumbnail_width se, thumbnail_height se))),
           lose_screenshot sf))"
proof (cases "surftree sf")
  case None
  then show ?thesis using assms by (simp add: get_screenshot_def take_screenshot_def)
next
  case (Some tree)
  then show ?thesis using get_screenshot_miss [OF assms Some, of se] by simp
qed

theorem get_screenshot_never_none_witness:
  "get_screenshot demo_se (init_screen_fields :: string screen_fields) = (Inl AttributeError, init_screen_fields) \<and>
   get_screenshot demo_se (draw_screen demo_se ''title'' False init_screen_fields) =
     (Inr (Some ''title@thumb''), lose_screenshot (draw_screen demo_se ''title'' False init_screen_fields))"
proof -
  have i: "\<not> truthy_str (screenshot (init_screen_fields :: string screen_fields))"
    and d: "\<not> truthy_str (screenshot (draw_screen demo_se ''title'' False (init_screen_fields :: string screen_fields)))"
    by (simp_all add: init_screen_fields_def draw_screen_def)
  show ?thesis
    using get_screenshot_never_none [OF i, of demo_se] get_screenshot_never_none [OF d, of demo_se]
    by (simp add: init_screen_fields_def draw_screen_def demo_se_def)
qed

text \<open>
  The background screenshot agrees with the foreground one: when the main thread
  serves the request with its own screenshot of the kept render tree (as
  \<open>event_wait\<close> does), \<open>take_screenshot(scale, background=True)\<close> stores what
  \<open>take_screenshot(scale)\<close> stores and releases the surface; until the main thread serves
  it, the call blocks.
\<close>

theorem bg_screenshot_matches_foreground:
  assumes "surftree sf = Some tree"
  shows "take_screenshot_bg se scale (serve_bg_screenshot (draw_screenshot se tree (fullscreen_video sf))) itf sf =
      Some (take_screenshot se scale sf,
            (serve_bg_screenshot (draw_screenshot se tree (fullscreen_video sf)) (bg_request itf))\<lparr>bgscreenshot_surface := None\<rparr>) \<and>
     take_screenshot_bg se scale (\<lambda>i. i) itf sf = None"
  using assms
  by (simp add: take_screenshot_bg_def take_screenshot_def bg_collect_def bg_request_def serve_bg_screenshot_def)

theorem bg_screenshot_matches_foreground_witness:
  "take_screenshot_bg demo_se (800, 600) (serve_bg_screenshot ''scene'') (init_interface 0 :: (unit, unit, unit, string) interface)
      (draw_screen demo_se ''scene'' False init_screen_fields) =
     Some (Inr ((draw_screen demo_se ''scene'' False init_screen_fields)\<lparr>screenshot := Some ''scene@full''\<rparr>),
       (serve_bg_screenshot ''scene'' (bg_request (init_interface 0)))\<lparr>bgscreenshot_surface := None\<rparr>) \<and>
   take_screenshot_bg demo_se (800, 600) (\<lambda>i. i) (init_interface 0 :: (unit, unit, unit, string) interface)
      (draw_screen demo_se ''scene'' False init_screen_fields) = None"
proof -
  have "surftree (draw_screen demo_se ''scene'' False init_screen_fields) = Some ''scene''"
    by (simp add: draw_screen_def demo_se_def)
  from bg_screenshot_matches_foreground [OF this, of demo_se "(800, 600)" "init_interface 0 :: (unit, unit, unit, string) interface"]
  show ?thesis by (simp add: demo_se_def draw_screen_def init_screen_fields_def take_screenshot_drawn)
qed

subsection \<open>The cursor and the event loop\<close>

lemma fold_timeout_mouse_time [simp]: "mouse_event_time (fold timeout ts i) = mouse_event_time i"
  by (induction ts arbitrary: i) (simp_all add: timeout_def)

lemma dispatch_mouse_time:
  "mouse_event_time (ifc (result_state (dispatch env ev st))) = mouse_event_time (ifc st)"
  by (simp add: dispatch_def after_event_def process_redraws_def emit_def Let_def split: outcome.split)

lemma active_event_keeps:
  "mouse_event_time (ifc (active_event ev st)) = mouse_event_time (ifc st) \<and> passes (active_event ev st) = passes st"
  by (simp add: active_event_def Let_def emit_def split: event.split)

text \<open>The loop handles a mouse event (one the audio and joystick code pass on) as an
  input event, which records the pass time as the time of the last mouse event.\<close>

lemma handle_mouse_event_time:
  assumes "is_mouse ev" "\<not> audio_event env ev" "joystick env ev = Some ev"
  shows "mouse_event_time (ifc (result_state (handle_event env ev st))) = now_of env st"
proof -
  have ne: "ev \<noteq> NoEvent" "ev \<noteq> TimeEvent" "ev \<noteq> RedrawEvent" "\<not> is_periodic ev" "ev \<noteq> QuitEvent"
    "\<not> is_resize ev"
    using assms(1) by (auto simp: is_mouse_def is_periodic_def is_resize_def split: event.splits)
  have "handle_event env ev st = input_event env ev st"
    using ne assms(2,3) by (simp add: handle_event_def merge_time_def classify_event_def)
  then show ?thesis using assms(1)
    by (simp add: input_event_def dispatch_mouse_time active_event_keeps take_kind_def now_of_def split_beta Let_def)
qed

lemma hardware_cursor_info:
  assumes "get_time time_base tk = Inr t" "store_mouse_visible ms" "\<not> less_mouse ms" "show_mouse sf"
    "config_mouse se = []"
  shows "get_mouse_info se ms time_base tk itf sf = Inr (\<not> mouse_event_time itf + mouse_hide_time se < t, 0, 0, None)"
  using assms by (simp add: get_mouse_info_def mouse_visible_def)

text \<open>
  C28. The cursor auto-hide across the event loop and \<open>get_mouse_info\<close>: after a pass
  of the loop handles a mouse event at its time \<open>now\<close>, a visible hardware cursor is shown
  at time \<open>t\<close> exactly while \<open>t \<le> now + mouse_hide_time\<close>, and hidden after.
\<close>

theorem mouse_hides_after_idle:
  assumes "is_mouse ev" "\<not> audio_event env ev" "joystick env ev = Some ev"
    and "get_time time_base tk = Inr t"
    and "store_mouse_visible ms" "\<not> less_mouse ms" "show_mouse sf" "config_mouse se = []"
  shows "get_mouse_info se ms time_base tk (ifc (result_state (handle_event env ev st))) sf =
     Inr (t \<le> now_of env st + mouse_hide_time se, 0, 0, None)"
proof -
  have m: "mouse_event_time (ifc (result_state (handle_event env ev st))) = now_of env st"
    using handle_mouse_event_time [OF assms(1-3)] .
  show ?thesis
    using hardware_cursor_info [OF assms(4-8), of "ifc (result_state (handle_event env ev st))"] by (simp add: m not_less)
qed

theorem mouse_hides_after_idle_witness:
  "get_mouse_info (demo_se\<lparr>config_mouse := []\<rparr>) demo_ms (Some 0) 5000
     (ifc (result_state (handle_event demo_env (MouseMotion 0) (demo_loop [])))) (init_screen_fields :: string screen_fields) =
   Inr (True, 0, 0, None) \<and>
   get_mouse_info (demo_se\<lparr>config_mouse := []\<rparr>) demo_ms (Some 0) 40000
     (ifc (result_state (handle_event demo_env (MouseMotion 0) (demo_loop [])))) (init_screen_fields :: string screen_fields) =
   Inr (False, 0, 0, None)"
proof -
  have n: "now_of demo_env (demo_loop []) = 1"
    by (simp add: now_of_def demo_env_def demo_loop_def loop_init_def)
  have pre: "is_mouse (MouseMotion (0::nat))" "\<not> audio_event demo_env (MouseMotion 0)" "joystick demo_env (MouseMotion 0) = Some (MouseMotion 0)"
    "store_mouse_visible demo_ms" "\<not> less_mouse demo_ms" "show_mouse (init_screen_fields :: string screen_fields)"
    "config_mouse (demo_se\<lparr>config_mouse := []\<rparr>) = []"
    by (simp_all add: is_mouse_def demo_env_def demo_ms_def init_screen_fields_def)
  have t1: "get_time (Some 0) 5000 = Inr 5" and t2: "get_time (Some 0) 40000 = Inr 40"
    by (simp_all add: get_time_def)
  show ?thesis
    using mouse_hides_after_idle [OF pre(1-3) t1 pre(4-7), of "demo_loop []"]
      mouse_hides_after_idle [OF pre(1-3) t2 pre(4-7), of "demo_loop []"]
    by (simp add: n demo_se_def)
qed

end
