(* ===== verification/Widgets.thy ===== *)
theory Widgets
  imports Prelude "HOL-Library.Multiset"
begin

text \<open>
  What the base class \<open>Displayable\<close> itself does with a widget tree: the traversals
  \<open>find_focusable\<close> (focusable widgets with the focus name they inherit) and
  \<open>visit_all\<close> (every widget, children first), the focus notifications \<open>focus\<close> and
  \<open>unfocus\<close> through \<open>set_style_prefix\<close>, \<open>is_focused\<close> and the default
  \<open>parameterize\<close>. A widget's fields and class attributes are the record \<open>dnode\<close>, the
  tree its \<open>visit()\<close> lists describe is the datatype \<open>dtree\<close>.
\<close>

text \<open>Class attributes \<open>activated\<close>, \<open>focusable\<close>, \<open>role\<close>, the fields \<open>focus_name\<close> of
  \<open>__init__\<close> and \<open>style.prefix\<close>, and the style's \<open>sound\<close> property as read under a
  prefix; \<open>node_id\<close> is the object's identity.\<close>

record 'k dnode =
  node_id :: 'k
  activated :: bool
  focusable :: bool
  role :: string
  focus_name :: "string option"
  style_prefix :: string
  style_sound :: "string \<Rightarrow> string option"

text \<open>\<open>visit()\<close> returns the children, where \<open>None\<close> may occur.\<close>

datatype 'k dtree = DNode "'k dnode" "'k dtree option list"

text \<open>The results of the calls on the children, \<open>None\<close> children skipped.\<close>

definition skip_none :: "'a list option list \<Rightarrow> 'a list" where
  "skip_none xs = concat (map (case_option [] (\<lambda>l. l)) xs)"

text \<open>\<open>find_focusable(callback, focus_name)\<close>: the calls of \<open>callback\<close>, in order.\<close>

primrec find_focusable :: "'k dtree \<Rightarrow> string option \<Rightarrow> ('k \<times> string option) list" where
  "find_focusable (DNode d cs) fname =
     (let fname' = (if truthy_str (focus_name d) then focus_name d else fname)
      in (if focusable d then [(node_id d, fname')] else []) @
         skip_none (map (map_option (\<lambda>t. find_focusable t fname')) cs))"

text \<open>\<open>visit_all(callback)\<close>: the calls of \<open>callback\<close>, in order.\<close>

primrec visit_all :: "'k dtree \<Rightarrow> 'k list" where
  "visit_all (DNode d cs) = skip_none (map (map_option visit_all) cs) @ [node_id d]"

text \<open>\<open>set_style_prefix(prefix, root)\<close>: the new widget, and whether it asked for a redraw.\<close>

definition set_style_prefix :: "string \<Rightarrow> 'k dnode \<Rightarrow> 'k dnode \<times> bool" where
  "set_style_prefix prefix d = (if prefix = style_prefix d then (d, False) else (d\<lparr>style_prefix := prefix\<rparr>, True))"

text \<open>\<open>focus(default)\<close>: the widget, the redraw request, and the sound played; the
  sound is that of the style under its new prefix.\<close>

definition focus :: "bool \<Rightarrow> 'k dnode \<Rightarrow> 'k dnode \<times> bool \<times> string option" where
  "focus dflt d =
     (let (d1, redraw) = (if \<not> activated d then set_style_prefix (role d @ ''hover_'') d else (d, False));
          sound = style_sound d1 (style_prefix d1)
      in (d1, redraw, if \<not> dflt \<and> \<not> activated d1 \<and> truthy_str sound then sound else None))"

definition unfocus :: "bool \<Rightarrow> 'k dnode \<Rightarrow> 'k dnode \<times> bool" where
  "unfocus dflt d = (if \<not> activated d then set_style_prefix (role d @ ''idle_'') d else (d, False))"

text \<open>\<open>is_focused()\<close>: \<open>None\<close> (the bare \<open>return\<close>) while another widget holds the
  grab, else whether the scene lists' focused widget is this one.\<close>

definition is_focused :: "'k option \<Rightarrow> 'k option \<Rightarrow> 'k dnode \<Rightarrow> bool option" where
  "is_focused grab focused d =
     (if grab \<noteq> None \<and> grab \<noteq> Some (node_id d) then None else Some (focused = Some (node_id d)))"

text \<open>\<open>parameterize(name, parameters)\<close> of a widget that takes no parameters.\<close>

definition parameterize :: "string list \<Rightarrow> string list \<Rightarrow> 'k dnode \<Rightarrow> py_error + 'k dnode" where
  "parameterize nm parameters d = (if parameters \<noteq> [] then Inl ParameterError else Inr d)"

text \<open>The widgets of a tree in preorder: the reference the traversals are compared with.\<close>

primrec nodes :: "'k dtree \<Rightarrow> 'k dnode list" where
  "nodes (DNode d cs) = d # skip_none (map (map_option nodes) cs)"

subsection \<open>An example\<close>

definition demo_node :: "nat \<Rightarrow> bool \<Rightarrow> string option \<Rightarrow> nat dnode" where
  "demo_node k f nm = \<lparr>node_id = k, activated = False, focusable = f, role = '''', focus_name = nm,
     style_prefix = ''idle_'', style_sound = (\<lambda>p. if p = ''hover_'' then Some ''click.ogg'' else None)\<rparr>"

definition demo_tree :: "nat dtree" where
  "demo_tree = DNode (demo_node 0 False (Some ''menu''))
     [Some (DNode (demo_node 1 True None) []), None,
      Some (DNode (demo_node 2 False (Some ''inner'')) [Some (DNode (demo_node 3 True None) [])])]"


section \<open>Properties\<close>

lemma skip_none_map:
  "skip_none (map (map_option f) cs) = concat (map f (List.map_filter (\<lambda>x. x) cs))"
  by (induction cs) (auto simp: skip_none_def List.map_filter_simps split: option.split)

lemma map_filter_set: "t \<in> set (List.map_filter (\<lambda>x. x) cs) \<longleftrightarrow> Some t \<in> set cs"
  by (induction cs) (auto simp: List.map_filter_simps split: option.split)

lemma find_focusable_reports:
  "map fst (find_focusable t fname) = map node_id (filter focusable (nodes t))"
proof (induction t arbitrary: fname)
  case (DNode d cs)
  have IH: "\<And>t fn. t \<in> set (List.map_filter (\<lambda>x. x) cs) \<Longrightarrow>
      map fst (find_focusable t fn) = map node_id (filter focusable (nodes t))"
    using DNode.IH by (auto simp: map_filter_set)
  show ?case using IH by (simp add: skip_none_map map_concat filter_concat comp_def Let_def cong: map_cong)
qed

lemma visit_all_mset:
  "mset (visit_all t) = mset (map node_id (nodes t))"
proof (induction t)
  case (DNode d cs)
  have IH: "\<And>t. t \<in> set (List.map_filter (\<lambda>x. x) cs) \<Longrightarrow> mset (visit_all t) = mset (map node_id (nodes t))"
    using DNode.IH by (auto simp: map_filter_set)
  show ?case using IH by (simp add: skip_none_map mset_concat map_concat comp_def cong: map_cong)
qed

text \<open>
  C10. The traversals of a widget tree: \<open>find_focusable\<close> reports exactly the
  focusable widgets, in preorder, and \<open>visit_all\<close> calls back every widget exactly once
  (the same multiset as the preorder), the root last.
\<close>

theorem traversals_cover_tree:
  "map fst (find_focusable t fname) = map node_id (filter focusable (nodes t)) \<and>
   mset (visit_all t) = mset (map node_id (nodes t)) \<and>
   last (visit_all t) = node_id (hd (nodes t))"
  using find_focusable_reports [of t fname] visit_all_mset [of t] by (cases t) simp

theorem traversals_cover_tree_witness:
  "map fst (find_focusable demo_tree None) = [1, 3] \<and> find_focusable demo_tree None = [(1, Some ''menu''), (3, Some ''inner'')] \<and>
   visit_all demo_tree = [1, 3, 2, 0]"
  using traversals_cover_tree [of demo_tree None]
  by (simp add: demo_tree_def demo_node_def skip_none_def Let_def)

lemma idle_hover_differ [simp]: "r @ ''idle_'' \<noteq> r @ ''hover_''"
  by simp

lemma set_style_prefix_same [simp]: "set_style_prefix (style_prefix d) d = (d, False)"
  by (simp add: set_style_prefix_def)

text \<open>
  C11. Focus notifications move a widget between its hover and idle styles: an
  activated widget is left alone (no style change, no redraw, no sound); otherwise
  \<open>focus\<close> selects the \<open>hover_\<close> style of its role, asking for a redraw exactly when that
  changes the style, and plays the hover sound unless the focus is a default one; a second
  \<open>focus\<close> asks for no redraw, and \<open>unfocus\<close> then selects the \<open>idle_\<close> style with a
  redraw.
\<close>

theorem focus_unfocus_cycle:
  "(activated d \<longrightarrow> focus dflt d = (d, False, None) \<and> unfocus u d = (d, False)) \<and>
   (\<not> activated d \<longrightarrow>
      style_prefix (fst (focus dflt d)) = role d @ ''hover_'' \<and>
      fst (snd (focus dflt d)) = (style_prefix d \<noteq> role d @ ''hover_'') \<and>
      snd (snd (focus dflt d)) =
        (if \<not> dflt \<and> truthy_str (style_sound d (role d @ ''hover_'')) then style_sound d (role d @ ''hover_'') else None) \<and>
      \<not> fst (snd (focus dflt' (fst (focus dflt d)))) \<and>
      unfocus u (fst (focus dflt d)) = ((fst (focus dflt d))\<lparr>style_prefix := role d @ ''idle_''\<rparr>, True))"
  by (auto simp: focus_def unfocus_def set_style_prefix_def Let_def dest: sym)

theorem focus_unfocus_cycle_witness:
  "style_prefix (fst (focus False (demo_node 1 True None))) = ''hover_'' \<and>
   fst (snd (focus False (demo_node 1 True None))) \<and>
   snd (snd (focus False (demo_node 1 True None))) = Some ''click.ogg'' \<and>
   \<not> fst (snd (focus False (fst (focus False (demo_node 1 True None))))) \<and>
   unfocus False (fst (focus False (demo_node 1 True None))) =
     ((fst (focus False (demo_node 1 True None)))\<lparr>style_prefix := ''idle_''\<rparr>, True) \<and>
   focus True ((demo_node 1 True None)\<lparr>activated := True\<rparr>) = ((demo_node 1 True None)\<lparr>activated := True\<rparr>, False, None)"
  using focus_unfocus_cycle [of "demo_node 1 True None" False False False]
    focus_unfocus_cycle [of "(demo_node 1 True None)\<lparr>activated := True\<rparr>" True False False]
  by (simp add: demo_node_def)

end
