(* ===== verification/Spec2Isabelle.thy ===== *)
theory Spec2Isabelle
  imports ErrorScreen Screen Widgets
begin

text \<open>
  \<^bold>\<open>A verification model of the Ren'Py display core\<close>
  (\<open>src/renpy/display/core.py\<close>, with \<open>src/renpy/display/error.py\<close> as its one client
  in this repository).

  \<^bold>\<open>The program.\<close> The core has three parts. The \<^emph>\<open>Displayable capability\<close>
  (class \<open>Displayable\<close>) is the polymorphic node of the scene graph. The
  \<^emph>\<open>scene lists\<close> (class \<open>SceneLists\<close>) keep, per layer, an ordered list of
  tagged entries (class \<open>SceneListEntry\<close>) and implement show, hide, replace and clear
  with lifecycle tags \<open>"hide$t"\<close> and \<open>"replaced$t"\<close> for entries that are still
  animating out. The \<^emph>\<open>interface\<close> (class \<open>Interface\<close>) runs an interaction: it
  snapshots transitions, builds the scene from the scene lists, and runs the
  redraw/event loop, with \<open>timeout\<close> as its deadline scheduler. The interface reads and
  mutates the scene lists (\<open>remove_hidden\<close>, \<open>set_times\<close>, \<open>replace_transient\<close>,
  \<open>clear\<close> of the overlay layers) and calls displayables through the capability.

  \<^bold>\<open>The theories.\<close>
  \<^item> \<open>Prelude\<close>: the Python error values (\<open>py_error\<close>), Python truthiness of optional
    strings and the \<open>or\<close> on optional times (\<open>truthy_str\<close>, \<open>py_or\<close>),
    \<open>str.startswith\<close>, \<open>list.insert\<close> and \<open>list.pop\<close> (\<open>insert_at\<close>,
    \<open>pop_at\<close>), a first-match search (\<open>first_index\<close>), and the shared lemmas on
    them (sortedness under insertion, removal and update; counts of matching elements).
  \<^item> \<open>Displayable\<close>: placement (\<open>place\<close>, \<open>Displayable.place\<close>), with the three
    Python classes of a placement value as \<open>position\<close>; the capability interface as a
    record of operations (\<open>disp_ops\<close>: \<open>_hide\<close>, \<open>_show\<close>,
    \<open>set_transform_event\<close>, \<open>_get_parameterized\<close>, \<open>_change_transform_child\<close>,
    \<open>take_state\<close>, the class tests), so that every scene-list theorem holds for every
    displayable implementation; the entry record \<open>scene_list_entry\<close> and
    \<open>update_time\<close>; and \<open>demo_ops\<close>, a concrete implementation used by the witnesses.
  \<^item> \<open>Widgets\<close>: what the base class \<open>Displayable\<close> does itself with a widget
    tree: the tree of \<open>visit()\<close> lists (\<open>dtree\<close>, \<open>None\<close> children allowed) of
    widgets (\<open>dnode\<close>: identity, \<open>activated\<close>, \<open>focusable\<close>, \<open>role\<close>,
    \<open>focus_name\<close>, the style prefix and the style's sound under a prefix);
    \<open>find_focusable\<close> and \<open>visit_all\<close> as the lists of their callback calls,
    \<open>set_style_prefix\<close>, \<open>focus\<close>, \<open>unfocus\<close>, \<open>is_focused\<close> and the default
    \<open>parameterize\<close>. Its lemmas show that \<open>find_focusable\<close> reports exactly the
    focusable widgets in preorder and \<open>visit_all\<close> every widget once (as multisets, the
    root last), and the hover/idle cycle of \<open>focus\<close> and \<open>unfocus\<close>.
  \<^item> \<open>SceneLists\<close>: the record \<open>scene_lists\<close> (\<open>layers\<close> as an association list in
    the dictionary's insertion order, \<open>at_list\<close>, \<open>layer_at_list\<close>,
    \<open>additional_transient\<close>, \<open>shown_window\<close>) and one definition per method:
    \<open>find_index\<close> (the single pass \<open>find_index_loop\<close>), \<open>transform_state\<close>,
    \<open>hide_or_replace\<close>, \<open>remove_hide_replaced\<close>, \<open>add\<close> (split into
    \<open>new_displayable\<close>, the displayable stored, and \<open>add_to_list\<close>, the list
    surgery), \<open>remove\<close>, \<open>remove_above\<close>, \<open>clear\<close> (with \<open>hide_rev\<close>, the
    reversed index loop), \<open>remove_hidden\<close> (\<open>sweep_hidden\<close> per layer),
    \<open>replace_transient\<close>, \<open>transient_is_empty\<close>, \<open>set_layer_at_list\<close>,
    \<open>set_times\<close>, \<open>get_displayable_by_tag\<close>, \<open>get_displayable_by_name\<close>,
    \<open>get_all_displayables\<close> and \<open>__init__\<close> (\<open>init_scene_lists\<close>). Every raise of
    the source is an \<open>Inl\<close> branch: unknown layers, \<open>KeyError\<close> on a missing at-list,
    \<open>TypeError\<close> where the code adds a bool to a string or subtracts \<open>None\<close>.
    The invariant \<open>sl_inv\<close> (each layer sorted by zorder, each visible tag on at most
    one entry) and the abstraction \<open>visible_map\<close> (visible tag to displayable) are
    defined there with the lemmas that the operations keep the one and refine the other.
  \<^item> \<open>Interface\<close>: the fields of class \<open>Interface\<close> the engine uses, as the record
    \<open>interface\<close> (\<open>init_interface\<close> is \<open>Interface.__init__\<close>), with the layer-keyed
    dictionaries (\<open>old_scene\<close>, \<open>transition\<close>, \<open>ongoing_transition\<close>,
    \<open>transition_from\<close>, \<open>transition_time\<close>) as association lists with distinct keys
    (\<open>dicts_ok\<close>) and pygame's event queue as the list \<open>pg_queue\<close>. Its operations are
    \<open>timeout\<close>, \<open>set_transition\<close>, the transition snapshot and the \<open>trans_pause\<close>
    safety check at the start of \<open>interact_core\<close> (\<open>snapshot_transitions\<close>,
    \<open>trans_pause_abort\<close>), \<open>event_peek\<close>, \<open>event_poll\<close>, \<open>event_wait\<close> (a
    blocking wait on an empty queue is \<open>None\<close>; \<open>serve_bg_screenshot\<close> is its service
    of a background screenshot request, \<open>bg_request\<close>/\<open>bg_collect\<close> the requesting
    thread's side of \<open>take_screenshot\<close>) and \<open>quit_event\<close>. Its lemmas show timeout
    convergence and its failure on a \<open>0.0\<close> deadline, the snapshot's effect per layer,
    that the safety check aborts rather than deadlocks, that peeking is transparent, the
    screenshot handoff, the quit debounce, that the dictionaries keep distinct keys, and
    the \<open>set_transition\<close> round trip (set, look up, unset).
  \<^item> \<open>EventLoop\<close>: the redraw/event sub-loop of \<open>interact_core\<close> (the
    \<open>while rv is None\<close> loop). Its local variables and the interface are the record
    \<open>lstate\<close> (\<open>loop_init\<close> is the prologue); one definition per block of the loop body, in
    the code's order: \<open>mode_check\<close>, \<open>redraw_block\<close>, the restart check, \<open>prepare_wait\<close>
    (pending redraws, \<open>predict_loop\<close>, the busy-redraw \<open>continue\<close>), and
    \<open>wait_and_handle\<close> (\<open>timer_block\<close>, \<open>autosave_block\<close>, \<open>get_event\<close>, then
    \<open>handle_event\<close>: \<open>merge_time\<close>, \<open>classify_event\<close>, \<open>resize_event\<close>,
    \<open>input_event\<close> with the focus notifications \<open>active_event\<close>, \<open>dispatch\<close>, \<open>after_event\<close>). One pass is \<open>loop_pass\<close>; it continues,
    finishes with \<open>(repeat, rv)\<close>, raises, or blocks in \<open>pygame.event.wait()\<close> on an empty
    queue. \<open>run_loop\<close> runs passes with fuel, \<open>None\<close> when the fuel runs out. The backend,
    the audio and joystick filters, the focus and scene handlers and the clock are the
    environment \<open>loop_env\<close>. A handler is summarised by its result (a value, none, or
    \<open>IgnoreEvent\<close>) and its calls back into the interface (restart, redraw request,
    \<open>timeout\<close>). What a pass does outside the state (draw, set the scene times, predict,
    autosave, set the mode, dispatch) is appended to \<open>trace\<close>. Its lemmas show:
    \<^item> a restart short-circuits the pass;
    \<^item> a due redraw precedes dispatch;
    \<^item> the scene times are latched right after the first frame drawn and never again;
    \<^item> no prediction step runs while an event is pending;
    \<^item> the loop returns the first handled result within one pass per queued event;
    \<^item> periodic ticks are coalesced;
    \<^item> wake-ups are capped at 3600 seconds;
    \<^item> an expired timeout is delivered ahead of a pushed event;
    \<^item> the autosave test reads the timeout's time left in place of the redraw deadline.
    The fuel of each liveness statement is stated exactly: one pass per queued event.
  \<^item> \<open>SceneBuild\<close>: the scene handed to the backend, as the datatype \<open>widget\<close>
    (layer boxes, at-list wrappers, boxes anchored at the layer time, the root box):
    \<open>SceneLists.make_layer\<close>, \<open>Interface.compute_scene\<close> (\<open>compute_scene_impl\<close>,
    with its loop \<open>scene_layers\<close>) and \<open>SceneLists.after_setstate\<close> (loop body
    \<open>restore_layer\<close>). Its lemmas show when the scene can be built (every configured
    layer has its list and layer at-list; the root is always present) and that
    \<open>after_setstate\<close> establishes this after loading.
  \<^item> \<open>Interact\<close>: \<open>Interface.interact\<close> and the parts of \<open>interact_core\<close> around
    the sub-loop, composed with the scene lists. The state of an interaction is the record
    \<open>world\<close> (the interface, the context's scene lists, \<open>context.interacting\<close>); the
    configuration and callbacks it reads are \<open>core_env\<close> (the \<open>renpy.config\<close> layer
    lists, the displayable operations, whether a transition yields a \<open>Displayable\<close>,
    skipping). \<open>interact_core\<close> is the snapshot and safety check, the queue reset
    (\<open>reset_queue\<close>), \<open>remove_hidden\<close>, \<open>compute_scene\<close>, the transition check of
    \<open>add_layer\<close> (\<open>bad_transition\<close>), \<open>old_scene\<close>, then \<open>run_loop\<close> and the
    \<open>finally\<close> block (\<open>core_finally\<close>: the overlay layers cleared, a restart
    requested). \<open>interact_repeat\<close> is \<open>while repeat\<close> with fuel for the restarts;
    \<open>interact\<close> adds the re-entrancy guard and its \<open>finally\<close> block
    (\<open>replace_transient\<close>, then \<open>interact_cleanup\<close>). \<open>with_none\<close> and
    \<open>do_with\<close> are the \<open>with\<close> statement's entry points. Its lemmas show: a nested
    interaction is refused; a transition set after \<open>with None\<close> becomes ongoing from the
    root of the scene \<open>with_none\<close> computed and is not aborted; every normal exit resets \<open>interacting\<close> and runs the
    cleanup; an exit animation on a transient layer makes \<open>interact\<close> raise
    \<open>TypeError\<close>, losing the result and skipping the cleanup; a \<open>trans_pause\<close>
    interaction without a root transition returns at once; a handler's result is
    returned through the loop and both \<open>finally\<close> blocks; a dismissed transition
    suppresses the next \<open>with\<close>; and the fuel is adequate (more fuel, same result).
  \<^item> \<open>Platform\<close>: the time base (\<open>init_time\<close>, \<open>get_time\<close>) and the platform side of
    \<open>Interface\<close>: \<open>get_draw_constructors\<close> (\<open>chosen_renderer\<close>, \<open>renderer_list\<close>,
    \<open>make_draw\<close>, \<open>draw_objects\<close>), \<open>set_mode\<close> (\<open>physical_size_of\<close>,
    \<open>fullscreen_flags\<close>, the fallback loop \<open>try_draws\<close>), \<open>set_window_caption\<close>,
    \<open>iconified\<close> and \<open>restored\<close>. What pygame, the OS and the draw objects answer is
    \<open>mode_env\<close>; the fields these methods change (of \<open>Interface\<close>,
    \<open>renpy.display\<close> and the preferences) are \<open>display_state\<close>. The event loop and
    this part agree on the loop's \<open>action\<close> datatype: the loop records \<open>ASetMode\<close>,
    \<open>AResize\<close> and \<open>AActive\<close>, and \<open>display_action\<close> (with \<open>replay_display\<close>
    over a trace) is their meaning here. Its lemmas show that the renderer fallback is
    \<open>List.find\<close> over the draw objects and clears the fullscreen preference when all
    fail, that the loop's mode check settles within two \<open>set_mode\<close> calls, that a
    restore on Windows after a minimise sets the mode again, and that a trace without
    platform actions leaves the platform alone.
  \<^item> \<open>Screen\<close>: the methods of \<open>Interface\<close> that read what was last drawn, over
    the record \<open>screen_fields\<close> (\<open>surftree\<close>, \<open>fullscreen_video\<close>, \<open>screenshot\<close>,
    \<open>mouse\<close>, \<open>show_mouse\<close>; \<open>surftree = None\<close> before the first \<open>draw_screen\<close>,
    where the Python attribute does not exist yet) and the answers of the renderer and the
    configuration \<open>screen_env\<close>: \<open>draw_screen\<close>, \<open>take_screenshot\<close> (foreground;
    \<open>take_screenshot_bg\<close> is the background path split at its wait, the main thread's
    steps meanwhile a parameter), \<open>save_screenshot\<close>, \<open>get_screenshot\<close>,
    \<open>lose_screenshot\<close>, \<open>get_mouse_info\<close> (\<open>mouse_visible\<close>, the auto-hide test, and
    \<open>mouse_animation\<close>, the cursor lookup with its \<open>KeyError\<close>; an empty animation is the
    \<open>ZeroDivisionError\<close> of \<open>ticks % 0\<close>) and \<open>drawn_since\<close>, both on
    \<open>Platform.get_time\<close>. Its lemmas show the screenshot cache round trip, that
    \<open>get_screenshot\<close> never returns \<open>None\<close> as its docstring says (it raises
    \<open>AttributeError\<close> until a frame is drawn and then returns a thumbnail of the frame
    \<open>draw_screen\<close> kept), that the background path stores what the foreground path
    stores once \<open>event_wait\<close> serves it (and blocks until then), and,
    composed with the event loop, that a mouse event handled at time \<open>now\<close> keeps a
    visible hardware cursor shown exactly until \<open>now + mouse_hide_time\<close>.
  \<^item> \<open>ErrorScreen\<close>: \<open>error.py\<close>. \<open>report_exception\<close> and \<open>report_parse_errors\<close>
    are decisions over what the process environment, the screen registry and the game
    context answer (the record \<open>exc_ctx\<close>), with \<open>init_display\<close> and the
    \<open>try\<close> block of the actions (\<open>exception_actions\<close>); their result is
    \<open>RaiseNormally\<close> (\<open>return True\<close>) or the screen call \<open>exc_call\<close> they invoke.
    \<open>call_exception_screen\<close> is composed with the scene lists and \<open>interact\<close>. Its
    lemmas show the decision of \<open>report_exception\<close> and the actions it offers, that
    \<open>report_parse_errors\<close> does not return \<open>True\<close> where \<open>report_exception\<close> does
    (display set-up failure, no draw object), and that the exception screen runs on
    cleared layers. \<open>renpy.config.quit_action\<close> is not state of the model: the screen's
    interaction runs with a quit action set, and the old value is handed back unchanged,
    which is all the \<open>finally\<close> block does with it.

  \<^bold>\<open>Fuel.\<close> \<open>run_loop\<close> takes the number of loop passes, \<open>interact_repeat\<close>
  the number of \<open>interact_core\<close> calls (restarts plus one). A blocking wait on an
  empty queue and exhausted fuel are both \<open>None\<close>. The progress lemmas state the fuel
  exactly (one pass per queued event, one call when no restart is requested), and
  \<open>interact_fuel_mono\<close> shows that a result obtained with some fuel is the result for
  all larger fuel, so the bounds are enough whenever the statement gives them.

  \<^bold>\<open>What is not modelled.\<close> Rendering, drawing and audio (what the renderer does in
  \<open>render_screen\<close> and the draw object's \<open>draw_screen\<close> and \<open>screenshot\<close>, the PNG
  encoding, the cursor texture of \<open>load_image\<close>; the \<open>render\<close>, \<open>event\<close>,
  \<open>per_interact\<close> and prediction methods of displayables, empty in the base class and
  defined by subclasses outside these files), pygame's event queue internals; of the
  platform side the icon, \<open>iconify\<close>, \<open>post_init\<close>, the teardown of textures and
  caches on a display reset and the Android suspend (pygame and Android calls), the
  image-prediction index \<open>SceneLists.shown\<close> (its \<open>predict_show\<close>,
  \<open>predict_hide\<close>, \<open>predict_scene\<close> calls are dropped), save/load, and what \<open>error.py\<close>
  calls outside the repository (\<open>show_screen\<close>, \<open>invoke_in_new_context\<close>,
  rollback). In
  \<open>interact_core\<close> the overlay, the underlay, the root widget, the focus roots, the
  prediction coroutine, the image cache ticks and the runtime counter are left out: they
  only build the widget tree handed to the backend. \<open>show_window\<close> and
  \<open>compute_overlay\<close> only call game callbacks and are not modelled.
  The mode check at the head of each pass (\<open>mode_check\<close>) is simplified: it calls
  \<open>set_mode\<close> once when the flag \<open>mode_stale\<close> is set and clears the flag, where the
  code re-tests the fullscreen preference and \<open>display_reset\<close> on every pass (the
  \<open>Platform\<close> lemma \<open>mode_check_settles\<close> shows a second call can be needed); the
  \<open>force_redraw\<close> and \<open>focused\<close> that \<open>set_mode\<close> sets and its
  \<open>VideoModeError\<close> are not seen by the loop, which sets only \<open>needs_redraw\<close>, as the code does after
  calling \<open>set_mode\<close>.
  An operation that raises returns its error with the state it was called in: partial
  effects on the scene lists made before the exception (earlier layers of a loop over
  layers, entries already hidden) are not kept, while the interface fields set before
  the failing call are.
  Python floats are modelled as \<open>real\<close>, ints as \<open>int\<close>; object identity of
  displayables is HOL equality on \<open>'d\<close>.
\<close>

end
